(* ===== verification/Prelude.thy ===== *)
theory Prelude
  imports Main "HOL-Library.AList" "HOL-Library.Char_ord" "HOL-Library.List_Lexorder"
    "HOL-Library.Product_Lexorder" "HOL-Library.Option_ord" "HOL-Library.Word"
begin

text \<open>
  The Go language as the modelled packages use it: byte strings and the functions of the
  packages strings and strconv, maps, and errors as values.

  A Go string is a sequence of bytes, here a \<^typ>\<open>char list\<close>; Go compares strings byte
  by byte, which is the lexicographic order of \<^typ>\<open>string\<close>. A Go map is an association
  list whose keys are distinct; the list order stands for the order in which a \<open>range\<close>
  loop visits the entries, which Go leaves open, so a theorem over all lists covers every
  visiting order. An error result is a sum, with \<open>Inl\<close> for the error; a Go panic is an
  error value of its own.
\<close>

named_theorems go_string \<comment> \<open>facts on the string functions\<close>
named_theorems go_map \<comment> \<open>facts on maps\<close>

subsection \<open>Maps\<close>

type_synonym ('k, 'v) gomap = "('k \<times> 'v) list"
type_synonym strmap = "(string, string) gomap"

abbreviation mget :: "('k, 'v) gomap \<Rightarrow> 'k \<Rightarrow> 'v option" where
  "mget m k \<equiv> map_of m k"

abbreviation mput :: "('k, 'v) gomap \<Rightarrow> 'k \<Rightarrow> 'v \<Rightarrow> ('k, 'v) gomap" where
  "mput m k v \<equiv> AList.update k v m"

abbreviation mdel :: "('k, 'v) gomap \<Rightarrow> 'k \<Rightarrow> ('k, 'v) gomap" where
  "mdel m k \<equiv> AList.delete k m"

text \<open>The one-result index expression \<open>m[k]\<close>: the zero value where the key is absent.\<close>

definition mstr :: "('k, string) gomap \<Rightarrow> 'k \<Rightarrow> string" where
  "mstr m k = (case mget m k of Some v \<Rightarrow> v | None \<Rightarrow> [])"

definition mkeys :: "('k, 'v) gomap \<Rightarrow> 'k list" where
  "mkeys m = map fst m"

definition wf_map :: "('k, 'v) gomap \<Rightarrow> bool" where
  "wf_map m \<longleftrightarrow> distinct (map fst m)"

lemma mget_mput [go_map, simp]: "mget (mput m k v) k' = (if k' = k then Some v else mget m k')"
  by (simp add: update_conv')

lemma mget_mdel [go_map, simp]: "mget (mdel m k) k' = (if k' = k then None else mget m k')"
  by (simp add: delete_conv')

lemma wf_map_mput [go_map, intro]: "wf_map m \<Longrightarrow> wf_map (mput m k v)"
  by (simp add: wf_map_def distinct_update)

lemma wf_map_mdel [go_map, intro]: "wf_map m \<Longrightarrow> wf_map (mdel m k)"
  by (simp add: wf_map_def distinct_delete)

lemma wf_map_Nil [go_map, simp]: "wf_map []"
  by (simp add: wf_map_def)

lemma wf_map_Cons [go_map]: "wf_map ((k, v) # m) \<longleftrightarrow> k \<notin> set (map fst m) \<and> wf_map m"
  by (simp add: wf_map_def)

lemma mstr_mput [go_map, simp]: "mstr (mput m k v) k' = (if k' = k then v else mstr m k')"
  by (simp add: mstr_def)

lemma fst_set_mput [go_map]: "fst ` set (mput m k v) = insert k (fst ` set m)"
  by (induction m) auto

text \<open>A loop \<open>for k, v := range src { dst[k] = v }\<close>.\<close>

fun mput_all :: "('k, 'v) gomap \<Rightarrow> ('k \<times> 'v) list \<Rightarrow> ('k, 'v) gomap" where
  "mput_all m [] = m"
| "mput_all m ((k, v) # kvs) = mput_all (mput m k v) kvs"

lemma mget_mput_all_notin [go_map]:
  "k \<notin> fst ` set kvs \<Longrightarrow> mget (mput_all m kvs) k = mget m k"
  by (induction m kvs rule: mput_all.induct) auto

lemma mget_mput_all [go_map]:
  "wf_map kvs \<Longrightarrow>
    mget (mput_all m kvs) k = (case mget kvs k of Some v \<Rightarrow> Some v | None \<Rightarrow> mget m k)"
proof (induction m kvs rule: mput_all.induct)
  case (2 m k' v kvs)
  then show ?case
    by (auto simp: wf_map_Cons mget_mput_all_notin split: option.splits)
qed simp

lemma wf_map_mput_all [go_map, intro]: "wf_map m \<Longrightarrow> wf_map (mput_all m kvs)"
  by (induction m kvs rule: mput_all.induct) auto

subsection \<open>Prefixes, suffixes, search\<close>

text \<open>\<open>strings.HasPrefix\<close>, \<open>strings.TrimPrefix\<close>, \<open>strings.HasSuffix\<close>.\<close>

fun has_prefix :: "string \<Rightarrow> string \<Rightarrow> bool" where
  "has_prefix s [] = True"
| "has_prefix [] (p # ps) = False"
| "has_prefix (c # s) (p # ps) = (c = p \<and> has_prefix s ps)"

definition trim_prefix :: "string \<Rightarrow> string \<Rightarrow> string" where
  "trim_prefix s p = (if has_prefix s p then drop (length p) s else s)"

definition has_suffix :: "string \<Rightarrow> string \<Rightarrow> bool" where
  "has_suffix s p = has_prefix (rev s) (rev p)"

lemma has_prefix_append [go_string, simp]: "has_prefix (p @ s) p"
  by (induction p) auto

lemma has_prefix_iff [go_string]: "has_prefix s p \<longleftrightarrow> (\<exists>t. s = p @ t)"
  by (induction s p rule: has_prefix.induct) auto

lemma trim_prefix_append [go_string, simp]: "trim_prefix (p @ s) p = s"
  by (simp add: trim_prefix_def)

lemma has_suffix_iff [go_string]: "has_suffix s p \<longleftrightarrow> (\<exists>t. s = t @ p)"
  unfolding has_suffix_def has_prefix_iff
  by (metis rev_append rev_rev_ident)

text \<open>\<open>strings.Index\<close>: the first position, \<open>None\<close> for the result -1.\<close>

fun index_of :: "string \<Rightarrow> string \<Rightarrow> nat option" where
  "index_of [] p = (if p = [] then Some 0 else None)"
| "index_of (c # s) p =
     (if has_prefix (c # s) p then Some 0 else map_option Suc (index_of s p))"

definition contains :: "string \<Rightarrow> string \<Rightarrow> bool" where
  "contains s p = (index_of s p \<noteq> None)"

lemma index_of_split [go_string]:
  "index_of s p = Some i \<Longrightarrow> \<exists>t. s = take i s @ p @ t \<and> i \<le> length s"
proof (induction s p arbitrary: i rule: index_of.induct)
  case (1 p)
  then show ?case by (auto split: if_splits)
next
  case (2 c s p)
  then show ?case
    by (auto simp: has_prefix_iff split: if_splits)
qed

lemma index_of_prefix [go_string]: "has_prefix s p \<Longrightarrow> index_of s p = Some 0"
  by (cases s; cases p) auto

lemma contains_iff [go_string]: "contains s p \<longleftrightarrow> (\<exists>a b. s = a @ p @ b)"
proof
  assume "contains s p"
  then show "\<exists>a b. s = a @ p @ b"
    unfolding contains_def using index_of_split by blast
next
  assume "\<exists>a b. s = a @ p @ b"
  then obtain a b where "s = a @ p @ b" by blast
  then show "contains s p"
  proof (induction a arbitrary: s)
    case Nil
    then have "has_prefix s p" by simp
    then show ?case by (simp add: contains_def index_of_prefix)
  qed (auto simp: contains_def)
qed

text \<open>\<open>strings.LastIndexByte\<close> (and \<open>strings.LastIndex\<close> of a one-byte string).\<close>

fun last_index_byte :: "string \<Rightarrow> char \<Rightarrow> nat option" where
  "last_index_byte [] b = None"
| "last_index_byte (c # s) b =
     (case last_index_byte s b of
        Some i \<Rightarrow> Some (Suc i)
      | None \<Rightarrow> if c = b then Some 0 else None)"

lemma last_index_byte_None [go_string]: "last_index_byte s b = None \<longleftrightarrow> b \<notin> set s"
  by (induction s) (auto split: option.splits)

lemma last_index_byte_append [go_string, simp]:
  "b \<notin> set t \<Longrightarrow> last_index_byte (s @ b # t) b = Some (length s)"
  by (induction s) (auto simp: last_index_byte_None split: option.splits)

lemma last_index_byte_Some [go_string]:
  "last_index_byte s b = Some i \<Longrightarrow> i < length s \<and> s ! i = b \<and> b \<notin> set (drop (Suc i) s)"
  by (induction s arbitrary: i) (auto simp: last_index_byte_None split: option.splits if_splits)

subsection \<open>Splitting and joining\<close>

text \<open>\<open>strings.Join\<close> and \<open>strings.Split\<close> at a one-byte separator.\<close>

fun join :: "string \<Rightarrow> string list \<Rightarrow> string" where
  "join sep [] = []"
| "join sep [s] = s"
| "join sep (s # t # ss) = s @ sep @ join sep (t # ss)"

fun split_byte :: "char \<Rightarrow> string \<Rightarrow> string list" where
  "split_byte b [] = [[]]"
| "split_byte b (c # s) =
     (if c = b then [] # split_byte b s
      else (case split_byte b s of w # ws \<Rightarrow> (c # w) # ws | [] \<Rightarrow> [[c]]))"

text \<open>\<open>strings.SplitN(s, sep, 2)\<close> at a one-byte separator.\<close>

definition split2 :: "char \<Rightarrow> string \<Rightarrow> string list" where
  "split2 b s =
     (if b \<in> set s then [takeWhile (\<lambda>c. c \<noteq> b) s, tl (dropWhile (\<lambda>c. c \<noteq> b) s)] else [s])"

lemma split_byte_nonempty [go_string, simp]: "split_byte b s \<noteq> []"
  by (induction s) (auto split: list.splits)

lemma split_byte_notin [go_string]: "b \<notin> set s \<Longrightarrow> split_byte b s = [s]"
  by (induction s) auto

lemma split_byte_append [go_string]:
  "b \<notin> set s \<Longrightarrow> split_byte b (s @ b # t) = s # split_byte b t"
  by (induction s) auto

lemma split_byte_join [go_string]:
  "ss \<noteq> [] \<Longrightarrow> \<forall>s \<in> set ss. b \<notin> set s \<Longrightarrow> split_byte b (join [b] ss) = ss"
  by (induction "[b]" ss rule: join.induct) (auto simp: split_byte_notin split_byte_append)

lemma split2_append [go_string]: "b \<notin> set k \<Longrightarrow> split2 b (k @ b # v) = [k, v]"
  by (induction k) (auto simp: split2_def)

subsection \<open>White space\<close>

text \<open>
  The UTF-8 encodings of the characters for which \<open>unicode.IsSpace\<close> holds. A leading
  byte of one of them never occurs inside another character, so testing for an encoding at
  each byte position is what Go's rune-wise functions do.
\<close>

definition space_seqs :: "string list" where
  "space_seqs =
     [[CHR '' ''], [CHR 0x09], [CHR 0x0A], [CHR 0x0B], [CHR 0x0C], [CHR 0x0D],
      [CHR 0xC2, CHR 0x85], [CHR 0xC2, CHR 0xA0], [CHR 0xE1, CHR 0x9A, CHR 0x80],
      [CHR 0xE2, CHR 0x80, CHR 0x80], [CHR 0xE2, CHR 0x80, CHR 0x81],
      [CHR 0xE2, CHR 0x80, CHR 0x82], [CHR 0xE2, CHR 0x80, CHR 0x83],
      [CHR 0xE2, CHR 0x80, CHR 0x84], [CHR 0xE2, CHR 0x80, CHR 0x85],
      [CHR 0xE2, CHR 0x80, CHR 0x86], [CHR 0xE2, CHR 0x80, CHR 0x87],
      [CHR 0xE2, CHR 0x80, CHR 0x88], [CHR 0xE2, CHR 0x80, CHR 0x89],
      [CHR 0xE2, CHR 0x80, CHR 0x8A], [CHR 0xE2, CHR 0x80, CHR 0xA8],
      [CHR 0xE2, CHR 0x80, CHR 0xA9], [CHR 0xE2, CHR 0x80, CHR 0xAF],
      [CHR 0xE2, CHR 0x81, CHR 0x9F], [CHR 0xE3, CHR 0x80, CHR 0x80]]"

definition lead_seq :: "string list \<Rightarrow> string \<Rightarrow> nat option" where
  "lead_seq qs s = map_option length (find (\<lambda>q. q \<noteq> [] \<and> has_prefix s q) qs)"

lemma lead_seq_bounds: "lead_seq qs s = Some n \<Longrightarrow> 0 < n \<and> n \<le> length s"
  by (auto simp: lead_seq_def find_Some_iff has_prefix_iff)

function trim_lead :: "string list \<Rightarrow> string \<Rightarrow> string" where
  "trim_lead qs s = (case lead_seq qs s of Some n \<Rightarrow> trim_lead qs (drop n s) | None \<Rightarrow> s)"
  by pat_completeness auto
termination
  by (relation "measure (\<lambda>(qs, s). length s)") (auto dest: lead_seq_bounds)

declare trim_lead.simps [simp del]

text \<open>\<open>strings.TrimSpace\<close>.\<close>

definition trim_space :: "string \<Rightarrow> string" where
  "trim_space s = rev (trim_lead (map rev space_seqs) (rev (trim_lead space_seqs s)))"

text \<open>\<open>strings.Fields\<close>: the maximal runs without white space.\<close>

function fields_go :: "string \<Rightarrow> string \<Rightarrow> string list" where
  "fields_go cur [] = (if cur = [] then [] else [cur])"
| "fields_go cur (c # cs) =
     (case lead_seq space_seqs (c # cs) of
        Some n \<Rightarrow> (if cur = [] then [] else [cur]) @ fields_go [] (drop n (c # cs))
      | None \<Rightarrow> fields_go (cur @ [c]) cs)"
  by pat_completeness auto
termination
  by (relation "measure (\<lambda>(cur, s). length s)") (auto dest: lead_seq_bounds)

definition fields :: "string \<Rightarrow> string list" where
  "fields s = fields_go [] s"

definition plain_char :: "char \<Rightarrow> bool" where
  "plain_char c \<longleftrightarrow> 0x20 < (of_char c :: nat) \<and> (of_char c :: nat) < 0x80"

text \<open>A word of visible ASCII characters, such as the kernel writes into \<open>/proc\<close>.\<close>

definition plain_word :: "string \<Rightarrow> bool" where
  "plain_word s \<longleftrightarrow> s \<noteq> [] \<and> (\<forall>c \<in> set s. plain_char c)"

lemma space_seqs_hd: "list_all (\<lambda>q. \<not> plain_char (hd q)) space_seqs"
  by (simp add: space_seqs_def plain_char_def)

lemma lead_seq_plain [go_string]: "plain_char c \<Longrightarrow> lead_seq space_seqs (c # cs) = None"
proof -
  assume c: "plain_char c"
  have "\<not> (q \<noteq> [] \<and> has_prefix (c # cs) q)" if "q \<in> set space_seqs" for q
  proof
    assume "q \<noteq> [] \<and> has_prefix (c # cs) q"
    then have "hd q = c" by (cases q) auto
    with that c space_seqs_hd show False by (auto simp: list_all_iff)
  qed
  then have "find (\<lambda>q. q \<noteq> [] \<and> has_prefix (c # cs) q) space_seqs = None"
    by (simp only: find_None_iff) blast
  then show ?thesis by (simp add: lead_seq_def)
qed

lemma lead_seq_blank [go_string]: "lead_seq space_seqs (CHR '' '' # cs) = Some 1"
  by (simp add: lead_seq_def space_seqs_def)

lemma fields_go_plain:
  "\<forall>c \<in> set w. plain_char c \<Longrightarrow> fields_go cur (w @ s) = fields_go (cur @ w) s"
  by (induction w arbitrary: cur) (auto simp: lead_seq_plain)

lemma fields_go_join:
  "\<forall>w \<in> set ws. plain_word w \<Longrightarrow> fields_go [] (join '' '' ws) = ws"
proof (induction "'' ''" ws rule: join.induct)
  case (2 s)
  then show ?case
    using fields_go_plain [of s "[]" "[]"] by (simp add: plain_word_def)
next
  case (3 s t ss)
  have "fields_go [] (join '' '' (s # t # ss)) = fields_go s ('' '' @ join '' '' (t # ss))"
    using 3 fields_go_plain [of s "[]" "'' '' @ join '' '' (t # ss)"]
    by (simp add: plain_word_def)
  also have "\<dots> = s # fields_go [] (join '' '' (t # ss))"
    using 3 by (simp add: lead_seq_blank plain_word_def)
  finally show ?case using 3 by simp
qed simp

lemma fields_join [go_string]:
  "\<forall>w \<in> set ws. plain_word w \<Longrightarrow> fields (join '' '' ws) = ws"
  by (simp add: fields_def fields_go_join)

lemma fields_blank [go_string]: "fields (CHR '' '' # s) = fields s"
  by (simp add: fields_def lead_seq_blank)

text \<open>\<open>bytes.Trim\<close> with a set of ASCII bytes.\<close>

definition trim_set :: "char list \<Rightarrow> string \<Rightarrow> string" where
  "trim_set cs s =
     rev (dropWhile (\<lambda>c. c \<in> set cs) (rev (dropWhile (\<lambda>c. c \<in> set cs) s)))"

text \<open>\<open>strings.TrimRight\<close> with a set of ASCII bytes.\<close>

definition trim_right :: "char list \<Rightarrow> string \<Rightarrow> string" where
  "trim_right cs s = rev (dropWhile (\<lambda>c. c \<in> set cs) (rev s))"

subsection \<open>Letter case\<close>

definition lower_char :: "char \<Rightarrow> char" where
  "lower_char c =
     (if (65::nat) \<le> of_char c \<and> of_char c \<le> (90::nat) then char_of (of_char c + (32::nat)) else c)"

text \<open>
  \<open>strings.ToLower\<close>. Two characters outside ASCII have an ASCII lower-case form: U+0130
  (bytes C4 B0) becomes i and U+212A (bytes E2 84 AA) becomes k. All others stay outside
  ASCII; they are kept as they are here, which is exact for the comparisons with ASCII
  literals that the code makes.
\<close>

fun to_lower :: "string \<Rightarrow> string" where
  "to_lower [] = []"
| "to_lower (c # s) =
     (if c = CHR 0xC4 \<and> s \<noteq> [] \<and> hd s = CHR 0xB0 then CHR ''i'' # to_lower (tl s)
      else if c = CHR 0xE2 \<and> has_prefix s [CHR 0x84, CHR 0xAA]
        then CHR ''k'' # to_lower (drop 2 s)
      else lower_char c # to_lower s)"

text \<open>\<open>strings.ReplaceAll\<close> of one byte by another.\<close>

definition replace_byte :: "char \<Rightarrow> char \<Rightarrow> string \<Rightarrow> string" where
  "replace_byte a b s = map (\<lambda>c. if c = a then b else c) s"

subsection \<open>Numbers\<close>

definition is_digit :: "char \<Rightarrow> bool" where
  "is_digit c \<longleftrightarrow> (48::nat) \<le> of_char c \<and> of_char c \<le> (57::nat)"

definition digit_val :: "char \<Rightarrow> nat" where
  "digit_val c = of_char c - 48"

fun nat_of_digits :: "nat \<Rightarrow> string \<Rightarrow> nat" where
  "nat_of_digits acc [] = acc"
| "nat_of_digits acc (c # cs) = nat_of_digits (10 * acc + digit_val c) cs"

text \<open>
  The result of \<open>strconv.ParseInt(s, 10, bits)\<close>: a value, a syntax error (with the value
  0), or a range error (with the nearest value of the width). \<open>strconv.Atoi\<close> is
  \<open>ParseInt(s, 10, 64)\<close> on the platforms the program supports.
\<close>

datatype parsed_int = NumOk int | NumSyntax | NumRange int

definition clamp_int :: "nat \<Rightarrow> int \<Rightarrow> parsed_int" where
  "clamp_int bits n =
     (if n \<ge> 2 ^ (bits - 1) then NumRange (2 ^ (bits - 1) - 1)
      else if n < - (2 ^ (bits - 1)) then NumRange (- (2 ^ (bits - 1)))
      else NumOk n)"

definition parse_int :: "nat \<Rightarrow> string \<Rightarrow> parsed_int" where
  "parse_int bits s =
     (let neg = (s \<noteq> [] \<and> hd s = CHR ''-'');
          ds = (if s \<noteq> [] \<and> (hd s = CHR ''-'' \<or> hd s = CHR ''+'') then tl s else s)
      in if ds = [] \<or> \<not> list_all is_digit ds then NumSyntax
         else clamp_int bits (if neg then - int (nat_of_digits 0 ds) else int (nat_of_digits 0 ds)))"

fun int_value :: "parsed_int \<Rightarrow> int" where
  "int_value (NumOk n) = n"
| "int_value NumSyntax = 0"
| "int_value (NumRange n) = n"

text \<open>\<open>strconv.Itoa\<close>.\<close>

fun digits_of :: "nat \<Rightarrow> string" where
  "digits_of n = (if n < 10 then [char_of (48 + n)] else digits_of (n div 10) @ [char_of (48 + n mod 10)])"

declare digits_of.simps [simp del]

definition itoa :: "int \<Rightarrow> string" where
  "itoa n = (if n < 0 then CHR ''-'' # digits_of (nat (- n)) else digits_of (nat n))"

lemma digit_char [go_string, simp]:
  "d < 10 \<Longrightarrow> is_digit (char_of (48 + d))" "d < 10 \<Longrightarrow> digit_val (char_of (48 + d)) = d"
  by (simp_all add: is_digit_def digit_val_def of_char_of)

lemma digits_of_nonempty [go_string, simp]: "digits_of n \<noteq> []"
  by (subst digits_of.simps) simp

lemma digits_of_digit [go_string]: "list_all is_digit (digits_of n)"
proof (induction n rule: digits_of.induct)
  case (1 n)
  then show ?case by (subst digits_of.simps) simp
qed

lemma nat_of_digits_append [go_string]:
  "nat_of_digits acc (xs @ ys) = nat_of_digits (nat_of_digits acc xs) ys"
  by (induction acc xs rule: nat_of_digits.induct) auto

lemma nat_of_digits_of [go_string]: "nat_of_digits 0 (digits_of n) = n"
proof (induction n rule: digits_of.induct)
  case (1 n)
  then show ?case by (subst digits_of.simps) (simp add: nat_of_digits_append)
qed

lemma hd_digits_of [go_string]: "is_digit (hd (digits_of n))"
  using digits_of_digit [of n] by (cases "digits_of n") auto

lemma parse_int_itoa [go_string]:
  assumes "- (2 ^ (bits - 1)) \<le> n" and "n < 2 ^ (bits - 1)"
  shows "parse_int bits (itoa n) = NumOk n"
proof -
  have hd: "hd (digits_of (nat n)) \<noteq> CHR ''-''" "hd (digits_of (nat n)) \<noteq> CHR ''+''"
    using hd_digits_of [of "nat n"] by (auto simp: is_digit_def)
  show ?thesis
    using assms hd
    by (auto simp: parse_int_def itoa_def clamp_int_def digits_of_digit nat_of_digits_of)
qed

lemma plain_digit [go_string]: "is_digit c \<Longrightarrow> plain_char c"
  by (simp add: is_digit_def plain_char_def)

lemma plain_word_itoa [go_string]: "plain_word (itoa n)"
  using digits_of_digit [of "nat n"] digits_of_digit [of "nat (- n)"]
  by (auto simp: plain_word_def itoa_def list_all_iff plain_char_def is_digit_def)

text \<open>Two's complement wrap-around of a 64-bit signed result.\<close>

definition wrap64 :: "int \<Rightarrow> int" where
  "wrap64 n = sint (word_of_int n :: 64 word)"

lemma wrap64_id [go_string]: "- (2 ^ 63) \<le> n \<Longrightarrow> n < 2 ^ 63 \<Longrightarrow> wrap64 n = n"
  by (simp add: wrap64_def sint_word_ariths signed_take_bit_int_eq_self sint_sbintrunc')

subsection \<open>Errors\<close>

text \<open>A call whose error the caller returns.\<close>

definition and_then :: "'e + 'a \<Rightarrow> ('a \<Rightarrow> 'e + 'b) \<Rightarrow> 'e + 'b" where
  "and_then r f = (case r of Inl e \<Rightarrow> Inl e | Inr x \<Rightarrow> f x)"

named_theorems go_error \<comment> \<open>facts on \<^const>\<open>and_then\<close>\<close>

lemma and_then_simps [go_error, simp]: "and_then (Inl e) f = Inl e" "and_then (Inr x) f = f x"
  by (simp_all add: and_then_def)

lemma and_then_Inr [go_error]: "and_then r f = Inr y \<longleftrightarrow> (\<exists>x. r = Inr x \<and> f x = Inr y)"
  by (cases r) simp_all

lemma and_then_Inl [go_error]: "and_then r f = Inl e \<longleftrightarrow> r = Inl e \<or> (\<exists>x. r = Inr x \<and> f x = Inl e)"
  by (cases r) simp_all

end
