(* ===== verification/Semver.thy ===== *)
theory Semver
  imports Prelude
begin

text \<open>
  Semantic versions (vendor/golang.org/x/mod/semver/semver.go): parsing, validity and
  precedence, and the contract of a version order that the process scanner and the clean-up
  of old SDK directories rely on.

  The comparison of the package walks two pre-release strings identifier by identifier. It
  is shown to be the three-way comparison of a key in a linear order, from which
  antisymmetry and transitivity follow.
\<close>

record version =
  major :: string
  minor :: string
  patch :: string
  short :: string
  prerelease :: string
  build :: string

definition is_ident_char :: "char \<Rightarrow> bool" where
  "is_ident_char c \<longleftrightarrow>
     (CHR ''A'' \<le> c \<and> c \<le> CHR ''Z'') \<or> (CHR ''a'' \<le> c \<and> c \<le> CHR ''z'') \<or>
     (CHR ''0'' \<le> c \<and> c \<le> CHR ''9'') \<or> c = CHR ''-''"

definition is_bad_num :: "string \<Rightarrow> bool" where
  "is_bad_num v \<longleftrightarrow> list_all is_digit v \<and> length v > 1 \<and> hd v = CHR ''0''"

definition is_num :: "string \<Rightarrow> bool" where
  "is_num v \<longleftrightarrow> list_all is_digit v"

definition parse_num :: "string \<Rightarrow> (string \<times> string) option" where
  "parse_num v =
     (if v = [] \<or> \<not> is_digit (hd v) then None
      else (let t = takeWhile is_digit v
            in if hd v = CHR ''0'' \<and> length t \<noteq> 1 then None
               else Some (t, dropWhile is_digit v)))"

text \<open>
  The loop of \<open>parsePrerelease\<close>: \<open>seg\<close> is the identifier being read (\<open>v[start:i]\<close>), \<open>acc\<close>
  everything read so far (\<open>v[:i]\<close>).
\<close>

fun parse_prerelease_loop :: "string \<Rightarrow> string \<Rightarrow> string \<Rightarrow> (string \<times> string) option" where
  "parse_prerelease_loop seg acc [] =
     (if seg = [] \<or> is_bad_num seg then None else Some (acc, []))"
| "parse_prerelease_loop seg acc (c # cs) =
     (if c = CHR ''+'' then
        (if seg = [] \<or> is_bad_num seg then None else Some (acc, c # cs))
      else if \<not> is_ident_char c \<and> c \<noteq> CHR ''.'' then None
      else if c = CHR ''.'' then
        (if seg = [] \<or> is_bad_num seg then None else parse_prerelease_loop [] (acc @ [c]) cs)
      else parse_prerelease_loop (seg @ [c]) (acc @ [c]) cs)"

fun parse_prerelease :: "string \<Rightarrow> (string \<times> string) option" where
  "parse_prerelease [] = None"
| "parse_prerelease (c # cs) =
     (if c \<noteq> CHR ''-'' then None else parse_prerelease_loop [] [c] cs)"

fun parse_build_loop :: "string \<Rightarrow> string \<Rightarrow> string \<Rightarrow> (string \<times> string) option" where
  "parse_build_loop seg acc [] = (if seg = [] then None else Some (acc, []))"
| "parse_build_loop seg acc (c # cs) =
     (if \<not> is_ident_char c \<and> c \<noteq> CHR ''.'' then None
      else if c = CHR ''.'' then
        (if seg = [] then None else parse_build_loop [] (acc @ [c]) cs)
      else parse_build_loop (seg @ [c]) (acc @ [c]) cs)"

fun parse_build :: "string \<Rightarrow> (string \<times> string) option" where
  "parse_build [] = None"
| "parse_build (c # cs) = (if c \<noteq> CHR ''+'' then None else parse_build_loop [] [c] cs)"

text \<open>The three optional steps after the numbers, each only where its mark is next.\<close>

definition parse_suffix :: "string \<Rightarrow> (string \<times> string) option" where
  "parse_suffix v =
     (case (if v \<noteq> [] \<and> hd v = CHR ''-'' then parse_prerelease v else Some ([], v)) of
        None \<Rightarrow> None
      | Some (pre, v') \<Rightarrow>
          (case (if v' \<noteq> [] \<and> hd v' = CHR ''+'' then parse_build v' else Some ([], v')) of
             None \<Rightarrow> None
           | Some (bld, v'') \<Rightarrow> if v'' \<noteq> [] then None else Some (pre, bld)))"

definition semver_parse :: "string \<Rightarrow> version option" where
  "semver_parse v =
     (if v = [] \<or> hd v \<noteq> CHR ''v'' then None else
      case parse_num (tl v) of None \<Rightarrow> None | Some (maj, v1) \<Rightarrow>
      if v1 = [] then Some \<lparr>major = maj, minor = ''0'', patch = ''0'', short = ''.0.0'',
                           prerelease = [], build = []\<rparr> else
      if hd v1 \<noteq> CHR ''.'' then None else
      case parse_num (tl v1) of None \<Rightarrow> None | Some (mnr, v2) \<Rightarrow>
      if v2 = [] then Some \<lparr>major = maj, minor = mnr, patch = ''0'', short = ''.0'',
                           prerelease = [], build = []\<rparr> else
      if hd v2 \<noteq> CHR ''.'' then None else
      case parse_num (tl v2) of None \<Rightarrow> None | Some (pat, v3) \<Rightarrow>
      case parse_suffix v3 of None \<Rightarrow> None | Some (pre, bld) \<Rightarrow>
      Some \<lparr>major = maj, minor = mnr, patch = pat, short = [], prerelease = pre, build = bld\<rparr>)"

definition semver_is_valid :: "string \<Rightarrow> bool" where
  "semver_is_valid v \<longleftrightarrow> semver_parse v \<noteq> None"

definition compare_int :: "string \<Rightarrow> string \<Rightarrow> int" where
  "compare_int x y =
     (if x = y then 0
      else if length x < length y then -1
      else if length x > length y then 1
      else if x < y then -1 else 1)"

definition next_ident :: "string \<Rightarrow> string \<times> string" where
  "next_ident x = (takeWhile (\<lambda>c. c \<noteq> CHR ''.'') x, dropWhile (\<lambda>c. c \<noteq> CHR ''.'') x)"

function compare_idents :: "string \<Rightarrow> string \<Rightarrow> int" where
  "compare_idents x y =
     (if x \<noteq> [] \<and> y \<noteq> [] then
        (let (dx, x') = next_ident (tl x); (dy, y') = next_ident (tl y)
         in if dx \<noteq> dy then
              (if is_num dx \<noteq> is_num dy then (if is_num dx then -1 else 1)
               else if is_num dx \<and> length dx < length dy then -1
               else if is_num dx \<and> length dx > length dy then 1
               else if dx < dy then -1 else 1)
            else compare_idents x' y')
      else if x = [] then -1 else 1)"
  by pat_completeness auto
termination
proof (relation "measure (\<lambda>(x, y). length x)", goal_cases)
  case (2 x y p dx x' q dy y')
  then have "x' = dropWhile (\<lambda>c. c \<noteq> CHR ''.'') (tl x)" by (simp add: next_ident_def)
  then have "length x' \<le> length x - 1" by (metis length_dropWhile_le length_tl)
  with 2 show ?case by (cases x) auto
qed simp

declare compare_idents.simps [simp del]

lemma compare_idents_Nil:
  "y \<noteq> [] \<Longrightarrow> compare_idents [] y = -1" "x \<noteq> [] \<Longrightarrow> compare_idents x [] = 1"
  by (subst compare_idents.simps; simp)+

definition compare_prerelease :: "string \<Rightarrow> string \<Rightarrow> int" where
  "compare_prerelease x y =
     (if x = y then 0 else if x = [] then 1 else if y = [] then -1 else compare_idents x y)"

definition semver_compare :: "string \<Rightarrow> string \<Rightarrow> int" where
  "semver_compare v w =
     (case (semver_parse v, semver_parse w) of
        (None, None) \<Rightarrow> 0
      | (None, Some _) \<Rightarrow> -1
      | (Some _, None) \<Rightarrow> 1
      | (Some pv, Some pw) \<Rightarrow>
          if compare_int (major pv) (major pw) \<noteq> 0 then compare_int (major pv) (major pw)
          else if compare_int (minor pv) (minor pw) \<noteq> 0 then compare_int (minor pv) (minor pw)
          else if compare_int (patch pv) (patch pw) \<noteq> 0 then compare_int (patch pv) (patch pw)
          else compare_prerelease (prerelease pv) (prerelease pw))"

subsection \<open>The key of a version\<close>

text \<open>
  A pre-release identifier: numeric ones come before the others and are compared by length
  first, the others as byte strings.
\<close>

datatype ident = Numeric string | Alnum string

instantiation ident :: linorder
begin

definition less_eq_ident :: "ident \<Rightarrow> ident \<Rightarrow> bool" where
  "less_eq_ident a b =
     (case (a, b) of
        (Numeric x, Numeric y) \<Rightarrow> (length x, x) \<le> (length y, y)
      | (Numeric _, Alnum _) \<Rightarrow> True
      | (Alnum _, Numeric _) \<Rightarrow> False
      | (Alnum x, Alnum y) \<Rightarrow> x \<le> y)"

definition less_ident :: "ident \<Rightarrow> ident \<Rightarrow> bool" where
  "less_ident a b \<longleftrightarrow> a \<le> b \<and> \<not> b \<le> (a :: ident)"

instance
proof
  fix x y z :: ident
  show "x < y \<longleftrightarrow> x \<le> y \<and> \<not> y \<le> x" by (rule less_ident_def)
  show "x \<le> x" by (simp add: less_eq_ident_def split: ident.split)
  show "x \<le> y \<Longrightarrow> y \<le> z \<Longrightarrow> x \<le> z"
    by (cases x; cases y; cases z) (auto simp: less_eq_ident_def)
  show "x \<le> y \<Longrightarrow> y \<le> x \<Longrightarrow> x = y"
    by (cases x; cases y) (auto simp: less_eq_ident_def)
  show "x \<le> y \<or> y \<le> x"
    by (cases x; cases y) (auto simp: less_eq_ident_def)
qed

end

definition ident_of :: "string \<Rightarrow> ident" where
  "ident_of s = (if is_num s then Numeric s else Alnum s)"

function idents :: "string \<Rightarrow> ident list" where
  "idents x =
     (if x = [] then []
      else (let (d, x') = next_ident (tl x) in ident_of d # idents x'))"
  by pat_completeness auto
termination
proof (relation "measure length", goal_cases)
  case (2 x p d x')
  then have "x' = dropWhile (\<lambda>c. c \<noteq> CHR ''.'') (tl x)" by (simp add: next_ident_def)
  then have "length x' \<le> length x - 1" by (metis length_dropWhile_le length_tl)
  with 2 show ?case by (cases x) auto
qed simp

declare idents.simps [simp del]

lemma idents_eq_Nil [simp]: "idents x = [] \<longleftrightarrow> x = []"
  by (subst idents.simps) (auto simp: next_ident_def)

text \<open>The three-way comparison of a linear order.\<close>

definition cmp3 :: "'a::linorder \<Rightarrow> 'a \<Rightarrow> int" where
  "cmp3 a b = (if a = b then 0 else if a < b then -1 else 1)"

lemma cmp3_swap: "cmp3 b a = - cmp3 a b"
  by (auto simp: cmp3_def)

lemma cmp3_le: "cmp3 a b \<le> 0 \<longleftrightarrow> a \<le> b"
  by (auto simp: cmp3_def)

lemma cmp3_pair:
  "cmp3 (a, b) (a', b') = (if cmp3 a a' \<noteq> 0 then cmp3 a a' else cmp3 b b')"
  by (auto simp: cmp3_def)

type_synonym vkey =
  "(nat \<times> string) \<times> (nat \<times> string) \<times> (nat \<times> string) \<times> bool \<times> ident list"

definition num_key :: "string \<Rightarrow> nat \<times> string" where
  "num_key s = (length s, s)"

definition version_key :: "version \<Rightarrow> vkey" where
  "version_key p =
     (num_key (major p), num_key (minor p), num_key (patch p), prerelease p = [], idents (prerelease p))"

lemma compare_int_key: "compare_int x y = cmp3 (num_key x) (num_key y)"
  by (auto simp: compare_int_def cmp3_def num_key_def)

lemma less_ident_of:
  "ident_of x < ident_of y \<longleftrightarrow>
     (if is_num x \<noteq> is_num y then is_num x
      else if is_num x then length x < length y \<or> (length x = length y \<and> x < y)
      else x < y)"
  by (auto simp: less_ident_def less_eq_ident_def ident_of_def)

lemma ident_of_inj [simp]: "ident_of x = ident_of y \<longleftrightarrow> x = y"
  by (auto simp: ident_of_def)

lemma cmp3_Cons:
  "cmp3 (a # as) (b # bs) = (if a = b then cmp3 as bs else if a < b then -1 else 1)"
  by (auto simp: cmp3_def)

lemma idents_Nil [simp]: "idents [] = []"
  by simp

lemma cmp3_Nil: "as \<noteq> [] \<Longrightarrow> cmp3 [] as = -1" "as \<noteq> [] \<Longrightarrow> cmp3 as [] = 1"
  by (cases as; auto simp: cmp3_def)+

lemma compare_idents_key:
  "idents x \<noteq> idents y \<Longrightarrow> compare_idents x y = cmp3 (idents x) (idents y)"
proof (induction x y rule: compare_idents.induct)
  case (1 x y)
  show ?case
  proof (cases "x \<noteq> [] \<and> y \<noteq> []")
    case False
    with "1.prems" have "x = [] \<and> y \<noteq> [] \<or> x \<noteq> [] \<and> y = []" by auto
    then show ?thesis
      by (elim disjE) (simp_all add: compare_idents_Nil cmp3_Nil)
  next
    case True
    obtain dx x' where x': "next_ident (tl x) = (dx, x')" by fastforce
    obtain dy y' where y': "next_ident (tl y) = (dy, y')" by fastforce
    have ids: "idents x = ident_of dx # idents x'" "idents y = ident_of dy # idents y'"
      using True x' y' by (simp_all add: idents.simps [of x] idents.simps [of y])
    show ?thesis
    proof (cases "dx = dy")
      case True
      with \<open>x \<noteq> [] \<and> y \<noteq> []\<close> have "compare_idents x y = compare_idents x' y'"
        by (simp add: compare_idents.simps [of x y] x' y')
      also have "\<dots> = cmp3 (idents x') (idents y')"
        using "1.IH" [OF \<open>x \<noteq> [] \<and> y \<noteq> []\<close> refl x' [symmetric] refl y' [symmetric]]
          "1.prems" True ids by simp
      finally show ?thesis using True ids by (simp add: cmp3_Cons)
    next
      case False
      with \<open>x \<noteq> [] \<and> y \<noteq> []\<close> show ?thesis
        by (simp add: compare_idents.simps [of x y] x' y' ids cmp3_Cons less_ident_of)
    qed
  qed
qed

subsection \<open>Parsed pre-releases\<close>

lemma parse_prerelease_loop_acc:
  "parse_prerelease_loop seg acc s = Some (t, r) \<Longrightarrow> \<exists>u. t = acc @ u"
  by (induction seg acc s rule: parse_prerelease_loop.induct) (auto split: if_splits)

lemma parse_suffix_prerelease:
  "parse_suffix v = Some (pre, bld) \<Longrightarrow> pre = [] \<or> hd pre = CHR ''-''"
  by (cases v)
     (auto simp: parse_suffix_def dest!: parse_prerelease_loop_acc split: option.splits if_splits)

lemma parse_prerelease_hd:
  "semver_parse v = Some p \<Longrightarrow> prerelease p = [] \<or> hd (prerelease p) = CHR ''-''"
  by (auto simp: semver_parse_def split: option.splits if_splits)
     (use parse_suffix_prerelease in blast)

text \<open>Two pre-releases with the same first byte and the same identifiers are equal.\<close>

lemma idents_inj:
  "idents x = idents y \<Longrightarrow> x = [] \<or> y = [] \<or> hd x = hd y \<Longrightarrow> x = y"
proof (induction x arbitrary: y rule: idents.induct)
  case (1 x)
  show ?case
  proof (cases "x = [] \<or> y = []")
    case True
    with "1.prems"(1) have "x = [] \<and> y = []" using idents_eq_Nil [of x] idents_eq_Nil [of y] by auto
    then show ?thesis by simp
  next
    case False
    obtain dx x' where x': "next_ident (tl x) = (dx, x')" by fastforce
    obtain dy y' where y': "next_ident (tl y) = (dy, y')" by fastforce
    have eqs: "dx = dy" "idents x' = idents y'"
      using "1.prems" False x' y' by (simp_all add: idents.simps [of x] idents.simps [of y])
    have hds: "x' = [] \<or> y' = [] \<or> hd x' = hd y'"
      using x' y' hd_dropWhile [of "\<lambda>c. c \<noteq> CHR ''.''" "tl x"]
        hd_dropWhile [of "\<lambda>c. c \<noteq> CHR ''.''" "tl y"] by (auto simp: next_ident_def)
    have "x' = y'"
      using "1.IH" [OF _ x' [symmetric] refl eqs(2) hds] False by simp
    moreover have "tl x = dx @ x'" "tl y = dy @ y'"
      using x' y' by (auto simp: next_ident_def)
    ultimately have "tl x = tl y" using eqs(1) by simp
    with False "1.prems"(2) show ?thesis by (cases x; cases y) auto
  qed
qed

lemma compare_prerelease_key:
  assumes "x = [] \<or> hd x = CHR ''-''" and "y = [] \<or> hd y = CHR ''-''"
  shows "compare_prerelease x y = cmp3 (x = [], idents x) (y = [], idents y)"
proof (cases "x = y \<or> x = [] \<or> y = []")
  case True
  then show ?thesis by (auto simp: compare_prerelease_def cmp3_def)
next
  case False
  with assms have "idents x \<noteq> idents y" using idents_inj by metis
  with False show ?thesis
    by (simp add: compare_prerelease_def compare_idents_key cmp3_pair) (simp add: cmp3_def)
qed

theorem compare_key: "semver_compare v w = cmp3 (map_option version_key (semver_parse v)) (map_option version_key (semver_parse w))"
proof (cases "semver_parse v"; cases "semver_parse w")
  fix pv pw assume p: "semver_parse v = Some pv" "semver_parse w = Some pw"
  have "cmp3 (Some (version_key pv)) (Some (version_key pw)) = cmp3 (version_key pv) (version_key pw)"
    by (simp add: cmp3_def)
  with p show ?thesis
    by (simp add: semver_compare_def version_key_def cmp3_pair compare_int_key
        compare_prerelease_key [OF parse_prerelease_hd parse_prerelease_hd])
qed (auto simp: semver_compare_def cmp3_def)

subsection \<open>The contract of a version order\<close>

locale version_order =
  fixes cmp :: "'v \<Rightarrow> 'v \<Rightarrow> int"
  assumes cmp_swap: "cmp w v = - cmp v w"
    and cmp_trans: "cmp u v \<le> 0 \<Longrightarrow> cmp v w \<le> 0 \<Longrightarrow> cmp u w \<le> 0"
begin

lemma cmp_self: "cmp v v = 0"
  using cmp_swap [of v v] by simp

lemma cmp_not_less: "\<not> cmp v w < 0 \<longleftrightarrow> cmp w v \<le> 0"
  using cmp_swap [of w v] by linarith

text \<open>Keeping the smaller of the version seen and the oldest so far finds a lower bound.\<close>

lemma oldest_fold_start: "cmp (fold (\<lambda>v old. if cmp v old < 0 then v else old) vs old) old \<le> 0"
proof (induction vs arbitrary: old)
  case Nil
  then show ?case by (simp add: cmp_self)
next
  case (Cons v vs)
  then show ?case
    by (auto intro: cmp_trans [OF Cons.IH])
qed

lemma oldest_fold_le:
  "v \<in> set vs \<Longrightarrow> cmp (fold (\<lambda>v old. if cmp v old < 0 then v else old) vs old) v \<le> 0"
proof (induction vs arbitrary: old)
  case (Cons u vs)
  show ?case
  proof (cases "v \<in> set vs")
    case True
    with Cons.IH show ?thesis by simp
  next
    case False
    with Cons.prems have "v = u" by simp
    then have "cmp (if cmp u old < 0 then u else old) v \<le> 0"
      by (auto simp: cmp_self cmp_not_less)
    with oldest_fold_start show ?thesis by (simp only: fold_Cons comp_apply) (rule cmp_trans)
  qed
qed simp

lemma oldest_fold_mem:
  "fold (\<lambda>v old. if cmp v old < 0 then v else old) vs old \<in> insert old (set vs)"
  by (induction vs arbitrary: old) (auto split: if_splits)

end

interpretation semver: version_order semver_compare
proof
  show "semver_compare w v = - semver_compare v w" for v w
    by (simp only: compare_key cmp3_swap [symmetric])
  show "semver_compare u v \<le> 0 \<Longrightarrow> semver_compare v w \<le> 0 \<Longrightarrow> semver_compare u w \<le> 0" for u v w
    by (simp only: compare_key cmp3_le order_trans)
qed

lemma compare_valid: "semver_is_valid v \<Longrightarrow> \<not> semver_is_valid w \<Longrightarrow> semver_compare v w = 1"
  by (auto simp: semver_is_valid_def semver_compare_def split: option.splits)

lemma compare_le_valid: "semver_is_valid v \<Longrightarrow> semver_compare v w \<le> 0 \<Longrightarrow> semver_is_valid w"
  using compare_valid [of v w] by auto

subsection \<open>Released versions are ordered by their numbers\<close>

definition release :: "nat \<Rightarrow> nat \<Rightarrow> nat \<Rightarrow> string" where
  "release a b c = ''v'' @ digits_of a @ ''.'' @ digits_of b @ ''.'' @ digits_of c"

lemma list_less_append: "length xs = length ys \<Longrightarrow> (xs :: string) < ys \<Longrightarrow> xs @ us < ys @ vs"
proof (induction xs ys rule: list_induct2)
  case (Cons x xs y ys)
  then show ?case by auto
qed simp

lemma list_less_append_same: "(us :: string) < vs \<Longrightarrow> xs @ us < xs @ vs"
  by (induction xs) auto

lemma digits_num_key: "m < n \<Longrightarrow> num_key (digits_of m) < num_key (digits_of n)"
proof (induction n arbitrary: m rule: digits_of.induct)
  case (1 n)
  have n: "digits_of n = (if n < 10 then [char_of (48 + n)] else digits_of (n div 10) @ [char_of (48 + n mod 10)])"
    and m: "digits_of m = (if m < 10 then [char_of (48 + m)] else digits_of (m div 10) @ [char_of (48 + m mod 10)])"
    by (rule digits_of.simps)+
  have less: "(char_of (48 + a) :: char) < char_of (48 + b)" if "a < b" "b < 10" for a b :: nat
    using that by (simp add: less_char_def of_char_of)
  consider "n < 10" | "10 \<le> n" "m < 10" | "10 \<le> n" "10 \<le> m" "m div 10 = n div 10"
    | "10 \<le> n" "10 \<le> m" "m div 10 < n div 10"
    using 1(2) by (metis div_le_mono leI nat_less_le)
  then show ?case
  proof cases
    case 1
    then show ?thesis using less [of m n] \<open>m < n\<close> by (simp add: num_key_def m n)
  next
    case 2
    have "length (digits_of (n div 10)) > 0" by simp
    with 2 show ?thesis by (simp add: num_key_def m n del: length_greater_0_conv)
  next
    case 3
    then have "m mod 10 < n mod 10"
      using \<open>m < n\<close> by (metis add_less_cancel_left div_mult_mod_eq)
    with 3 less [of "m mod 10" "n mod 10"] show ?thesis
      by (simp add: num_key_def m n list_less_append_same)
  next
    case 4
    with 1(1) have "num_key (digits_of (m div 10)) < num_key (digits_of (n div 10))" by simp
    with 4 show ?thesis by (auto simp: num_key_def m n list_less_append)
  qed
qed

lemma cmp3_digits: "cmp3 (num_key (digits_of m)) (num_key (digits_of n)) = cmp3 m n"
  using digits_num_key [of m n] digits_num_key [of n m]
  by (cases m n rule: linorder_cases) (auto simp: cmp3_def)

lemma hd_digits_zero: "hd (digits_of n) = CHR ''0'' \<Longrightarrow> length (digits_of n) = 1"
proof (induction n rule: digits_of.induct)
  case (1 n)
  show ?case
  proof (cases "n < 10")
    case True
    then show ?thesis by (simp add: digits_of.simps)
  next
    case False
    then have eq: "digits_of n = digits_of (n div 10) @ [char_of (48 + n mod 10)]"
      by (subst digits_of.simps) simp
    with "1.prems" False "1.IH" have "length (digits_of (n div 10)) = 1" by simp
    moreover have "hd (digits_of (n div 10)) = CHR ''0''" using "1.prems" eq by simp
    ultimately have "digits_of (n div 10) = ''0''" by (cases "digits_of (n div 10)") auto
    then have "n div 10 = 0" using nat_of_digits_of [of "n div 10"] by (simp add: digit_val_def)
    with False show ?thesis by (simp add: div_eq_0_iff)
  qed
qed

lemma parse_num_digits:
  "s = [] \<or> \<not> is_digit (hd s) \<Longrightarrow> parse_num (digits_of n @ s) = Some (digits_of n, s)"
proof -
  assume s: "s = [] \<or> \<not> is_digit (hd s)"
  have all: "\<forall>c \<in> set (digits_of n). is_digit c"
    using digits_of_digit [of n] by (simp add: list_all_iff)
  have "takeWhile is_digit (digits_of n @ s) = digits_of n" "dropWhile is_digit (digits_of n @ s) = s"
    using s all by (cases s; simp)+
  then show ?thesis
    using hd_digits_zero [of n] hd_digits_of [of n] by (auto simp: parse_num_def Let_def)
qed

lemma parse_release:
  "semver_parse (release a b c) =
     Some \<lparr>major = digits_of a, minor = digits_of b, patch = digits_of c, short = [],
           prerelease = [], build = []\<rparr>"
  using parse_num_digits [of "''.'' @ digits_of b @ ''.'' @ digits_of c" a]
    parse_num_digits [of "''.'' @ digits_of c" b] parse_num_digits [of "[]" c]
  by (simp add: semver_parse_def release_def parse_suffix_def is_digit_def)

lemma compare_release: "semver_compare (release a b c) (release a' b' c') = cmp3 (a, b, c) (a', b', c')"
proof -
  have "semver_compare (release a b c) (release a' b' c') =
      cmp3 (num_key (digits_of a), num_key (digits_of b), num_key (digits_of c), True, [] :: ident list)
           (num_key (digits_of a'), num_key (digits_of b'), num_key (digits_of c'), True, [])"
    unfolding compare_key parse_release by (simp add: version_key_def) (simp add: cmp3_def)
  also have "\<dots> = cmp3 (a, b, c) (a', b', c')"
    unfolding cmp3_pair cmp3_digits by (simp add: cmp3_def)
  finally show ?thesis .
qed

lemma release_valid: "semver_is_valid (release a b c)"
  by (simp add: semver_is_valid_def parse_release)

subsection \<open>Properties\<close>

text \<open>
  C14: versions are compared by value. For released versions the comparison is the one of the
  three numbers, each as a number and not as text; and over all strings it is total,
  antisymmetric in sign and transitive, with every invalid string below every valid one.
\<close>

theorem versions_ordered:
  "semver_compare (release a b c) (release a' b' c') = cmp3 (a, b, c) (a', b', c')
   \<and> semver_compare w v = - semver_compare v w
   \<and> (semver_compare u v \<le> 0 \<longrightarrow> semver_compare v w \<le> 0 \<longrightarrow> semver_compare u w \<le> 0)
   \<and> (semver_is_valid v \<longrightarrow> \<not> semver_is_valid w \<longrightarrow> semver_compare v w = 1)"
proof (intro conjI impI)
  show "semver_compare (release a b c) (release a' b' c') = cmp3 (a, b, c) (a', b', c')"
    by (rule compare_release)
  show "semver_compare w v = - semver_compare v w" by (rule semver.cmp_swap)
  show "semver_compare u v \<le> 0 \<Longrightarrow> semver_compare v w \<le> 0 \<Longrightarrow> semver_compare u w \<le> 0"
    by (rule semver.cmp_trans)
  show "semver_is_valid v \<Longrightarrow> \<not> semver_is_valid w \<Longrightarrow> semver_compare v w = 1"
    by (rule compare_valid)
qed

theorem versions_ordered_witness:
  "semver_compare ''v1.9.0'' ''v1.10.0'' = -1 \<and> semver_compare ''v1.10.0'' ''1.10'' = 1"
proof -
  have r: "release 1 9 0 = ''v1.9.0''" "release 1 10 0 = ''v1.10.0''" by code_simp+
  have v: "semver_is_valid ''v1.10.0''" "\<not> semver_is_valid ''1.10''" by code_simp+
  note ordered = versions_ordered [of 1 9 0 1 10 0 "''1.10''" "''v1.10.0''" "''v1.10.0''"]
  from ordered v show ?thesis unfolding r by (simp add: cmp3_def)
qed

end
