(* ===== verification/Sha224.thy ===== *)
theory Sha224
  imports Prelude
begin

text \<open>
  \<open>sha256.Sum224\<close> and the lower-case hexadecimal form that \<open>fmt.Sprintf("%x", h)\<close> gives:
  the version label of an image volume is computed with them. The function is the one of
  FIPS 180-4 over 32-bit words.
\<close>

unbundle bit_operations_syntax

type_synonym w32 = "32 word"

definition sha_rotr :: "nat \<Rightarrow> w32 \<Rightarrow> w32" where
  "sha_rotr n x = drop_bit n x OR push_bit (32 - n) x"

definition sha_ch :: "w32 \<Rightarrow> w32 \<Rightarrow> w32 \<Rightarrow> w32" where
  "sha_ch x y z = (x AND y) XOR (NOT x AND z)"

definition sha_maj :: "w32 \<Rightarrow> w32 \<Rightarrow> w32 \<Rightarrow> w32" where
  "sha_maj x y z = (x AND y) XOR (x AND z) XOR (y AND z)"

definition sha_big0 :: "w32 \<Rightarrow> w32" where
  "sha_big0 x = sha_rotr 2 x XOR sha_rotr 13 x XOR sha_rotr 22 x"

definition sha_big1 :: "w32 \<Rightarrow> w32" where
  "sha_big1 x = sha_rotr 6 x XOR sha_rotr 11 x XOR sha_rotr 25 x"

definition sha_small0 :: "w32 \<Rightarrow> w32" where
  "sha_small0 x = sha_rotr 7 x XOR sha_rotr 18 x XOR drop_bit 3 x"

definition sha_small1 :: "w32 \<Rightarrow> w32" where
  "sha_small1 x = sha_rotr 17 x XOR sha_rotr 19 x XOR drop_bit 10 x"

definition sha_k :: "w32 list" where
  "sha_k =
    [1116352408, 1899447441, 3049323471, 3921009573, 961987163, 1508970993, 2453635748, 2870763221,
     3624381080, 310598401, 607225278, 1426881987, 1925078388, 2162078206, 2614888103, 3248222580,
     3835390401, 4022224774, 264347078, 604807628, 770255983, 1249150122, 1555081692, 1996064986,
     2554220882, 2821834349, 2952996808, 3210313671, 3336571891, 3584528711, 113926993, 338241895,
     666307205, 773529912, 1294757372, 1396182291, 1695183700, 1986661051, 2177026350, 2456956037,
     2730485921, 2820302411, 3259730800, 3345764771, 3516065817, 3600352804, 4094571909, 275423344,
     430227734, 506948616, 659060556, 883997877, 958139571, 1322822218, 1537002063, 1747873779,
     1955562222, 2024104815, 2227730452, 2361852424, 2428436474, 2756734187, 3204031479, 3329325298]"

datatype sha_state = Sha w32 w32 w32 w32 w32 w32 w32 w32

definition sha224_init :: sha_state where
  "sha224_init = Sha 3238371032 914150663 812702999 4144912697 4290775857 1750603025 1694076839 3204075428"

text \<open>The message schedule, newest word first.\<close>

fun sha_extend :: "nat \<Rightarrow> w32 list \<Rightarrow> w32 list" where
  "sha_extend 0 ws = ws"
| "sha_extend (Suc n) ws =
     sha_extend n ((sha_small1 (ws ! 1) + ws ! 6 + sha_small0 (ws ! 14) + ws ! 15) # ws)"

fun sha_round :: "w32 \<times> w32 \<Rightarrow> sha_state \<Rightarrow> sha_state" where
  "sha_round (k, w) (Sha a b c d e f g h) =
     (let t1 = h + sha_big1 e + sha_ch e f g + k + w;
          t2 = sha_big0 a + sha_maj a b c
      in Sha (t1 + t2) a b c (d + t1) e f g)"

fun sha_add :: "sha_state \<Rightarrow> sha_state \<Rightarrow> sha_state" where
  "sha_add (Sha a b c d e f g h) (Sha a' b' c' d' e' f' g' h') =
     Sha (a + a') (b + b') (c + c') (d + d') (e + e') (f + f') (g + g') (h + h')"

definition byte_val :: "char \<Rightarrow> nat" where
  "byte_val c = of_char c"

fun be_words :: "string \<Rightarrow> w32 list" where
  "be_words (a # b # c # d # s) =
     word_of_nat (((byte_val a * 256 + byte_val b) * 256 + byte_val c) * 256 + byte_val d) # be_words s"
| "be_words _ = []"

definition sha_block :: "string \<Rightarrow> sha_state \<Rightarrow> sha_state" where
  "sha_block blk st =
     sha_add st (fold sha_round (zip sha_k (rev (sha_extend 48 (rev (be_words blk))))) st)"

definition be_bytes :: "nat \<Rightarrow> nat \<Rightarrow> string" where
  "be_bytes n v = map (\<lambda>i. char_of (v div 256 ^ i mod 256)) (rev [0..<n])"

definition sha_pad :: "string \<Rightarrow> string" where
  "sha_pad s =
     s @ [CHR 0x80] @ replicate ((119 - length s mod 64) mod 64) (CHR 0x00) @ be_bytes 8 (8 * length s)"

function blocks64 :: "string \<Rightarrow> string list" where
  "blocks64 s = (if s = [] then [] else take 64 s # blocks64 (drop 64 s))"
  by pat_completeness auto
termination
  by (relation "measure length") auto

declare blocks64.simps [simp del]

fun sha224_digest :: "sha_state \<Rightarrow> string" where
  "sha224_digest (Sha a b c d e f g h) =
     concat (map (\<lambda>w. be_bytes 4 (unat w)) [a, b, c, d, e, f, g])"

definition sum224 :: "string \<Rightarrow> string" where
  "sum224 s = sha224_digest (fold sha_block (blocks64 (sha_pad s)) sha224_init)"

definition hex_digit :: "nat \<Rightarrow> char" where
  "hex_digit n = (if n < 10 then char_of (48 + n) else char_of (87 + n))"

definition hex_string :: "string \<Rightarrow> string" where
  "hex_string s = concat (map (\<lambda>c. [hex_digit (byte_val c div 16), hex_digit (byte_val c mod 16)]) s)"

lemma length_sum224 [simp]: "length (sum224 s) = 28"
  by (cases "fold sha_block (blocks64 (sha_pad s)) sha224_init")
     (simp add: sum224_def be_bytes_def)

lemma length_hex_string [simp]: "length (hex_string s) = 2 * length s"
  by (induction s) (auto simp: hex_string_def)

end
