(* ===== verification/Inject_Config.thy ===== *)
theory Inject_Config
  imports Semver Sha224
begin

text \<open>
  The configuration of the SDK injector (pkg/beyla/config.go, types SDKInject, SDKExport,
  SDKResource and WebhookConfig), the language names of pkg/services/instrumentable_type.go,
  and the export modes and metric features that OBI defines for them
  (vendor/go.opentelemetry.io/obi, packages services and export).

  Go's \<open>uint\<close> is a 64-bit word. A nil pointer to a boolean is \<open>None\<close>.
\<close>

subsection \<open>Languages\<close>

datatype instrumentable =
    InstrumentableUnknown | InstrumentableGolang | InstrumentableJava | InstrumentableJavaNative
  | InstrumentableDotnet | InstrumentablePython | InstrumentableRuby | InstrumentableNodejs
  | InstrumentableRust | InstrumentableGeneric | InstrumentablePHP | InstrumentableCPP

fun instrumentable_string :: "instrumentable \<Rightarrow> string" where
  "instrumentable_string InstrumentableGolang = ''go''"
| "instrumentable_string InstrumentableJava = ''java''"
| "instrumentable_string InstrumentableJavaNative = ''java''"
| "instrumentable_string InstrumentableDotnet = ''dotnet''"
| "instrumentable_string InstrumentablePython = ''python''"
| "instrumentable_string InstrumentableRuby = ''ruby''"
| "instrumentable_string InstrumentableNodejs = ''nodejs''"
| "instrumentable_string InstrumentableRust = ''rust''"
| "instrumentable_string InstrumentablePHP = ''php''"
| "instrumentable_string InstrumentableCPP = ''cpp''"
| "instrumentable_string InstrumentableGeneric = ''generic''"
| "instrumentable_string InstrumentableUnknown = ''unknown''"

text \<open>\<open>UnmarshalText\<close>; the error carries the lower-cased text, as the message does.\<close>

definition unmarshal_text :: "string \<Rightarrow> string + instrumentable" where
  "unmarshal_text text =
     (let lang = to_lower text in
      if lang = ''java'' then Inr InstrumentableJava
      else if lang = ''dotnet'' then Inr InstrumentableDotnet
      else if lang = ''nodejs'' then Inr InstrumentableNodejs
      else if lang = ''go'' \<or> lang = ''golang'' then Inr InstrumentableGolang
      else if lang = ''python'' then Inr InstrumentablePython
      else if lang = ''ruby'' then Inr InstrumentableRuby
      else if lang = ''rust'' then Inr InstrumentableRust
      else if lang = ''php'' then Inr InstrumentablePHP
      else if lang = ''generic'' then Inr InstrumentableGeneric
      else Inl lang)"

definition marshal_text :: "instrumentable \<Rightarrow> string" where
  "marshal_text it = instrumentable_string it"

definition parse_instrumentable_type :: "string \<Rightarrow> string + instrumentable" where
  "parse_instrumentable_type lang =
     (case unmarshal_text lang of Inl e \<Rightarrow> Inl e | Inr it \<Rightarrow> Inr it)"

lemma to_lower_ascii_letter:
  "(97::nat) \<le> of_char c \<Longrightarrow> of_char c \<le> (122::nat) \<Longrightarrow> to_lower (c # s) = c # to_lower s"
  by (auto simp: lower_char_def)

text \<open>The languages that have a name of their own in the configuration.\<close>

definition configurable :: "instrumentable \<Rightarrow> bool" where
  "configurable it \<longleftrightarrow>
     it \<notin> {InstrumentableUnknown, InstrumentableJavaNative, InstrumentableCPP}"

lemma unmarshal_marshal: "configurable it \<Longrightarrow> unmarshal_text (marshal_text it) = Inr it"
  by (cases it)
     (simp_all add: configurable_def marshal_text_def unmarshal_text_def lower_char_def)

lemma unmarshal_configurable: "unmarshal_text s = Inr it \<Longrightarrow> configurable it"
  by (auto simp: unmarshal_text_def Let_def configurable_def split: if_splits)

lemma unmarshal_ascii_case:
  "to_lower s = to_lower t \<Longrightarrow> unmarshal_text s = unmarshal_text t"
  by (simp add: unmarshal_text_def)

subsection \<open>Feature bits and export modes\<close>

type_synonym bits = "64 word"

definition bits_has :: "bits \<Rightarrow> bits \<Rightarrow> bool" where
  "bits_has i value = (i AND value = value)"

definition bits_any :: "bits \<Rightarrow> bits \<Rightarrow> bool" where
  "bits_any i value = (i AND value \<noteq> 0)"

definition blockMetrics :: bits where "blockMetrics = 1"
definition blockTraces :: bits where "blockTraces = 2"
definition blockLogs :: bits where "blockLogs = 4"

record export_modes =
  block_signal :: bits

definition export_mode_unset :: export_modes where
  "export_mode_unset = \<lparr>block_signal = 0\<rparr>"

definition new_export_modes :: export_modes where
  "new_export_modes = \<lparr>block_signal = NOT 0\<rparr>"

definition can_export_traces :: "export_modes \<Rightarrow> bool" where
  "can_export_traces m = (\<not> bits_has (block_signal m) blockTraces)"

definition can_export_metrics :: "export_modes \<Rightarrow> bool" where
  "can_export_metrics m = (\<not> bits_has (block_signal m) blockMetrics)"

definition can_export_logs :: "export_modes \<Rightarrow> bool" where
  "can_export_logs m = (\<not> bits_has (block_signal m) blockLogs)"

definition allow_traces :: "export_modes \<Rightarrow> export_modes" where
  "allow_traces m = m\<lparr>block_signal := block_signal m XOR blockTraces\<rparr>"

definition allow_metrics :: "export_modes \<Rightarrow> export_modes" where
  "allow_metrics m = m\<lparr>block_signal := block_signal m XOR blockMetrics\<rparr>"

definition allow_logs :: "export_modes \<Rightarrow> export_modes" where
  "allow_logs m = m\<lparr>block_signal := block_signal m XOR blockLogs\<rparr>"

lemmas export_mode_defs =
  can_export_traces_def can_export_metrics_def can_export_logs_def
  allow_traces_def allow_metrics_def allow_logs_def new_export_modes_def export_mode_unset_def
  bits_has_def blockMetrics_def blockTraces_def blockLogs_def

definition featureNetwork :: bits where "featureNetwork = 2"
definition featureStats :: bits where "featureStats = 4"
definition featureNetworkInterZone :: bits where "featureNetworkInterZone = 8"
definition featureSpanLegacy :: bits where "featureSpanLegacy = 32"
definition featureSpanOTel :: bits where "featureSpanOTel = 64"
definition featureSpanSizes :: bits where "featureSpanSizes = 128"
definition featureAll :: bits where "featureAll = NOT 0"

definition any_span_metrics :: "bits \<Rightarrow> bool" where
  "any_span_metrics f = bits_any f (featureSpanLegacy OR featureSpanOTel OR featureSpanSizes)"

definition any_network :: "bits \<Rightarrow> bool" where
  "any_network f = bits_any f (featureNetwork OR featureNetworkInterZone)"

definition stat_metrics :: "bits \<Rightarrow> bool" where
  "stat_metrics f = bits_any f featureStats"

definition invalid_span_metrics_config :: "bits \<Rightarrow> bool" where
  "invalid_span_metrics_config f \<longleftrightarrow>
     bits_has f (featureSpanLegacy OR featureSpanOTel) \<and> \<not> bits_has f featureAll"

subsection \<open>The injector section\<close>

record sampler_config =
  sampler_name :: string
  sampler_arg :: string

record sdk_export =
  exp_traces :: "bool option"
  exp_metrics :: "bool option"
  exp_logs :: "bool option"

definition traces_enabled :: "sdk_export \<Rightarrow> bool" where
  "traces_enabled e = (case exp_traces e of None \<Rightarrow> True | Some b \<Rightarrow> b)"

definition metrics_enabled :: "sdk_export \<Rightarrow> bool" where
  "metrics_enabled e = (case exp_metrics e of None \<Rightarrow> True | Some b \<Rightarrow> b)"

definition logs_enabled :: "sdk_export \<Rightarrow> bool" where
  "logs_enabled e = (case exp_logs e of None \<Rightarrow> False | Some b \<Rightarrow> b)"

record sdk_resource =
  res_attributes :: strmap
  add_k8s_uid_attributes :: bool
  use_labels_for_resource_attributes :: bool

record webhook_config =
  wh_enable :: bool
  wh_port :: int
  wh_cert_path :: string
  wh_key_path :: string
  wh_timeout :: int

definition webhook_enabled :: "webhook_config \<Rightarrow> bool" where
  "webhook_enabled w \<longleftrightarrow> wh_enable w \<and> wh_port w > 0 \<and> wh_cert_path w \<noteq> [] \<and> wh_key_path w \<noteq> []"

text \<open>
  A selector of the \<open>instrument\<close> section (OBI's GlobAttributes): the criteria on metadata,
  pod labels and pod annotations, each a name with a glob, and the overrides it carries. A
  compiled glob is the predicate it decides; the globs' syntax is left to the library that
  compiles them.
\<close>

type_synonym criteria = "(string \<times> (string \<Rightarrow> bool)) list"

record selector =
  sel_path :: "string option"
  sel_open_ports :: nat
  sel_metadata :: criteria
  sel_pod_labels :: criteria
  sel_pod_annotations :: criteria
  sel_export_modes :: export_modes
  sel_sampler :: "sampler_config option"

record sdk_inject =
  inj_instrument :: "selector list"
  inj_webhook :: webhook_config
  no_auto_restart :: bool
  image_volume_path :: string
  host_path_volume_dir :: string
  sdk_pkg_version :: string
  host_mount_path :: string
  manage_sdk_versions :: bool
  default_sampler :: "sampler_config option"
  propagators :: "string list"
  inj_export :: sdk_export
  inj_resources :: sdk_resource
  enabled_sdks :: "instrumentable list"
  inj_debug :: bool

text \<open>The messages of \<open>SDKInject.Validate\<close>.\<close>

datatype inject_error =
    ImageAndHostMountExclusive
  | ImageAndSdkVersionExclusive
  | SdkVersionMissing
  | SdkVersionNotSemver
  | HostMountPathMissing

definition inject_validate :: "sdk_inject \<Rightarrow> inject_error option" where
  "inject_validate s =
     (if image_volume_path s \<noteq> [] then
        (if host_mount_path s \<noteq> [] then Some ImageAndHostMountExclusive
         else if sdk_pkg_version s \<noteq> [] then Some ImageAndSdkVersionExclusive
         else None)
      else if sdk_pkg_version s = [] then Some SdkVersionMissing
      else if \<not> semver_is_valid (sdk_pkg_version s) then Some SdkVersionNotSemver
      else if manage_sdk_versions s \<and> host_mount_path s = [] then Some HostMountPathMissing
      else None)"

definition package_version :: "sdk_inject \<Rightarrow> string" where
  "package_version s =
     (if image_volume_path s \<noteq> [] then hex_string (sum224 (image_volume_path s))
      else sdk_pkg_version s)"

definition uses_image_volume :: "sdk_inject \<Rightarrow> bool" where
  "uses_image_volume s = (image_volume_path s \<noteq> [])"

lemma image_version_length: "uses_image_volume s \<Longrightarrow> length (package_version s) = 56"
  by (simp add: uses_image_volume_def package_version_def)

lemma inject_validate_package_version:
  assumes "inject_validate s = None"
  shows "package_version s \<noteq> []"
proof (cases "uses_image_volume s")
  case True
  then have "length (package_version s) = 56" by (rule image_version_length)
  then show ?thesis by auto
next
  case False
  with assms show ?thesis
    by (auto simp: inject_validate_def package_version_def uses_image_volume_def split: if_splits)
qed

lemma inject_validate_None:
  "inject_validate s = None \<longleftrightarrow>
     (if uses_image_volume s then host_mount_path s = [] \<and> sdk_pkg_version s = []
      else semver_is_valid (sdk_pkg_version s) \<and> (manage_sdk_versions s \<longrightarrow> host_mount_path s \<noteq> []))"
  by (auto simp: inject_validate_def uses_image_volume_def semver_is_valid_def semver_parse_def)

subsection \<open>Properties\<close>

text \<open>
  A language read from the configuration is written back under the same name, and the other
  way round; the letter case of the text does not matter, and nothing unmarshals to a
  language that has no name of its own (unknown, native Java, C++).
\<close>

lemma language_round_trip:
  "(configurable it \<longrightarrow> unmarshal_text (marshal_text it) = Inr it)
   \<and> (unmarshal_text s = Inr it \<longrightarrow> configurable it \<and> unmarshal_text (marshal_text it) = Inr it)
   \<and> (to_lower s = to_lower t \<longrightarrow> parse_instrumentable_type s = parse_instrumentable_type t)"
proof (intro conjI impI)
  show "configurable it \<Longrightarrow> unmarshal_text (marshal_text it) = Inr it"
    by (rule unmarshal_marshal)
  show "unmarshal_text s = Inr it \<Longrightarrow> configurable it" by (rule unmarshal_configurable)
  show "unmarshal_text s = Inr it \<Longrightarrow> unmarshal_text (marshal_text it) = Inr it"
    by (intro unmarshal_marshal unmarshal_configurable)
  show "to_lower s = to_lower t \<Longrightarrow> parse_instrumentable_type s = parse_instrumentable_type t"
    unfolding parse_instrumentable_type_def by (drule unmarshal_ascii_case) (simp only:)
qed

text \<open>
  A validated injector section determines one source of the SDKs, and the version by which
  the webhook labels pods is never empty. With an image it is 56 characters long, within the
  63 that Kubernetes allows in a label value; without one it is the configured version,
  which is a valid semantic version.
\<close>

lemma validated_inject_config:
  assumes "inject_validate s = None"
  shows "package_version s \<noteq> [] \<and>
    (if uses_image_volume s
     then sdk_pkg_version s = [] \<and> host_mount_path s = [] \<and> length (package_version s) = 56
     else package_version s = sdk_pkg_version s \<and> semver_is_valid (package_version s) \<and>
          (manage_sdk_versions s \<longrightarrow> host_mount_path s \<noteq> []))"
  using assms inject_validate_package_version [OF assms] image_version_length [of s]
  unfolding inject_validate_None
  by (simp add: package_version_def uses_image_volume_def split: if_splits)

definition minimal_inject :: "string \<Rightarrow> sdk_inject" where
  "minimal_inject v =
     \<lparr>inj_instrument = [],
      inj_webhook = \<lparr>wh_enable = False, wh_port = 0, wh_cert_path = [], wh_key_path = [], wh_timeout = 0\<rparr>,
      no_auto_restart = False, image_volume_path = [], host_path_volume_dir = [], sdk_pkg_version = v,
      host_mount_path = [], manage_sdk_versions = False, default_sampler = None, propagators = [],
      inj_export = \<lparr>exp_traces = None, exp_metrics = None, exp_logs = None\<rparr>,
      inj_resources = \<lparr>res_attributes = [], add_k8s_uid_attributes = False,
        use_labels_for_resource_attributes = False\<rparr>,
      enabled_sdks = [], inj_debug = False\<rparr>"

end
