(* ===== verification/Pod_Model.thy ===== *)
theory Pod_Model
  imports Inject_Config
begin

text \<open>
  The parts of a Kubernetes pod that the webhook reads and writes (types of
  k8s.io/api/core/v1 as pkg/webhook uses them), the process description of
  pkg/webhook/scanner.go, and the owners of a pod (pkg/webhook/mutator.go and server.go).

  The fields of a volume, of a mount or of a pod specification that the webhook never reads
  are kept together in one field each, so that a replaced record loses them as it does in
  the code. A nil slice and an empty one are not told apart: the code replaces nil by empty
  only where it appends right after.
\<close>

datatype env_source = FieldRef string | OtherRef string

record env_var =
  ev_name :: string
  ev_value :: string
  ev_from :: "env_source option"

record volume_mount =
  vm_name :: string
  vm_path :: string
  vm_read_only :: bool
  vm_rest :: string

datatype volume_source = ImageSource string string | HostPathSource string string | OtherVolume string

record volume =
  vol_name :: string
  vol_source :: volume_source

record container =
  c_name :: string
  c_image :: string
  c_env :: "env_var list"
  c_mounts :: "volume_mount list"

record pod_spec =
  ps_containers :: "container list"
  ps_volumes :: "volume list"
  ps_rest :: string

record owner_ref =
  or_api_version :: string
  or_kind :: string
  or_name :: string
  or_uid :: string

record object_meta =
  om_name :: string
  om_namespace :: string
  om_labels :: strmap
  om_annotations :: strmap
  om_owner_refs :: "owner_ref list"

record pod =
  pod_meta :: object_meta
  pod_spec :: pod_spec

subsection \<open>Environment variables of a container\<close>

text \<open>\<open>slices.IndexFunc\<close>; \<open>None\<close> for the result -1.\<close>

fun index_func :: "('a \<Rightarrow> bool) \<Rightarrow> 'a list \<Rightarrow> nat option" where
  "index_func p [] = None"
| "index_func p (x # xs) = (if p x then Some 0 else map_option Suc (index_func p xs))"

lemma index_func_None: "index_func p xs = None \<longleftrightarrow> (\<forall>x \<in> set xs. \<not> p x)"
  by (induction xs) auto

lemma index_func_Some:
  "index_func p xs = Some i \<Longrightarrow> i < length xs \<and> p (xs ! i) \<and> (\<forall>j < i. \<not> p (xs ! j))"
proof (induction xs arbitrary: i)
  case (Cons x xs)
  show ?case
  proof (cases "p x")
    case True
    with Cons.prems show ?thesis by auto
  next
    case False
    with Cons.prems obtain k where "index_func p xs = Some k" "i = Suc k" by auto
    with Cons.IH [of k] False show ?thesis by (auto simp: less_Suc_eq_0_disj)
  qed
qed simp

definition find_env_var :: "container \<Rightarrow> string \<Rightarrow> nat option" where
  "find_env_var c name = index_func (\<lambda>e. ev_name e = name) (c_env c)"

definition set_env_var_even_if_empty :: "container \<Rightarrow> string \<Rightarrow> string \<Rightarrow> container" where
  "set_env_var_even_if_empty c name v =
     (case find_env_var c name of
        None \<Rightarrow> c\<lparr>c_env := c_env c @ [\<lparr>ev_name = name, ev_value = v, ev_from = None\<rparr>]\<rparr>
      | Some pos \<Rightarrow>
          c\<lparr>c_env := (c_env c)[pos := (c_env c ! pos)\<lparr>ev_from := None, ev_value := v\<rparr>]\<rparr>)"

definition set_env_var :: "container \<Rightarrow> string \<Rightarrow> string \<Rightarrow> container" where
  "set_env_var c name v = (if v \<noteq> [] then set_env_var_even_if_empty c name v else c)"

definition set_env_var_from_field_path :: "container \<Rightarrow> string \<Rightarrow> string \<Rightarrow> container \<times> string" where
  "set_env_var_from_field_path c name path =
     (c\<lparr>c_env := c_env c @ [\<lparr>ev_name = name, ev_value = [], ev_from = Some (FieldRef path)\<rparr>]\<rparr>,
      ''$('' @ name @ '')'')"

text \<open>The first entry of a name: what the webhook itself finds when it looks a name up.\<close>

definition env_entry :: "container \<Rightarrow> string \<Rightarrow> env_var option" where
  "env_entry c name = find (\<lambda>e. ev_name e = name) (c_env c)"

definition env_names :: "container \<Rightarrow> string list" where
  "env_names c = map ev_name (c_env c)"

definition plain_entry :: "string \<Rightarrow> string \<Rightarrow> env_var" where
  "plain_entry name v = \<lparr>ev_name = name, ev_value = v, ev_from = None\<rparr>"

lemma find_append: "find p (xs @ ys) = (case find p xs of Some x \<Rightarrow> Some x | None \<Rightarrow> find p ys)"
  by (induction xs) auto

lemma find_env_var_iff: "find_env_var c n = None \<longleftrightarrow> n \<notin> set (env_names c)"
  by (auto simp: find_env_var_def index_func_None env_names_def)

lemma env_entry_iff: "env_entry c n = None \<longleftrightarrow> n \<notin> set (env_names c)"
  by (auto simp: env_entry_def find_None_iff env_names_def)

lemma find_update_first:
  "index_func (\<lambda>e. f e = n) xs = Some i \<Longrightarrow> f y = n \<Longrightarrow>
     find (\<lambda>e. f e = m) (xs[i := y]) = (if m = n then Some y else find (\<lambda>e. f e = m) xs)"
proof (induction xs arbitrary: i)
  case (Cons x xs)
  then show ?case by (cases "f x = n") auto
qed simp

lemma env_entry_set_even_if_empty [simp]:
  "env_entry (set_env_var_even_if_empty c n v) m = (if m = n then Some (plain_entry n v) else env_entry c m)"
proof (cases "find_env_var c n")
  case None
  then have "env_entry c n = None" by (simp add: find_env_var_iff env_entry_iff)
  with None show ?thesis
    by (auto simp: set_env_var_even_if_empty_def env_entry_def find_append plain_entry_def
        split: option.splits)
next
  case (Some i)
  then have i: "index_func (\<lambda>e. ev_name e = n) (c_env c) = Some i" by (simp add: find_env_var_def)
  then have "ev_name (c_env c ! i) = n" using index_func_Some by fastforce
  then have "(c_env c ! i)\<lparr>ev_from := None, ev_value := v\<rparr> = plain_entry n v"
    by (simp add: plain_entry_def)
  with Some find_update_first [OF i, of "plain_entry n v" m] show ?thesis
    by (simp add: set_env_var_even_if_empty_def env_entry_def plain_entry_def)
qed

lemma env_entry_set_env_var [simp]:
  "env_entry (set_env_var c n v) m =
     (if m = n \<and> v \<noteq> [] then Some (plain_entry n v) else env_entry c m)"
  by (simp add: set_env_var_def)

lemma env_entry_field_path [simp]:
  "env_entry (fst (set_env_var_from_field_path c n p)) m =
     (if m = n \<and> env_entry c m = None
      then Some \<lparr>ev_name = n, ev_value = [], ev_from = Some (FieldRef p)\<rparr> else env_entry c m)"
  by (auto simp: set_env_var_from_field_path_def env_entry_def find_append split: option.splits)

lemma env_names_set_even_if_empty [simp]:
  "env_names (set_env_var_even_if_empty c n v) =
     (if n \<in> set (env_names c) then env_names c else env_names c @ [n])"
proof (cases "find_env_var c n")
  case None
  then have "n \<notin> set (env_names c)" by (simp add: find_env_var_iff)
  with None show ?thesis by (simp add: set_env_var_even_if_empty_def env_names_def)
next
  case (Some i)
  then have "n \<in> set (env_names c)" using find_env_var_iff [of c n] by auto
  moreover have "ev_name (c_env c ! i) = n"
    using Some index_func_Some unfolding find_env_var_def by fastforce
  ultimately show ?thesis
    using Some by (simp add: set_env_var_even_if_empty_def env_names_def map_update list_update_same_conv)
      (metis list_update_id map_update)
qed

lemma env_names_field_path [simp]:
  "env_names (fst (set_env_var_from_field_path c n p)) = env_names c @ [n]"
  by (simp add: set_env_var_from_field_path_def env_names_def)

lemma snd_field_path [simp]: "snd (set_env_var_from_field_path c n p) = ''$('' @ n @ '')''"
  by (simp add: set_env_var_from_field_path_def)

subsection \<open>The contract of an environment edit\<close>

text \<open>
  Every step that fills a container's environment edits the entries of some names only and
  leaves the rest of the container alone. \<open>W\<close> is the set of names the step may set.
\<close>

locale env_edit =
  fixes f :: "container \<Rightarrow> container" and W :: "string set"
  assumes frame: "n \<notin> W \<Longrightarrow> env_entry (f c) n = env_entry c n"
    and keeps: "c_name (f c) = c_name c" "c_image (f c) = c_image c" "c_mounts (f c) = c_mounts c"
    and grows: "set (env_names c) \<subseteq> set (env_names (f c))"
begin

lemma names_bound: "set (env_names (f c)) \<subseteq> set (env_names c) \<union> W"
proof
  fix n assume "n \<in> set (env_names (f c))"
  then have "env_entry (f c) n \<noteq> None" by (simp add: env_entry_iff)
  then show "n \<in> set (env_names c) \<union> W"
    using frame [of n c] by (cases "n \<in> W") (auto simp: env_entry_iff)
qed

lemma keeps_entry: "n \<notin> W \<Longrightarrow> env_entry c n = Some e \<Longrightarrow> env_entry (f c) n = Some e"
  by (simp add: frame)

end

lemma env_edit_id: "env_edit (\<lambda>c. c) W"
  by unfold_locales auto

lemma env_edit_comp:
  assumes f: "env_edit f V" and g: "env_edit g W" and U: "V \<union> W \<subseteq> U"
  shows "env_edit (\<lambda>c. g (f c)) U"
proof (rule env_edit.intro)
  fix n c assume "n \<notin> U"
  with U have "n \<notin> V" "n \<notin> W" by auto
  then show "env_entry (g (f c)) n = env_entry c n"
    by (simp add: env_edit.frame [OF f] env_edit.frame [OF g])
next
  fix c show "set (env_names c) \<subseteq> set (env_names (g (f c)))"
    using env_edit.grows [OF f, of c] env_edit.grows [OF g, of "f c"] by auto
qed (simp_all add: env_edit.keeps [OF f] env_edit.keeps [OF g])

lemma env_edit_mono: "env_edit f V \<Longrightarrow> V \<subseteq> U \<Longrightarrow> env_edit f U"
  using env_edit_comp [OF env_edit_id [of "{}"], of f V U] by simp

lemma env_edit_if: "env_edit f W \<Longrightarrow> env_edit g W \<Longrightarrow> env_edit (\<lambda>c. if b then f c else g c) W"
  by (cases b) auto

lemma set_even_if_empty_keeps [simp]:
  "c_name (set_env_var_even_if_empty c n v) = c_name c"
  "c_image (set_env_var_even_if_empty c n v) = c_image c"
  "c_mounts (set_env_var_even_if_empty c n v) = c_mounts c"
  by (simp_all add: set_env_var_even_if_empty_def split: option.split)

lemma set_env_var_keeps [simp]:
  "c_name (set_env_var c n v) = c_name c"
  "c_image (set_env_var c n v) = c_image c"
  "c_mounts (set_env_var c n v) = c_mounts c"
  by (simp_all add: set_env_var_def)

lemma field_path_keeps [simp]:
  "c_name (fst (set_env_var_from_field_path c n p)) = c_name c"
  "c_image (fst (set_env_var_from_field_path c n p)) = c_image c"
  "c_mounts (fst (set_env_var_from_field_path c n p)) = c_mounts c"
  by (simp_all add: set_env_var_from_field_path_def)

lemma env_names_set_env_var [simp]:
  "env_names (set_env_var c n v) =
     (if v = [] \<or> n \<in> set (env_names c) then env_names c else env_names c @ [n])"
  by (simp add: set_env_var_def)

interpretation even_if_empty: env_edit "\<lambda>c. set_env_var_even_if_empty c n v" "{n}" for n v
  by unfold_locales auto

interpretation set_var: env_edit "\<lambda>c. set_env_var c n v" "{n}" for n v
  by unfold_locales (auto simp: set_env_var_def even_if_empty.keeps)

interpretation field_path: env_edit "\<lambda>c. fst (set_env_var_from_field_path c n p)" "{n}" for n p
  by unfold_locales (auto simp: set_env_var_from_field_path_def env_names_def env_entry_def find_append split: option.splits)

subsection \<open>Owners\<close>

text \<open>An owner as the informer's message has it: kind and name.\<close>

type_synonym owner = "string \<times> string"

text \<open>\<open>ownersFrom\<close>: the loop over the owner references, with its two early returns.\<close>

fun owners_loop :: "owner_ref list \<Rightarrow> owner list" where
  "owners_loop [] = []"
| "owners_loop (r # rs) =
     (let own = (or_kind r, or_name r);
          cut = (case last_index_byte (or_name r) (CHR ''-'') of
                   Some i \<Rightarrow> if i > 0 then Some (take i (or_name r)) else None
                 | None \<Rightarrow> None)
      in case cut of
           Some base \<Rightarrow>
             if or_api_version r = ''apps/v1'' \<and> or_kind r = ''ReplicaSet'' then [own, (''Deployment'', base)]
             else if or_api_version r = ''batch/v1'' \<and> or_kind r = ''Job'' then [own, (''CronJob'', base)]
             else own # owners_loop rs
         | None \<Rightarrow> own # owners_loop rs)"

definition owners_from :: "object_meta \<Rightarrow> owner list" where
  "owners_from meta =
     (if om_owner_refs meta = [] then [(''Pod'', om_name meta)] else owners_loop (om_owner_refs meta))"

definition top_owner :: "owner list \<Rightarrow> owner option" where
  "top_owner owners = (if owners = [] then None else Some (last owners))"

lemma owners_from_nonempty [simp]: "owners_from meta \<noteq> []"
  by (cases "om_owner_refs meta") (auto simp: owners_from_def Let_def split: option.splits)

text \<open>\<open>transform.OwnerLabelName(kind).Prom()\<close>.\<close>

definition owner_label_name :: "string \<Rightarrow> string" where
  "owner_label_name kind =
     (if kind = ''Deployment'' then ''k8s_deployment_name''
      else if kind = ''StatefulSet'' then ''k8s_statefulset_name''
      else if kind = ''DaemonSet'' then ''k8s_daemonset_name''
      else if kind = ''ReplicaSet'' then ''k8s_replicaset_name''
      else if kind = ''Job'' then ''k8s_job_name''
      else if kind = ''CronJob'' then ''k8s_cronjob_name''
      else '''')"

subsection \<open>Processes\<close>

record container_info =
  container_id :: string
  pid_namespace :: "32 word"

record process_info =
  pi_pid :: int
  pi_metadata :: strmap
  pi_pod_labels :: strmap
  pi_pod_annotations :: strmap
  pi_env :: strmap
  pi_kind :: instrumentable
  pi_container_info :: "container_info option"

definition empty_process_info :: process_info where
  "empty_process_info =
     \<lparr>pi_pid = 0, pi_metadata = [], pi_pod_labels = [], pi_pod_annotations = [], pi_env = [],
      pi_kind = InstrumentableUnknown, pi_container_info = None\<rparr>"

text \<open>The loop \<open>for _, owner := range owners\<close> that records every owner's name.\<close>

fun add_owner_names :: "strmap \<Rightarrow> owner list \<Rightarrow> strmap" where
  "add_owner_names m [] = m"
| "add_owner_names m ((kind, name) # os) = add_owner_names (mput m (owner_label_name kind) name) os"

definition base_metadata :: "string \<Rightarrow> string \<Rightarrow> string \<Rightarrow> strmap" where
  "base_metadata ns pod_name owner_name =
     [(''k8s_namespace'', ns), (''k8s_pod_name'', pod_name), (''k8s_owner_name'', owner_name)]"

definition process_metadata :: "object_meta \<Rightarrow> process_info" where
  "process_metadata meta =
     (let owners = owners_from meta;
          owner_name = (case top_owner owners of Some (_, n) \<Rightarrow> n | None \<Rightarrow> om_name meta)
      in empty_process_info
           \<lparr>pi_metadata := add_owner_names (base_metadata (om_namespace meta) (om_name meta) owner_name) owners,
            pi_pod_labels := om_labels meta,
            pi_pod_annotations := om_annotations meta\<rparr>)"

lemma owner_label_name_base:
  "owner_label_name k \<notin> {''k8s_namespace'', ''k8s_pod_name'', ''k8s_owner_name''}"
  by (simp add: owner_label_name_def)

lemma add_owner_names_base:
  "n \<in> {''k8s_namespace'', ''k8s_pod_name'', ''k8s_owner_name''} \<Longrightarrow>
     mget (add_owner_names m os) n = mget m n"
  using owner_label_name_base by (induction m os rule: add_owner_names.induct) fastforce+

lemma add_owner_names_cases:
  "mget (add_owner_names m os) k = Some n \<Longrightarrow>
     mget m k = Some n \<or> (\<exists>kind. (kind, n) \<in> set os \<and> owner_label_name kind = k)"
  by (induction m os rule: add_owner_names.induct) (fastforce split: if_splits)+

end
