(* ===== verification/Pod_Matcher.thy ===== *)
theory Pod_Matcher
  imports Pod_Model
begin

text \<open>
  Selection of processes and pods (pkg/webhook/matcher.go): the selectors in the order of
  the configuration, the first one that matches wins. A selector matches where every
  criterion holds and there is at least one.
\<close>

record pod_matcher =
  selectors :: "selector option list"

text \<open>\<open>discover.NormalizeGlobCriteria\<close>: criteria on metadata only match any executable path.\<close>

definition normalize_selector :: "selector \<Rightarrow> selector" where
  "normalize_selector s =
     (if sel_path s = None \<and> sel_open_ports s = 0 \<and>
         (length (sel_metadata s) > 0 \<or> length (sel_pod_labels s) > 0 \<or> length (sel_pod_annotations s) > 0)
      then s\<lparr>sel_path := Some ''*''\<rparr> else s)"

definition normalize_glob_criteria :: "selector list \<Rightarrow> selector option list" where
  "normalize_glob_criteria ss = map (\<lambda>s. Some (normalize_selector s)) ss"

definition new_pod_matcher :: "sdk_inject \<Rightarrow> pod_matcher" where
  "new_pod_matcher cfg = \<lparr>selectors = normalize_glob_criteria (inj_instrument cfg)\<rparr>"

definition has_selection_criteria :: "pod_matcher \<Rightarrow> bool" where
  "has_selection_criteria m = (length (selectors m) > 0)"

text \<open>
  One of the three loops of \<open>matchProcess\<close>: \<open>None\<close> for the early \<open>return false\<close>, otherwise
  the new value of \<open>matchedAny\<close>.
\<close>

fun match_range :: "criteria \<Rightarrow> strmap \<Rightarrow> bool \<Rightarrow> bool option" where
  "match_range [] actual matched_any = Some matched_any"
| "match_range ((name, glob) # cs) actual matched_any =
     (case mget actual name of
        None \<Rightarrow> None
      | Some v \<Rightarrow> if \<not> glob v then None else match_range cs actual True)"

definition match_process :: "process_info option \<Rightarrow> selector option \<Rightarrow> bool" where
  "match_process actual required =
     (case required of None \<Rightarrow> False | Some req \<Rightarrow>
      case actual of None \<Rightarrow> False | Some act \<Rightarrow>
      case match_range (sel_metadata req) (pi_metadata act) False of None \<Rightarrow> False | Some m1 \<Rightarrow>
      case match_range (sel_pod_labels req) (pi_pod_labels act) m1 of None \<Rightarrow> False | Some m2 \<Rightarrow>
      case match_range (sel_pod_annotations req) (pi_pod_annotations act) m2 of None \<Rightarrow> False
      | Some m3 \<Rightarrow> m3)"

fun match_selectors :: "selector option list \<Rightarrow> process_info option \<Rightarrow> selector option \<times> bool" where
  "match_selectors [] info = (None, False)"
| "match_selectors (s # ss) info = (if match_process info s then (s, True) else match_selectors ss info)"

definition match_process_info :: "pod_matcher \<Rightarrow> process_info option \<Rightarrow> selector option \<times> bool" where
  "match_process_info m info = match_selectors (selectors m) info"

text \<open>What it means that the criteria of a kind hold.\<close>

definition criteria_hold :: "criteria \<Rightarrow> strmap \<Rightarrow> bool" where
  "criteria_hold cs actual \<longleftrightarrow>
     (\<forall>(name, glob) \<in> set cs. \<exists>v. mget actual name = Some v \<and> glob v)"

definition selects :: "selector \<Rightarrow> process_info \<Rightarrow> bool" where
  "selects req act \<longleftrightarrow>
     criteria_hold (sel_metadata req) (pi_metadata act) \<and>
     criteria_hold (sel_pod_labels req) (pi_pod_labels act) \<and>
     criteria_hold (sel_pod_annotations req) (pi_pod_annotations act) \<and>
     (sel_metadata req \<noteq> [] \<or> sel_pod_labels req \<noteq> [] \<or> sel_pod_annotations req \<noteq> [])"

lemma match_range_iff:
  "match_range cs actual b = (if criteria_hold cs actual then Some (b \<or> cs \<noteq> []) else None)"
  by (induction cs actual b rule: match_range.induct)
     (auto simp: criteria_hold_def split: option.splits)

lemma match_process_iff: "match_process (Some act) (Some req) = selects req act"
  by (auto simp: match_process_def match_range_iff selects_def)

lemma match_process_None [simp]: "match_process a None = False" "match_process None r = False"
  by (auto simp: match_process_def split: option.split)

lemma match_selectors_cases:
  "match_selectors ss info = (sel, True) \<longleftrightarrow>
     (\<exists>i < length ss. ss ! i = sel \<and> match_process info sel \<and> (\<forall>j < i. \<not> match_process info (ss ! j)))"
proof (induction ss info rule: match_selectors.induct)
  case (2 s ss info)
  show ?case
  proof (cases "match_process info s")
    case True
    then show ?thesis by (auto intro!: exI [of _ 0]) (metis gr0I nth_Cons_0)
  next
    case False
    have "(\<exists>i < length (s # ss). (s # ss) ! i = sel \<and> match_process info sel \<and>
             (\<forall>j < i. \<not> match_process info ((s # ss) ! j))) \<longleftrightarrow>
          (\<exists>i < length ss. ss ! i = sel \<and> match_process info sel \<and>
             (\<forall>j < i. \<not> match_process info (ss ! j)))" (is "?l \<longleftrightarrow> ?r")
    proof
      assume ?l
      then obtain i where i: "i < length (s # ss)" "(s # ss) ! i = sel" "match_process info sel"
        "\<forall>j < i. \<not> match_process info ((s # ss) ! j)" by blast
      with False obtain k where k: "i = Suc k" by (cases i) auto
      have "\<forall>j < k. \<not> match_process info (ss ! j)" using i(4) k by fastforce
      with i k show ?r by auto
    next
      assume ?r
      then obtain k where "k < length ss" "ss ! k = sel" "match_process info sel"
        "\<forall>j < k. \<not> match_process info (ss ! j)" by blast
      with False show ?l by (intro exI [of _ "Suc k"]) (auto simp: less_Suc_eq_0_disj)
    qed
    with 2 False show ?thesis by simp
  qed
qed simp

lemma match_selectors_False:
  "snd (match_selectors ss info) = False \<longleftrightarrow> (\<forall>s \<in> set ss. \<not> match_process info s)"
  by (induction ss info rule: match_selectors.induct) auto

lemma match_selectors_snd_False: "\<not> snd (match_selectors ss info) \<Longrightarrow> fst (match_selectors ss info) = None"
  by (induction ss info rule: match_selectors.induct) auto

lemma match_process_Some:
  "match_process info s \<Longrightarrow> \<exists>req act. s = Some req \<and> info = Some act \<and> selects req act"
  by (cases s; cases info) (auto simp: match_process_iff)

lemma match_selectors_some:
  "match_selectors ss info = (sel, True) \<Longrightarrow>
     \<exists>s act. sel = Some s \<and> info = Some act \<and> Some s \<in> set ss \<and> selects s act"
  by (auto simp: match_selectors_cases dest!: match_process_Some) (metis nth_mem)

end
