(* ===== verification/Pod_Env.thy ===== *)
theory Pod_Env
  imports Pod_Matcher
begin

text \<open>
  The environment that the webhook gives a container (pkg/webhook/env_vars.go, and the
  constants, the PodMutator type and its constructor of pkg/webhook/mutator.go). Every step
  is a function on containers; it meets the contract \<open>env_edit\<close> for the names it sets.

  The image reference parser (github.com/distribution/reference) and the parser of the OTLP
  endpoint are parameters.
\<close>

subsection \<open>Names\<close>

abbreviation instrumentedLabel :: string where "instrumentedLabel \<equiv> ''com.grafana.beyla/instrumented''"
abbreviation injectVolumeName :: string where "injectVolumeName \<equiv> ''otel-inject-instrumentation''"
abbreviation internalMountPath :: string where "internalMountPath \<equiv> ''/__otel_sdk_auto_instrumentation__''"
abbreviation envVarLdPreloadName :: string where "envVarLdPreloadName \<equiv> ''LD_PRELOAD''"
abbreviation envVarLdPreloadValue :: string where
  "envVarLdPreloadValue \<equiv> ''/__otel_sdk_auto_instrumentation__/dist/injector/libotelinject.so''"
abbreviation envOtelInjectorConfigFileName :: string where
  "envOtelInjectorConfigFileName \<equiv> ''OTEL_INJECTOR_CONFIG_FILE''"
abbreviation envOtelInjectorConfigFileValue :: string where
  "envOtelInjectorConfigFileValue \<equiv> ''/__otel_sdk_auto_instrumentation__/dist/injector/otelinject.conf''"
abbreviation envOtelExporterOtlpEndpointName :: string where
  "envOtelExporterOtlpEndpointName \<equiv> ''OTEL_EXPORTER_OTLP_ENDPOINT''"
abbreviation envOtelExporterOtlpProtocolName :: string where
  "envOtelExporterOtlpProtocolName \<equiv> ''OTEL_EXPORTER_OTLP_PROTOCOL''"
abbreviation envOtelSemConvStabilityName :: string where
  "envOtelSemConvStabilityName \<equiv> ''OTEL_SEMCONV_STABILITY_OPT_IN''"
abbreviation envInjectorOtelExtraResourceAttrs :: string where
  "envInjectorOtelExtraResourceAttrs \<equiv> ''OTEL_INJECTOR_RESOURCE_ATTRIBUTES''"
abbreviation envInjectorOtelServiceName :: string where
  "envInjectorOtelServiceName \<equiv> ''OTEL_INJECTOR_SERVICE_NAME''"
abbreviation envInjectorOtelServiceVersion :: string where
  "envInjectorOtelServiceVersion \<equiv> ''OTEL_INJECTOR_SERVICE_VERSION''"
abbreviation envInjectorOtelServiceNamespace :: string where
  "envInjectorOtelServiceNamespace \<equiv> ''OTEL_INJECTOR_SERVICE_NAMESPACE''"
abbreviation envInjectorOtelK8sNamespaceName :: string where
  "envInjectorOtelK8sNamespaceName \<equiv> ''OTEL_INJECTOR_K8S_NAMESPACE_NAME''"
abbreviation envInjectorOtelK8sPodName :: string where
  "envInjectorOtelK8sPodName \<equiv> ''OTEL_INJECTOR_K8S_POD_NAME''"
abbreviation envInjectorOtelK8sPodUID :: string where
  "envInjectorOtelK8sPodUID \<equiv> ''OTEL_INJECTOR_K8S_POD_UID''"
abbreviation envInjectorOtelK8sContainerName :: string where
  "envInjectorOtelK8sContainerName \<equiv> ''OTEL_INJECTOR_K8S_CONTAINER_NAME''"
abbreviation envInjectorDebugName :: string where "envInjectorDebugName \<equiv> ''OTEL_INJECTOR_LOG_LEVEL''"
abbreviation envOtelK8sNodeName :: string where
  "envOtelK8sNodeName \<equiv> ''OTEL_RESOURCE_ATTRIBUTES_NODE_NAME''"
abbreviation envVarSDKVersion :: string where "envVarSDKVersion \<equiv> ''BEYLA_INJECTOR_SDK_PKG_VERSION''"
abbreviation envOtelTracesSamplerName :: string where "envOtelTracesSamplerName \<equiv> ''OTEL_TRACES_SAMPLER''"
abbreviation envOtelTracesSamplerArgName :: string where
  "envOtelTracesSamplerArgName \<equiv> ''OTEL_TRACES_SAMPLER_ARG''"
abbreviation envOtelPropagatorsName :: string where "envOtelPropagatorsName \<equiv> ''OTEL_PROPAGATORS''"
abbreviation envOtelMetricsExporterName :: string where
  "envOtelMetricsExporterName \<equiv> ''OTEL_METRICS_EXPORTER''"
abbreviation envOtelTracesExporterName :: string where
  "envOtelTracesExporterName \<equiv> ''OTEL_TRACES_EXPORTER''"
abbreviation envOtelLogsExporterName :: string where "envOtelLogsExporterName \<equiv> ''OTEL_LOGS_EXPORTER''"
abbreviation envDotnetEnabledName :: string where
  "envDotnetEnabledName \<equiv> ''DOTNET_AUTO_INSTRUMENTATION_AGENT_PATH_PREFIX''"
abbreviation envJavaEnabledName :: string where "envJavaEnabledName \<equiv> ''JVM_AUTO_INSTRUMENTATION_AGENT_PATH''"
abbreviation envNodejsEnabledName :: string where
  "envNodejsEnabledName \<equiv> ''NODEJS_AUTO_INSTRUMENTATION_AGENT_PATH''"
abbreviation envPythonEnabledName :: string where
  "envPythonEnabledName \<equiv> ''PYTHON_AUTO_INSTRUMENTATION_AGENT_PATH_PREFIX''"

definition resource_prefix :: string where "resource_prefix = ''resource.opentelemetry.io/''"

definition supported_sdk_langs :: "instrumentable list" where
  "supported_sdk_langs =
     [InstrumentableDotnet, InstrumentableJava, InstrumentableNodejs, InstrumentablePython]"

definition label_app_name :: "string list" where
  "label_app_name = [''app.kubernetes.io/instance'', ''app.kubernetes.io/name'']"

definition label_app_version :: "string list" where
  "label_app_version = [''app.kubernetes.io/version'']"

subsection \<open>The mutator\<close>

record traces_config =
  has_traces_consumer :: bool
  common_protocol :: string
  traces_protocol :: string

record otlp_options =
  opt_scheme :: string
  opt_endpoint :: string
  opt_base_url_path :: string
  opt_headers :: strmap

text \<open>
  \<open>TracesConfig.GetProtocol\<close>; \<open>port\<close> is the port of the parsed traces endpoint, \<open>None\<close>
  where the endpoint does not parse.
\<close>

definition guess_protocol :: "string option \<Rightarrow> string" where
  "guess_protocol port =
     (case port of
        Some p \<Rightarrow> if has_suffix p ''4317'' then ''grpc''
                  else if has_suffix p ''4318'' then ''http/protobuf'' else ''http/protobuf''
      | None \<Rightarrow> ''http/protobuf'')"

definition get_protocol :: "string option \<Rightarrow> traces_config \<Rightarrow> string" where
  "get_protocol port t =
     (if has_traces_consumer t then ''''
      else if traces_protocol t \<noteq> [] then traces_protocol t
      else if common_protocol t \<noteq> [] then common_protocol t
      else guess_protocol port)"

text \<open>The parts of the configuration that the mutator reads.\<close>

record mutator_config =
  mc_injector :: sdk_inject
  mc_features :: bits
  mc_traces :: traces_config

record pod_mutator =
  pm_matcher :: pod_matcher
  pm_cfg :: mutator_config
  pm_endpoint :: string
  pm_proto :: string
  pm_headers :: strmap

text \<open>
  \<open>NewPodMutator\<close>; \<open>http_opts\<close> and \<open>grpc_opts\<close> are the results of the two functions of
  OBI that build the options of an OTLP endpoint.
\<close>

definition new_pod_mutator ::
  "string option \<Rightarrow> string + otlp_options \<Rightarrow> string + otlp_options \<Rightarrow> mutator_config \<Rightarrow> pod_matcher
     \<Rightarrow> string + pod_mutator" where
  "new_pod_mutator port http_opts grpc_opts cfg matcher =
     (let proto = get_protocol port (mc_traces cfg);
          opts = (if proto \<in> {''http/json'', ''http/protobuf'', ''''} then http_opts
                  else if proto = ''grpc'' then grpc_opts
                  else Inl (''unsupported SDK export protocol '' @ proto))
      in case opts of
           Inl err \<Rightarrow> Inl err
         | Inr opt \<Rightarrow> Inr
             \<lparr>pm_matcher = matcher, pm_cfg = cfg,
              pm_endpoint = opt_scheme opt @ ''://'' @ opt_endpoint opt @ opt_base_url_path opt,
              pm_proto = (if common_protocol (mc_traces cfg) = [] then ''http/protobuf''
                          else common_protocol (mc_traces cfg)),
              pm_headers = opt_headers opt\<rparr>)"

abbreviation pm_inject :: "pod_mutator \<Rightarrow> sdk_inject" where
  "pm_inject pm \<equiv> mc_injector (pm_cfg pm)"

text \<open>\<open>CanInstrument\<close>: the loop over the enabled SDKs.\<close>

definition can_instrument :: "pod_mutator \<Rightarrow> instrumentable \<Rightarrow> bool" where
  "can_instrument pm kind = list_ex (\<lambda>k. k = kind) (enabled_sdks (pm_inject pm))"

subsection \<open>Service attributes\<close>

definition choose_label_or_annotation ::
  "object_meta \<Rightarrow> bool \<Rightarrow> string \<Rightarrow> string list \<Rightarrow> string" where
  "choose_label_or_annotation meta use_labels res label_keys =
     (if mstr (om_annotations meta) (resource_prefix @ res) \<noteq> []
        then mstr (om_annotations meta) (resource_prefix @ res)
      else if use_labels then
        (case find (\<lambda>k. mstr (om_labels meta) k \<noteq> []) label_keys of
           Some k \<Rightarrow> mstr (om_labels meta) k | None \<Rightarrow> [])
      else [])"

definition name_attributes :: "string list" where
  "name_attributes =
     [''k8s.deployment.name'', ''k8s.replicaset.name'', ''k8s.statefulset.name'',
      ''k8s.daemonset.name'', ''k8s.cronjob.name'', ''k8s.job.name'']"

definition choose_service_name :: "object_meta \<Rightarrow> bool \<Rightarrow> string \<Rightarrow> strmap \<Rightarrow> string" where
  "choose_service_name meta use_labels pod_name resources =
     (let name = choose_label_or_annotation meta use_labels ''service.name'' label_app_name
      in if name \<noteq> [] then name
         else case find (\<lambda>k. mstr resources k \<noteq> []) name_attributes of
           Some k \<Rightarrow> mstr resources k | None \<Rightarrow> pod_name)"

text \<open>A parsed image reference: whether it has a name, its tag and its digest.\<close>

record image_ref =
  ir_named :: bool
  ir_tag :: "string option"
  ir_digest :: "string option"

datatype image_error = ImageParse string | CannotRetrieveImage

definition parse_service_version_from_image ::
  "(string \<Rightarrow> string + image_ref) \<Rightarrow> string \<Rightarrow> image_error + string" where
  "parse_service_version_from_image ref_parse img =
     (case ref_parse img of
        Inl err \<Rightarrow> Inl (ImageParse err)
      | Inr r \<Rightarrow>
          if \<not> ir_named r then Inl CannotRetrieveImage
          else let tag = (case ir_tag r of Some t \<Rightarrow> t | None \<Rightarrow> []);
                   dig = (case ir_digest r of Some d \<Rightarrow> d | None \<Rightarrow> [])
               in if dig \<noteq> [] then (if tag \<noteq> [] then Inr (tag @ ''@'' @ dig) else Inr dig)
                  else if tag \<noteq> [] then Inr tag
                  else Inl CannotRetrieveImage)"

definition choose_service_version ::
  "(string \<Rightarrow> string + image_ref) \<Rightarrow> object_meta \<Rightarrow> bool \<Rightarrow> container \<Rightarrow> string" where
  "choose_service_version ref_parse meta use_labels c =
     (let v = choose_label_or_annotation meta use_labels ''service.version'' label_app_version
      in if v \<noteq> [] then v
         else case parse_service_version_from_image ref_parse (c_image c) of
           Inl err \<Rightarrow> [] | Inr v \<Rightarrow> v)"

definition choose_service_namespace :: "object_meta \<Rightarrow> bool \<Rightarrow> string \<Rightarrow> string" where
  "choose_service_namespace meta use_labels namespace_name =
     (let ns = choose_label_or_annotation meta use_labels ''service.namespace'' []
      in if ns \<noteq> [] then ns else namespace_name)"

definition create_service_instance_id :: "object_meta \<Rightarrow> string \<Rightarrow> string \<Rightarrow> string \<Rightarrow> string" where
  "create_service_instance_id meta namespace_name pod_name container_name =
     (let sid = choose_label_or_annotation meta False ''service.instance.id'' []
      in if sid \<noteq> [] then sid
         else if namespace_name \<noteq> [] \<and> pod_name \<noteq> [] \<and> container_name \<noteq> []
           then join ''.'' [namespace_name, pod_name, container_name]
         else [])"

subsection \<open>Resource attributes\<close>

definition get_resource_attribute :: "string \<Rightarrow> string" where
  "get_resource_attribute kind =
     (let k = to_lower kind in
      if k = ''replicaset'' then ''k8s.replicaset.name''
      else if k = ''deployment'' then ''k8s.deployment.name''
      else if k = ''statefulset'' then ''k8s.statefulset.name''
      else if k = ''daemonset'' then ''k8s.daemonset.name''
      else if k = ''job'' then ''k8s.job.name''
      else if k = ''cronjob'' then ''k8s.cronjob.name''
      else '''')"

fun add_owner_attributes :: "(string \<times> string) list \<Rightarrow> strmap \<Rightarrow> strmap" where
  "add_owner_attributes [] resources = resources"
| "add_owner_attributes ((kind, v) # os) resources =
     add_owner_attributes os
       (if get_resource_attribute kind \<noteq> [] then mput resources (get_resource_attribute kind) v
        else resources)"

definition add_parent_resource_labels :: "object_meta \<Rightarrow> strmap \<Rightarrow> bool \<Rightarrow> strmap" where
  "add_parent_resource_labels meta resources include_uid =
     (let resources = add_owner_attributes (owners_from meta) resources
      in if include_uid
         then add_owner_attributes (map (\<lambda>r. (or_kind r, or_uid r)) (om_owner_refs meta)) resources
         else resources)"

fun add_annotations :: "strmap \<Rightarrow> strmap \<Rightarrow> strmap" where
  "add_annotations attrs [] = attrs"
| "add_annotations attrs ((k, v) # as) =
     (if has_prefix k resource_prefix
      then add_annotations (mput attrs (trim_prefix k resource_prefix) v) as
      else add_annotations attrs as)"

text \<open>
  \<open>setResourceAttributes\<close>: the container it leaves and the map it returns. The attributes
  before the annotations are named, so that the precedence can be stated.
\<close>

definition base_attributes :: "sdk_resource \<Rightarrow> object_meta \<Rightarrow> strmap" where
  "base_attributes cfg meta =
     add_parent_resource_labels meta (mput_all [] (res_attributes cfg)) (add_k8s_uid_attributes cfg)"

definition set_resource_attributes ::
  "(string \<Rightarrow> string + image_ref) \<Rightarrow> pod_mutator \<Rightarrow> object_meta \<Rightarrow> container \<Rightarrow> container \<times> strmap" where
  "set_resource_attributes ref_parse pm meta c =
     (let cfg = inj_resources (pm_inject pm);
          use_labels = use_labels_for_resource_attributes cfg;
          c = set_env_var c envInjectorOtelK8sContainerName (c_name c);
          attrs = base_attributes cfg meta;
          (c, namespace) = set_env_var_from_field_path c envInjectorOtelK8sNamespaceName ''metadata.namespace'';
          (c, pod_name) = set_env_var_from_field_path c envInjectorOtelK8sPodName ''metadata.name'';
          (c, node) = set_env_var_from_field_path c envOtelK8sNodeName ''spec.nodeName'';
          attrs = mput attrs ''k8s.node.name'' node;
          c = (if add_k8s_uid_attributes cfg
               then fst (set_env_var_from_field_path c envInjectorOtelK8sPodUID ''metadata.uid'') else c);
          c = set_env_var c envInjectorOtelServiceNamespace (choose_service_namespace meta use_labels namespace);
          c = set_env_var c envInjectorOtelServiceName (choose_service_name meta use_labels pod_name attrs);
          c = set_env_var c envInjectorOtelServiceVersion (choose_service_version ref_parse meta use_labels c);
          sid = create_service_instance_id meta namespace pod_name (c_name c);
          attrs = (if sid \<noteq> [] then mput attrs ''service.instance.id'' sid else attrs)
      in (c, add_annotations attrs (om_annotations meta)))"

subsection \<open>Propagators, sampler, exporters\<close>

definition configure_propagators :: "container \<Rightarrow> string list \<Rightarrow> container" where
  "configure_propagators c ps = set_env_var c envOtelPropagatorsName (join '','' ps)"

definition configure_sampler :: "container \<Rightarrow> sampler_config \<Rightarrow> container" where
  "configure_sampler c s =
     set_env_var (set_env_var c envOtelTracesSamplerName (sampler_name s))
       envOtelTracesSamplerArgName (sampler_arg s)"

definition configure_exporters :: "container \<Rightarrow> export_modes \<Rightarrow> container" where
  "configure_exporters c m =
     (let c = (if can_export_metrics m then set_env_var c envOtelMetricsExporterName ''otlp''
               else set_env_var c envOtelMetricsExporterName ''none'');
          c = (if can_export_traces m then set_env_var c envOtelTracesExporterName ''otlp''
               else set_env_var c envOtelTracesExporterName ''none'')
      in if can_export_logs m then set_env_var c envOtelLogsExporterName ''otlp''
         else set_env_var c envOtelLogsExporterName ''none'')"

text \<open>The sampler and the export modes that \<open>configureContainerEnvVars\<close> chooses.\<close>

definition chosen_sampler :: "pod_mutator \<Rightarrow> selector option \<Rightarrow> sampler_config option" where
  "chosen_sampler pm sel =
     (let s = (case sel of Some x \<Rightarrow> sel_sampler x | None \<Rightarrow> None)
      in case s of Some x \<Rightarrow> Some x | None \<Rightarrow> default_sampler (pm_inject pm))"

definition chosen_export_modes :: "pod_mutator \<Rightarrow> selector option \<Rightarrow> export_modes" where
  "chosen_export_modes pm sel =
     (let e = inj_export (pm_inject pm);
          m = new_export_modes;
          m = (if traces_enabled e then allow_traces m else m);
          m = (if metrics_enabled e then allow_metrics m else m);
          m = (if logs_enabled e then allow_logs m else m)
      in case sel of
           Some x \<Rightarrow> if sel_export_modes x \<noteq> export_mode_unset then sel_export_modes x else m
         | None \<Rightarrow> m)"

definition attribute_list :: "strmap \<Rightarrow> string list" where
  "attribute_list attrs = map (\<lambda>k. k @ ''='' @ mstr attrs k) (sort (mkeys attrs))"

definition inject_env_vars :: "strmap \<Rightarrow> container \<Rightarrow> container" where
  "inject_env_vars attrs c =
     (if length attrs > 0
      then set_env_var c envInjectorOtelExtraResourceAttrs (join '','' (attribute_list attrs))
      else c)"

definition configure_container_env_vars ::
  "(string \<Rightarrow> string + image_ref) \<Rightarrow> pod_mutator \<Rightarrow> object_meta \<Rightarrow> container \<Rightarrow> selector option \<Rightarrow> container" where
  "configure_container_env_vars ref_parse pm meta c sel =
     (let (c, attrs) = set_resource_attributes ref_parse pm meta c;
          c = (if length (propagators (pm_inject pm)) > 0
               then configure_propagators c (propagators (pm_inject pm)) else c);
          c = (case chosen_sampler pm sel of Some s \<Rightarrow> configure_sampler c s | None \<Rightarrow> c);
          c = configure_exporters c (chosen_export_modes pm sel);
          attrs = (if any_span_metrics (mc_features (pm_cfg pm))
                   then mput attrs ''span.metrics.skip'' ''true'' else attrs)
      in inject_env_vars attrs c)"

text \<open>\<open>disableUndesiredSDKs\<close>: the switch, and the loop over the supported languages.\<close>

fun sdk_env_name :: "instrumentable \<Rightarrow> string option" where
  "sdk_env_name InstrumentableDotnet = Some envDotnetEnabledName"
| "sdk_env_name InstrumentableJava = Some envJavaEnabledName"
| "sdk_env_name InstrumentableNodejs = Some envNodejsEnabledName"
| "sdk_env_name InstrumentablePython = Some envPythonEnabledName"
| "sdk_env_name _ = None"

fun disable_sdks :: "pod_mutator \<Rightarrow> instrumentable list \<Rightarrow> container \<Rightarrow> container" where
  "disable_sdks pm [] c = c"
| "disable_sdks pm (lang # langs) c =
     disable_sdks pm langs
       (if can_instrument pm lang then c
        else case sdk_env_name lang of
               Some n \<Rightarrow> set_env_var_even_if_empty c n ''''
             | None \<Rightarrow> c)"

definition disable_undesired_sdks :: "pod_mutator \<Rightarrow> container \<Rightarrow> container" where
  "disable_undesired_sdks pm c = disable_sdks pm supported_sdk_langs c"


subsection \<open>Each step keeps to its names\<close>

definition resource_env_names :: "string set" where
  "resource_env_names =
     {envInjectorOtelK8sContainerName, envInjectorOtelK8sNamespaceName, envInjectorOtelK8sPodName,
      envOtelK8sNodeName, envInjectorOtelK8sPodUID, envInjectorOtelServiceNamespace,
      envInjectorOtelServiceName, envInjectorOtelServiceVersion}"

definition config_env_names :: "string set" where
  "config_env_names = resource_env_names \<union>
     {envOtelPropagatorsName, envOtelTracesSamplerName, envOtelTracesSamplerArgName,
      envOtelMetricsExporterName, envOtelTracesExporterName, envOtelLogsExporterName,
      envInjectorOtelExtraResourceAttrs}"

definition sdk_switch_names :: "string set" where
  "sdk_switch_names =
     {envDotnetEnabledName, envJavaEnabledName, envNodejsEnabledName, envPythonEnabledName}"

lemma add_owner_attributes_frame:
  "k \<notin> get_resource_attribute ` fst ` set os \<Longrightarrow> mget (add_owner_attributes os m) k = mget m k"
  by (induction os m rule: add_owner_attributes.induct) auto

interpretation resources: env_edit "\<lambda>c. fst (set_resource_attributes rp pm meta c)" resource_env_names
  for rp pm meta
  by unfold_locales
     (auto simp: set_resource_attributes_def Let_def case_prod_beta resource_env_names_def)

interpretation sampler: env_edit "\<lambda>c. configure_sampler c s" "{envOtelTracesSamplerName, envOtelTracesSamplerArgName}"
  for s
  by unfold_locales (auto simp: configure_sampler_def)

interpretation propagation: env_edit "\<lambda>c. configure_propagators c ps" "{envOtelPropagatorsName}"
  for ps
  by unfold_locales (auto simp: configure_propagators_def)

interpretation exporters: env_edit "\<lambda>c. configure_exporters c m"
  "{envOtelMetricsExporterName, envOtelTracesExporterName, envOtelLogsExporterName}" for m
  by unfold_locales (auto simp: configure_exporters_def Let_def)

interpretation inject_vars: env_edit "\<lambda>c. inject_env_vars attrs c" "{envInjectorOtelExtraResourceAttrs}"
  for attrs
  by unfold_locales (auto simp: inject_env_vars_def)

lemmas step_frames =
  resources.frame sampler.frame propagation.frame exporters.frame inject_vars.frame

lemmas step_keeps =
  resources.keeps sampler.keeps propagation.keeps exporters.keeps inject_vars.keeps

interpretation configured: env_edit "\<lambda>c. configure_container_env_vars rp pm meta c sel" config_env_names
  for rp pm meta sel
proof (rule env_edit.intro)
  fix n c assume n: "n \<notin> config_env_names"
  then have r: "n \<notin> resource_env_names" by (simp add: config_env_names_def)
  from n show "env_entry (configure_container_env_vars rp pm meta c sel) n = env_entry c n"
    by (simp add: configure_container_env_vars_def Let_def case_prod_beta step_frames r
        config_env_names_def split: option.splits)
next
  fix c
  have sub: "set (env_names c) \<subseteq> set (env_names (fst (set_resource_attributes rp pm meta c)))"
    by (rule resources.grows)
  have pgat: "set (env_names c) \<subseteq> set (env_names (configure_propagators c ps))" for c ps
    by (rule propagation.grows)
  have samp: "set (env_names c) \<subseteq> set (env_names (configure_sampler c s))" for c s
    by (rule sampler.grows)
  have expo: "set (env_names c) \<subseteq> set (env_names (configure_exporters c s))" for c s
    by (rule exporters.grows)
  have inj: "set (env_names c) \<subseteq> set (env_names (inject_env_vars m c))" for c m
    by (rule inject_vars.grows)
  show "set (env_names c) \<subseteq> set (env_names (configure_container_env_vars rp pm meta c sel))"
    unfolding configure_container_env_vars_def Let_def case_prod_beta
    by (intro order_trans [OF _ inj] order_trans [OF _ expo])
       (auto split: option.split intro: subsetD [OF sub] subsetD [OF pgat] subsetD [OF samp])
qed (simp_all add: configure_container_env_vars_def Let_def case_prod_beta step_keeps split: option.split)

interpretation switches: env_edit "\<lambda>c. disable_undesired_sdks pm c" sdk_switch_names for pm
  by unfold_locales (auto simp: disable_undesired_sdks_def supported_sdk_langs_def sdk_switch_names_def)

subsection \<open>Resource attributes\<close>

lemma mget_add_annotations:
  "wf_map as \<Longrightarrow>
     mget (add_annotations attrs as) k =
       (case mget as (resource_prefix @ k) of Some v \<Rightarrow> Some v | None \<Rightarrow> mget attrs k)"
proof (induction attrs as rule: add_annotations.induct)
  case (2 attrs k' v as)
  then have wf: "wf_map as" and new: "mget as k' = None"
    by (auto simp: wf_map_Cons map_of_eq_None_iff)
  show ?case
  proof (cases "has_prefix k' resource_prefix")
    case True
    then obtain t where t: "k' = resource_prefix @ t" by (auto simp: has_prefix_iff)
    with 2 wf new True show ?thesis
      by (auto split: option.splits)
  next
    case False
    then have "k' \<noteq> resource_prefix @ k" by (metis has_prefix_append)
    with 2 wf False show ?thesis by auto
  qed
qed simp

lemma wf_add_annotations: "wf_map attrs \<Longrightarrow> wf_map (add_annotations attrs as)"
  by (induction attrs as rule: add_annotations.induct) (auto simp: wf_map_mput)

lemma wf_add_owner_attributes: "wf_map m \<Longrightarrow> wf_map (add_owner_attributes os m)"
  by (induction os m rule: add_owner_attributes.induct) (auto simp: wf_map_mput)

lemma wf_base_attributes: "wf_map (base_attributes cfg meta)"
  unfolding base_attributes_def add_parent_resource_labels_def Let_def
  by (auto intro!: wf_add_owner_attributes wf_map_mput_all)

lemma wf_set_resource_attributes: "wf_map (snd (set_resource_attributes rp pm meta c))"
  unfolding set_resource_attributes_def Let_def case_prod_beta snd_conv
  by (intro wf_add_annotations) (auto intro!: wf_base_attributes)

definition service_instance_id :: "object_meta \<Rightarrow> container \<Rightarrow> string" where
  "service_instance_id meta c =
     create_service_instance_id meta (''$('' @ envInjectorOtelK8sNamespaceName @ '')'')
       (''$('' @ envInjectorOtelK8sPodName @ '')'') (c_name c)"

lemma mget_set_resource_attributes:
  assumes "wf_map (om_annotations meta)"
  shows "mget (snd (set_resource_attributes rp pm meta c)) k =
    (case mget (om_annotations meta) (resource_prefix @ k) of Some v \<Rightarrow> Some v
     | None \<Rightarrow>
         if k = ''service.instance.id'' \<and> service_instance_id meta c \<noteq> []
           then Some (service_instance_id meta c)
         else if k = ''k8s.node.name'' then Some (''$('' @ envOtelK8sNodeName @ '')'')
         else mget (base_attributes (inj_resources (pm_inject pm)) meta) k)"
  using assms
  by (simp add: set_resource_attributes_def Let_def case_prod_beta mget_add_annotations
      service_instance_id_def split: option.split)

lemma set_resource_service_name:
  "env_entry (fst (set_resource_attributes rp pm meta c)) envInjectorOtelServiceName =
     Some (plain_entry envInjectorOtelServiceName
       (choose_service_name meta (use_labels_for_resource_attributes (inj_resources (pm_inject pm)))
          (''$('' @ envInjectorOtelK8sPodName @ '')'')
          (mput (base_attributes (inj_resources (pm_inject pm)) meta) ''k8s.node.name''
             (''$('' @ envOtelK8sNodeName @ '')''))))
   \<or> choose_service_name meta (use_labels_for_resource_attributes (inj_resources (pm_inject pm)))
          (''$('' @ envInjectorOtelK8sPodName @ '')'')
          (mput (base_attributes (inj_resources (pm_inject pm)) meta) ''k8s.node.name''
             (''$('' @ envOtelK8sNodeName @ '')'')) = []"
  by (simp add: set_resource_attributes_def Let_def case_prod_beta)

lemma choose_service_name_nonempty:
  "pod_name \<noteq> [] \<Longrightarrow> choose_service_name meta b pod_name res \<noteq> []"
  by (auto simp: choose_service_name_def Let_def find_Some_iff split: option.splits)


subsection \<open>The order of a map does not matter\<close>

lemma mstr_cong: "mget m = mget m' \<Longrightarrow> mstr m = mstr m'"
  by (simp add: mstr_def fun_eq_iff)

lemma sort_keys_cong:
  assumes "wf_map m" "wf_map m'" "mget m = mget m'"
  shows "sort (mkeys m) = sort (mkeys m')"
proof -
  have "set (mkeys m) = set (mkeys m')"
    using assms(3) by (simp add: mkeys_def) (metis dom_map_of_conv_image_fst)
  with assms(1,2) show ?thesis
    by (metis mkeys_def wf_map_def distinct_remdups_id sorted_list_of_set_sort_remdups)
qed

lemma inject_env_vars_cong:
  assumes "wf_map m" "wf_map m'" "mget m = mget m'"
  shows "inject_env_vars m c = inject_env_vars m' c"
proof -
  have "m = [] \<longleftrightarrow> m' = []"
    using assms(3) by (metis dom_eq_empty_conv dom_map_of_conv_image_fst image_is_empty set_empty)
  moreover have "attribute_list m = attribute_list m'"
    using sort_keys_cong [OF assms] mstr_cong [OF assms(3)] by (simp add: attribute_list_def)
  ultimately show ?thesis by (auto simp: inject_env_vars_def)
qed

lemma mget_mput_cong: "mget m = mget m' \<Longrightarrow> mget (mput m k v) = mget (mput m' k v)"
  by (simp add: fun_eq_iff)

lemma add_owner_attributes_cong:
  "mget m = mget m' \<Longrightarrow> mget (add_owner_attributes os m) = mget (add_owner_attributes os m')"
proof (induction os m arbitrary: m' rule: add_owner_attributes.induct)
  case (2 kind v os m)
  show ?case
    unfolding add_owner_attributes.simps
    by (rule "2.IH") (use "2.prems" mget_mput_cong [OF "2.prems"] in \<open>simp split: if_split\<close>)
qed simp

lemma base_attributes_cong:
  assumes "wf_map (res_attributes cfg)" "wf_map a'" "mget (res_attributes cfg) = mget a'"
  shows "mget (base_attributes (cfg\<lparr>res_attributes := a'\<rparr>) (meta\<lparr>om_annotations := an\<rparr>))
       = mget (base_attributes cfg meta)"
proof -
  have "mget (mput_all [] a') = mget (mput_all [] (res_attributes cfg))"
    using assms by (simp add: fun_eq_iff mget_mput_all)
  then have eq: "mget (add_owner_attributes os (mput_all [] a')) =
      mget (add_owner_attributes os (mput_all [] (res_attributes cfg)))" for os
    by (rule add_owner_attributes_cong)
  have owners: "owners_from (meta\<lparr>om_annotations := an\<rparr>) = owners_from meta"
    by (simp add: owners_from_def)
  show ?thesis
    unfolding base_attributes_def add_parent_resource_labels_def owners Let_def
    by (cases "add_k8s_uid_attributes cfg") (simp_all add: eq add_owner_attributes_cong [OF eq])
qed

subsection \<open>What the configuration chooses\<close>

lemma chosen_modes_default:
  assumes "\<forall>s. sel = Some s \<longrightarrow> sel_export_modes s = export_mode_unset"
  shows "can_export_traces (chosen_export_modes pm sel) = traces_enabled (inj_export (pm_inject pm))"
    and "can_export_metrics (chosen_export_modes pm sel) = metrics_enabled (inj_export (pm_inject pm))"
    and "can_export_logs (chosen_export_modes pm sel) = logs_enabled (inj_export (pm_inject pm))"
  using assms
  by (cases sel; simp add: chosen_export_modes_def Let_def export_mode_defs)+

lemma chosen_modes_override:
  "sel_export_modes s \<noteq> export_mode_unset \<Longrightarrow> chosen_export_modes pm (Some s) = sel_export_modes s"
  by (simp add: chosen_export_modes_def)

definition exporter_value :: "bool \<Rightarrow> string" where
  "exporter_value b = (if b then ''otlp'' else ''none'')"

lemma configure_exporters_entries:
  "env_entry (configure_exporters c m) envOtelTracesExporterName =
     Some (plain_entry envOtelTracesExporterName (exporter_value (can_export_traces m)))"
  "env_entry (configure_exporters c m) envOtelMetricsExporterName =
     Some (plain_entry envOtelMetricsExporterName (exporter_value (can_export_metrics m)))"
  "env_entry (configure_exporters c m) envOtelLogsExporterName =
     Some (plain_entry envOtelLogsExporterName (exporter_value (can_export_logs m)))"
  by (simp_all add: configure_exporters_def Let_def exporter_value_def)

lemma configured_exporter:
  "n \<in> {envOtelMetricsExporterName, envOtelTracesExporterName, envOtelLogsExporterName} \<Longrightarrow>
   env_entry (configure_container_env_vars rp pm meta c sel) n =
     env_entry (configure_exporters c' (chosen_export_modes pm sel)) n"
  by (auto simp: configure_container_env_vars_def Let_def case_prod_beta inject_vars.frame
      configure_exporters_entries)


lemma choose_cong:
  assumes "mget (om_annotations meta) = mget an"
  shows "choose_label_or_annotation (meta\<lparr>om_annotations := an\<rparr>) b r ks = choose_label_or_annotation meta b r ks"
  using assms by (simp add: choose_label_or_annotation_def mstr_def cong: option.case_cong)

lemma choose_service_name_cong:
  assumes "mget (om_annotations meta) = mget an" "mget res = mget res'"
  shows "choose_service_name (meta\<lparr>om_annotations := an\<rparr>) b p res' = choose_service_name meta b p res"
  by (simp add: choose_service_name_def Let_def choose_cong [OF assms(1)] mstr_cong [OF assms(2)] cong: option.case_cong)

definition with_attributes :: "pod_mutator \<Rightarrow> strmap \<Rightarrow> pod_mutator" where
  "with_attributes pm a =
     pm\<lparr>pm_cfg := (pm_cfg pm)\<lparr>mc_injector := (pm_inject pm)\<lparr>inj_resources :=
       (inj_resources (pm_inject pm))\<lparr>res_attributes := a\<rparr>\<rparr>\<rparr>\<rparr>"

lemma set_resource_attributes_cong:
  assumes wf: "wf_map (om_annotations meta)" "wf_map an"
    "wf_map (res_attributes (inj_resources (pm_inject pm)))" "wf_map a"
    and eq: "mget (om_annotations meta) = mget an"
    "mget (res_attributes (inj_resources (pm_inject pm))) = mget a"
  shows "fst (set_resource_attributes rp (with_attributes pm a) (meta\<lparr>om_annotations := an\<rparr>) c) =
         fst (set_resource_attributes rp pm meta c)"
    and "mget (snd (set_resource_attributes rp (with_attributes pm a) (meta\<lparr>om_annotations := an\<rparr>) c)) =
         mget (snd (set_resource_attributes rp pm meta c))"
proof -
  let ?cfg = "inj_resources (pm_inject pm)"
  let ?m = "meta\<lparr>om_annotations := an\<rparr>"
  have base: "mget (base_attributes (?cfg\<lparr>res_attributes := a\<rparr>) ?m) = mget (base_attributes ?cfg meta)"
    by (rule base_attributes_cong) (use assms in auto)
  have name: "choose_service_name ?m b p (mput (base_attributes (?cfg\<lparr>res_attributes := a\<rparr>) ?m) k v) =
      choose_service_name meta b p (mput (base_attributes ?cfg meta) k v)" for b p k v
    by (rule choose_service_name_cong [OF eq(1)]) (rule mget_mput_cong [OF base [symmetric]])
  have other: "choose_service_namespace ?m b p = choose_service_namespace meta b p"
      "choose_service_version rp ?m b c' = choose_service_version rp meta b c'"
      "create_service_instance_id ?m n p s = create_service_instance_id meta n p s" for b p c' n s
    by (simp_all add: choose_service_namespace_def choose_service_version_def
        create_service_instance_id_def choose_cong [OF eq(1)])
  show "fst (set_resource_attributes rp (with_attributes pm a) ?m c) = fst (set_resource_attributes rp pm meta c)"
    by (simp add: set_resource_attributes_def with_attributes_def Let_def case_prod_beta name other)
  have "service_instance_id ?m c = service_instance_id meta c"
    by (simp add: service_instance_id_def other)
  then show "mget (snd (set_resource_attributes rp (with_attributes pm a) ?m c)) =
      mget (snd (set_resource_attributes rp pm meta c))"
    by (simp add: fun_eq_iff mget_set_resource_attributes wf with_attributes_def base eq(1) cong: option.case_cong)
qed

subsection \<open>A sample configuration\<close>

text \<open>Concrete values that the witnesses below and in other theories apply the theorems to.\<close>

definition sample_selector :: selector where
  "sample_selector =
     \<lparr>sel_path = None, sel_open_ports = 0, sel_metadata = [(''k8s_namespace'', \<lambda>v. v = ''shop'')],
      sel_pod_labels = [], sel_pod_annotations = [], sel_export_modes = export_mode_unset,
      sel_sampler = None\<rparr>"

definition sample_inject :: sdk_inject where
  "sample_inject =
     \<lparr>inj_instrument = [sample_selector],
      inj_webhook = \<lparr>wh_enable = True, wh_port = 8443, wh_cert_path = ''/c'', wh_key_path = ''/k'', wh_timeout = 30\<rparr>,
      no_auto_restart = False, image_volume_path = [], host_path_volume_dir = ''/var/lib/beyla'',
      sdk_pkg_version = ''v0.0.8'', host_mount_path = ''/mnt'', manage_sdk_versions = True,
      default_sampler = Some \<lparr>sampler_name = ''always_on'', sampler_arg = []\<rparr>,
      propagators = [''tracecontext'', ''baggage''],
      inj_export = \<lparr>exp_traces = None, exp_metrics = Some False, exp_logs = None\<rparr>,
      inj_resources = \<lparr>res_attributes = [(''team'', ''a''), (''env'', ''prod'')],
        add_k8s_uid_attributes = False, use_labels_for_resource_attributes = True\<rparr>,
      enabled_sdks = [InstrumentableJava, InstrumentableNodejs], inj_debug = False\<rparr>"

definition sample_mutator :: pod_mutator where
  "sample_mutator =
     \<lparr>pm_matcher = new_pod_matcher sample_inject,
      pm_cfg = \<lparr>mc_injector = sample_inject, mc_features = 0,
        mc_traces = \<lparr>has_traces_consumer = False, common_protocol = [], traces_protocol = []\<rparr>\<rparr>,
      pm_endpoint = ''http://otel:4318'', pm_proto = ''http/protobuf'', pm_headers = [(''X-Scope'', ''1'')]\<rparr>"

definition sample_container :: container where
  "sample_container =
     \<lparr>c_name = ''app'', c_image = ''shop/app:1.2'',
      c_env = [plain_entry ''HOME'' ''/root''], c_mounts = []\<rparr>"

definition sample_meta :: object_meta where
  "sample_meta =
     \<lparr>om_name = ''app-7d9-x'', om_namespace = ''shop'', om_labels = [],
      om_annotations = [(''resource.opentelemetry.io/tier'', ''gold''), (''note'', ''n'')],
      om_owner_refs = [\<lparr>or_api_version = ''apps/v1'', or_kind = ''ReplicaSet'',
        or_name = ''app-7d9'', or_uid = ''u1''\<rparr>]\<rparr>"

text \<open>An image parser that knows the sample's reference.\<close>

definition sample_ref_parse :: "string \<Rightarrow> string + image_ref" where
  "sample_ref_parse img =
     (if img = ''shop/app:1.2'' then Inr \<lparr>ir_named = True, ir_tag = Some ''1.2'', ir_digest = None\<rparr>
      else Inl ''invalid reference format'')"

subsection \<open>Properties\<close>

text \<open>
  Permuting the pod's annotations and the configured attributes (as maps, they stay the same)
  yields the same container: the loops over these two maps only fill another map, which is
  written out sorted.
\<close>

lemma configure_map_order:
  assumes "wf_map (om_annotations meta)" "wf_map an"
    "wf_map (res_attributes (inj_resources (pm_inject pm)))" "wf_map a"
    and "mget (om_annotations meta) = mget an"
    and "mget (res_attributes (inj_resources (pm_inject pm))) = mget a"
  shows "configure_container_env_vars rp (with_attributes pm a) (meta\<lparr>om_annotations := an\<rparr>) c sel =
         configure_container_env_vars rp pm meta c sel"
proof -
  note cong = set_resource_attributes_cong [OF assms]
  let ?l = "snd (set_resource_attributes rp (with_attributes pm a) (meta\<lparr>om_annotations := an\<rparr>) c)"
  let ?r = "snd (set_resource_attributes rp pm meta c)"
  have same: "mc_features (pm_cfg (with_attributes pm a)) = mc_features (pm_cfg pm)"
    "propagators (pm_inject (with_attributes pm a)) = propagators (pm_inject pm)"
    "chosen_sampler (with_attributes pm a) sel = chosen_sampler pm sel"
    "chosen_export_modes (with_attributes pm a) sel = chosen_export_modes pm sel"
    by (simp_all add: with_attributes_def chosen_sampler_def chosen_export_modes_def cong: option.case_cong)
  have inj: "inject_env_vars ?l d = inject_env_vars ?r d"
    "inject_env_vars (mput ?l k v) d = inject_env_vars (mput ?r k v) d" for d k v
    by (auto intro!: inject_env_vars_cong mget_mput_cong wf_set_resource_attributes wf_map_mput simp: cong)
  show ?thesis
    by (simp add: configure_container_env_vars_def Let_def case_prod_beta same inj cong(1) cong: option.case_cong)
qed

text \<open>
  The sampler of a container is the one of the selector that matched, or else the
  default one; each of its two settings is written where it is not empty, and the
  container's own setting stays where it is empty or where there is no sampler.
\<close>

lemma sampler_precedence:
  "env_entry (configure_container_env_vars rp pm meta c sel) envOtelTracesSamplerName =
     (case chosen_sampler pm sel of
        Some s \<Rightarrow> if sampler_name s \<noteq> [] then Some (plain_entry envOtelTracesSamplerName (sampler_name s))
                  else env_entry c envOtelTracesSamplerName
      | None \<Rightarrow> env_entry c envOtelTracesSamplerName)
   \<and> env_entry (configure_container_env_vars rp pm meta c sel) envOtelTracesSamplerArgName =
     (case chosen_sampler pm sel of
        Some s \<Rightarrow> if sampler_arg s \<noteq> [] then Some (plain_entry envOtelTracesSamplerArgName (sampler_arg s))
                  else env_entry c envOtelTracesSamplerArgName
      | None \<Rightarrow> env_entry c envOtelTracesSamplerArgName)
   \<and> (chosen_sampler pm sel = None \<longleftrightarrow>
        default_sampler (pm_inject pm) = None \<and> (case sel of Some s \<Rightarrow> sel_sampler s = None | None \<Rightarrow> True))"
  by (simp add: configure_container_env_vars_def Let_def case_prod_beta inject_vars.frame
      exporters.frame configure_sampler_def propagation.frame resources.frame resource_env_names_def
      split: option.split)
     (auto simp: chosen_sampler_def split: option.splits)

text \<open>
  The three exporters of a container are always set, each to otlp or none: by the
  export modes of the selector that matched where it has any, otherwise by the injector's
  export section, in which an absent flag means traces and metrics on and logs off.
\<close>

lemma exporters_follow_modes:
  "\<exists>modes.
     env_entry (configure_container_env_vars rp pm meta c sel) envOtelTracesExporterName =
       Some (plain_entry envOtelTracesExporterName (exporter_value (can_export_traces modes)))
   \<and> env_entry (configure_container_env_vars rp pm meta c sel) envOtelMetricsExporterName =
       Some (plain_entry envOtelMetricsExporterName (exporter_value (can_export_metrics modes)))
   \<and> env_entry (configure_container_env_vars rp pm meta c sel) envOtelLogsExporterName =
       Some (plain_entry envOtelLogsExporterName (exporter_value (can_export_logs modes)))
   \<and> (case sel of
        Some s \<Rightarrow> if sel_export_modes s \<noteq> export_mode_unset then modes = sel_export_modes s
                  else can_export_traces modes = (exp_traces (inj_export (pm_inject pm)) \<noteq> Some False)
                    \<and> can_export_metrics modes = (exp_metrics (inj_export (pm_inject pm)) \<noteq> Some False)
                    \<and> can_export_logs modes = (exp_logs (inj_export (pm_inject pm)) = Some True)
      | None \<Rightarrow> can_export_traces modes = (exp_traces (inj_export (pm_inject pm)) \<noteq> Some False)
             \<and> can_export_metrics modes = (exp_metrics (inj_export (pm_inject pm)) \<noteq> Some False)
             \<and> can_export_logs modes = (exp_logs (inj_export (pm_inject pm)) = Some True))"
proof (rule exI [of _ "chosen_export_modes pm sel"], intro conjI)
  show "case sel of
        Some s \<Rightarrow> if sel_export_modes s \<noteq> export_mode_unset then chosen_export_modes pm sel = sel_export_modes s
                  else can_export_traces (chosen_export_modes pm sel) = (exp_traces (inj_export (pm_inject pm)) \<noteq> Some False)
                    \<and> can_export_metrics (chosen_export_modes pm sel) = (exp_metrics (inj_export (pm_inject pm)) \<noteq> Some False)
                    \<and> can_export_logs (chosen_export_modes pm sel) = (exp_logs (inj_export (pm_inject pm)) = Some True)
      | None \<Rightarrow> can_export_traces (chosen_export_modes pm sel) = (exp_traces (inj_export (pm_inject pm)) \<noteq> Some False)
             \<and> can_export_metrics (chosen_export_modes pm sel) = (exp_metrics (inj_export (pm_inject pm)) \<noteq> Some False)
             \<and> can_export_logs (chosen_export_modes pm sel) = (exp_logs (inj_export (pm_inject pm)) = Some True)"
    using chosen_modes_default [of sel pm] chosen_modes_override
    by (auto simp: traces_enabled_def metrics_enabled_def logs_enabled_def split: option.splits)
qed (simp_all add: configured_exporter [of _ _ _ _ c _ c] configure_exporters_entries)

text \<open>
  The precedence of the resource attributes that the webhook computes for a container. An
  annotation \<open>resource.opentelemetry.io/k\<close> of the pod wins, then the service instance
  id (always present for a named container), then the reference to the node name, and last
  the owners' names and the configured attributes.
\<close>

lemma resource_attribute_precedence:
  assumes "wf_map (om_annotations meta)" and "c_name c \<noteq> []"
  shows "mget (snd (set_resource_attributes rp pm meta c)) k =
    (case mget (om_annotations meta) (''resource.opentelemetry.io/'' @ k) of
       Some v \<Rightarrow> Some v
     | None \<Rightarrow>
         if k = ''service.instance.id''
           then Some (''$(OTEL_INJECTOR_K8S_NAMESPACE_NAME).$(OTEL_INJECTOR_K8S_POD_NAME).'' @ c_name c)
         else if k = ''k8s.node.name'' then Some ''$(OTEL_RESOURCE_ATTRIBUTES_NODE_NAME)''
         else mget (base_attributes (inj_resources (pm_inject pm)) meta) k)"
proof (cases "mget (om_annotations meta) (resource_prefix @ k)")
  case None
  have "service_instance_id meta c =
      ''$(OTEL_INJECTOR_K8S_NAMESPACE_NAME).$(OTEL_INJECTOR_K8S_POD_NAME).'' @ c_name c"
    if "k = ''service.instance.id''"
    using None assms(2) that
    by (simp add: service_instance_id_def create_service_instance_id_def
        choose_label_or_annotation_def mstr_def)
  with None assms show ?thesis
    by (simp add: mget_set_resource_attributes resource_prefix_def [symmetric])
next
  case (Some v)
  with assms(1) show ?thesis
    by (simp add: mget_set_resource_attributes resource_prefix_def [symmetric])
qed

lemma name_attribute_kinds:
  "get_resource_attribute ''StatefulSet'' = ''k8s.statefulset.name''"
  "get_resource_attribute ''DaemonSet'' = ''k8s.daemonset.name''"
  by code_simp+

text \<open>
  With UID attributes requested, the name attribute of a pod owned by one StatefulSet or
  DaemonSet holds the owner's UID instead of its name, and the service name that the webhook
  derives for the pod from it is the UID; without them it is the owner's name.
\<close>

lemma uid_attributes_replace_names:
  assumes "om_owner_refs meta = [r]" and "or_kind r \<in> {''StatefulSet'', ''DaemonSet''}"
    and "or_uid r \<noteq> []" and "or_name r \<noteq> []" and "om_annotations meta = []"
  shows "choose_service_name meta False pod_name (add_parent_resource_labels meta [] with_uid) =
           (if with_uid then or_uid r else or_name r)"
proof -
  from assms(1,2) have owners: "owners_from meta = [(or_kind r, or_name r)]"
    by (auto simp: owners_from_def Let_def split: option.split)
  let ?v = "if with_uid then or_uid r else or_name r"
  have res: "mstr (add_parent_resource_labels meta [] with_uid) k =
      (if k = get_resource_attribute (or_kind r) then ?v else [])" for k
    using assms(1,2)
    by (auto simp: mstr_def add_parent_resource_labels_def owners name_attribute_kinds)
  have none: "choose_label_or_annotation meta False ''service.name'' label_app_name = []"
    by (simp add: choose_label_or_annotation_def mstr_def assms(5))
  from assms(3,4) have v: "?v \<noteq> []" by simp
  from assms(2) show ?thesis
    unfolding choose_service_name_def none res name_attributes_def Let_def
    by (elim insertE emptyE) (simp_all add: name_attribute_kinds v del: if_not_P if_P)
qed

end
