(* ===== verification/Pod_Mutator.thy ===== *)
theory Pod_Mutator
  imports Pod_Env "HOL-Library.Multiset"
begin

text \<open>
  The mutation of pods (pkg/webhook/mutator.go): the tests on running processes, the
  mutation of a pod's specification and labels, and the HTTP handler of the admission
  webhook. The decoders and encoders of the Kubernetes libraries are parameters of the
  handler; a request body that cannot be read is an error value.

  Go visits a map in any order; what an order can change of an instrumented container is
  stated over the multiset of its variables and the entries of each name.
\<close>

subsection \<open>Tests on a running process\<close>

definition preloads_something_else :: "pod_mutator \<Rightarrow> process_info \<Rightarrow> bool" where
  "preloads_something_else pm info =
     (case mget (pi_env info) envVarLdPreloadName of
        Some injector \<Rightarrow> injector \<noteq> envVarLdPreloadValue
      | None \<Rightarrow> False)"

definition already_instrumented_process :: "pod_mutator \<Rightarrow> process_info \<Rightarrow> bool" where
  "already_instrumented_process pm info =
     (if mstr (pi_pod_labels info) instrumentedLabel \<noteq> []
        then mstr (pi_pod_labels info) instrumentedLabel = package_version (pm_inject pm)
      else if mstr (pi_env info) envVarSDKVersion \<noteq> []
        then mstr (pi_env info) envVarSDKVersion = package_version (pm_inject pm)
      else False)"

subsection \<open>Mutation of a pod\<close>

definition get_label :: "object_meta \<Rightarrow> string \<Rightarrow> string option" where
  "get_label meta key = mget (om_labels meta) key"

definition add_label :: "object_meta \<Rightarrow> string \<Rightarrow> string \<Rightarrow> object_meta" where
  "add_label meta key v = meta\<lparr>om_labels := mput (om_labels meta) key v\<rparr>"

definition already_instrumented :: "pod_spec \<Rightarrow> object_meta \<Rightarrow> bool" where
  "already_instrumented spec meta \<longleftrightarrow>
     list_ex (\<lambda>c. find_env_var c envOtelInjectorConfigFileName \<noteq> None) (ps_containers spec) \<or>
     (case get_label meta instrumentedLabel of Some v \<Rightarrow> v \<noteq> [] | None \<Rightarrow> False)"

definition build_volume_definition :: "pod_mutator \<Rightarrow> volume" where
  "build_volume_definition pm =
     (if uses_image_volume (pm_inject pm)
      then \<lparr>vol_name = injectVolumeName,
            vol_source = ImageSource (image_volume_path (pm_inject pm)) ''IfNotPresent''\<rparr>
      else \<lparr>vol_name = injectVolumeName,
            vol_source = HostPathSource
              (join ''/'' [host_path_volume_dir (pm_inject pm), sdk_pkg_version (pm_inject pm)])
              ''DirectoryOrCreate''\<rparr>)"

text \<open>
  Replace the first element that has the name, or append: the pattern of both
  \<open>mountVolume\<close> and \<open>addMount\<close>.
\<close>

definition put_named :: "('a \<Rightarrow> string) \<Rightarrow> 'a \<Rightarrow> 'a list \<Rightarrow> 'a list" where
  "put_named name x xs =
     (case index_func (\<lambda>y. name y = name x) xs of
        None \<Rightarrow> xs @ [x]
      | Some pos \<Rightarrow> xs[pos := x])"

definition mount_volume :: "pod_mutator \<Rightarrow> pod_spec \<Rightarrow> pod_spec" where
  "mount_volume pm spec =
     spec\<lparr>ps_volumes := put_named vol_name (build_volume_definition pm) (ps_volumes spec)\<rparr>"

definition inject_mount :: volume_mount where
  "inject_mount =
     \<lparr>vm_name = injectVolumeName, vm_path = internalMountPath, vm_read_only = True, vm_rest = []\<rparr>"

definition add_mount :: "container \<Rightarrow> container" where
  "add_mount c = c\<lparr>c_mounts := put_named vm_name inject_mount (c_mounts c)\<rparr>"

text \<open>The loop over the export headers.\<close>

fun set_headers :: "container \<Rightarrow> strmap \<Rightarrow> container" where
  "set_headers c [] = c"
| "set_headers c ((k, v) # hs) = set_headers (set_env_var c k v) hs"

text \<open>The assignments at the start of \<open>addEnvVars\<close>, then the whole function.\<close>

definition set_injector_vars :: "pod_mutator \<Rightarrow> container \<Rightarrow> container" where
  "set_injector_vars pm c =
     (let c = set_env_var c envVarSDKVersion (package_version (pm_inject pm));
          c = set_env_var c envVarLdPreloadName envVarLdPreloadValue;
          c = set_env_var c envOtelInjectorConfigFileName envOtelInjectorConfigFileValue;
          c = set_env_var c envOtelExporterOtlpEndpointName (pm_endpoint pm);
          c = set_env_var c envOtelExporterOtlpProtocolName (pm_proto pm);
          c = set_env_var c envOtelSemConvStabilityName ''http''
      in if inj_debug (pm_inject pm) then set_env_var c envInjectorDebugName ''debug'' else c)"

definition add_env_vars ::
  "(string \<Rightarrow> string + image_ref) \<Rightarrow> pod_mutator \<Rightarrow> object_meta \<Rightarrow> container \<Rightarrow> selector option \<Rightarrow> container" where
  "add_env_vars ref_parse pm meta c sel =
     (let c = set_injector_vars pm c;
          c = configure_container_env_vars ref_parse pm meta c sel;
          c = disable_undesired_sdks pm c
      in set_headers c (pm_headers pm))"

definition instrument_container ::
  "(string \<Rightarrow> string + image_ref) \<Rightarrow> pod_mutator \<Rightarrow> object_meta \<Rightarrow> container \<Rightarrow> selector option \<Rightarrow> container" where
  "instrument_container ref_parse pm meta c sel = add_env_vars ref_parse pm meta (add_mount c) sel"

fun instrument_containers ::
  "(string \<Rightarrow> string + image_ref) \<Rightarrow> pod_mutator \<Rightarrow> object_meta \<Rightarrow> selector option \<Rightarrow> container list \<Rightarrow> container list" where
  "instrument_containers ref_parse pm meta sel [] = []"
| "instrument_containers ref_parse pm meta sel (c # cs) =
     (if find_env_var c envVarLdPreloadName \<noteq> None then c
      else instrument_container ref_parse pm meta c sel)
     # instrument_containers ref_parse pm meta sel cs"

definition matches_selection :: "pod_mutator \<Rightarrow> object_meta \<Rightarrow> selector option \<times> bool" where
  "matches_selection pm meta = match_process_info (pm_matcher pm) (Some (process_metadata meta))"

definition mutate_pod ::
  "(string \<Rightarrow> string + image_ref) \<Rightarrow> pod_mutator \<Rightarrow> pod \<Rightarrow> pod \<times> bool" where
  "mutate_pod ref_parse pm p =
     (let spec = pod_spec p; meta = pod_meta p in
      if already_instrumented spec meta then (p, False)
      else let (sel, matched) = matches_selection pm meta in
        if \<not> matched then (p, False)
        else
          let spec' = mount_volume pm spec;
              spec' = spec'\<lparr>ps_containers :=
                instrument_containers ref_parse pm meta sel (ps_containers spec')\<rparr>;
              meta' = add_label meta instrumentedLabel (package_version (pm_inject pm))
          in (\<lparr>pod_meta = meta', pod_spec = spec'\<rparr>, spec' \<noteq> spec))"

subsection \<open>The HTTP handler\<close>

record admission_request =
  ar_uid :: string
  ar_kind :: string
  ar_raw :: string

record admission_response =
  resp_uid :: string
  resp_allowed :: bool
  resp_message :: "string option"
  resp_patch :: "string option"
  resp_patch_type :: "string option"

text \<open>What the client of the webhook receives: a plain error, or a review with the status 200.\<close>

datatype http_result = HttpError nat string | Review string

record ('p) codec =
  decode_review :: "string \<Rightarrow> string + admission_request option"
  decode_pod :: "string \<Rightarrow> string + pod"
  encode_pod :: "pod \<Rightarrow> string + string"
  json_patch :: "string \<Rightarrow> string \<Rightarrow> 'p list"
  encode_patches :: "'p list \<Rightarrow> string + string"
  encode_response :: "admission_response \<Rightarrow> string + string"

definition error_response :: "admission_response \<Rightarrow> string \<Rightarrow> admission_response" where
  "error_response r msg = r\<lparr>resp_allowed := False, resp_message := Some msg\<rparr>"

definition mutate_response :: "'p codec \<Rightarrow> admission_response \<Rightarrow> http_result" where
  "mutate_response cd r =
     (case encode_response cd r of
        Inl err \<Rightarrow> HttpError 500 (''failed to marshal response: '' @ err)
      | Inr bytes \<Rightarrow> Review bytes)"

text \<open>The part of the handler that treats a pod: the response it fills in.\<close>

definition mutate_request ::
  "'p codec \<Rightarrow> (string \<Rightarrow> string + image_ref) \<Rightarrow> pod_mutator \<Rightarrow> string \<Rightarrow> admission_response \<Rightarrow> admission_response" where
  "mutate_request cd ref_parse pm raw r =
     (case decode_pod cd raw of
        Inl err \<Rightarrow> error_response r (''failed to unmarshal pod: '' @ err)
      | Inr p \<Rightarrow>
          let (p', modified) = mutate_pod ref_parse pm p in
          if \<not> modified then r
          else case encode_pod cd p' of
            Inl err \<Rightarrow> error_response r (''failed to marshall modified pod: '' @ err)
          | Inr marshalled \<Rightarrow>
              let patches = json_patch cd raw marshalled in
              if length patches > 0 then
                (case encode_patches cd patches of
                   Inl err \<Rightarrow> error_response r (''failed to marshal patches: '' @ err)
                 | Inr bytes \<Rightarrow> r\<lparr>resp_patch := Some bytes, resp_patch_type := Some ''JSONPatch''\<rparr>)
              else error_response r ''no changes'')"

definition handle_mutate ::
  "'p codec \<Rightarrow> (string \<Rightarrow> string + image_ref) \<Rightarrow> pod_mutator \<Rightarrow> string + string \<Rightarrow> string \<Rightarrow> http_result" where
  "handle_mutate cd ref_parse pm body content_type =
     (case body of
        Inl err \<Rightarrow> HttpError 400 ''failed to read request body''
      | Inr bytes \<Rightarrow>
          if content_type \<noteq> ''application/json''
          then HttpError 415 ''invalid Content-Type, expect application/json''
          else case decode_review cd bytes of
            Inl err \<Rightarrow> HttpError 400 (''failed to decode admission review: '' @ err)
          | Inr None \<Rightarrow> HttpError 400 ''admission review request is nil''
          | Inr (Some req) \<Rightarrow>
              let r = \<lparr>resp_uid = ar_uid req, resp_allowed = True, resp_message = None,
                       resp_patch = None, resp_patch_type = None\<rparr>
              in if package_version (pm_inject pm) = []
                 then mutate_response cd
                   (error_response r ''Image Volume Path or SDK package version must be set'')
                 else if ar_kind req = ''Pod''
                 then mutate_response cd (mutate_request cd ref_parse pm (ar_raw req) r)
                 else mutate_response cd r)"

definition health_check :: "http_result" where
  "health_check = Review ''OK''"

subsection \<open>Named entries\<close>

lemma put_named_mem: "x \<in> set (put_named name x xs)"
  by (auto simp: put_named_def dest!: index_func_Some split: option.split intro: set_update_memI)

lemma put_named_other:
  assumes "name y \<noteq> name x"
  shows "y \<in> set (put_named name x xs) \<longleftrightarrow> y \<in> set xs"
proof (cases "index_func (\<lambda>y. name y = name x) xs")
  case (Some i)
  note i = index_func_Some [OF Some]
  have "y \<in> set (xs[i := x]) \<longleftrightarrow> y \<in> set xs"
  proof
    assume "y \<in> set xs"
    then obtain j where j: "j < length xs" "xs ! j = y" by (auto simp: in_set_conv_nth)
    with i assms have "j \<noteq> i" by auto
    with j show "y \<in> set (xs[i := x])"
      by (metis length_list_update nth_list_update_neq nth_mem)
  qed (use assms in \<open>auto dest: set_update_subset_insert [THEN subsetD]\<close>)
  with Some show ?thesis by (simp add: put_named_def)
qed (use assms in \<open>auto simp: put_named_def\<close>)

lemma put_named_length:
  "length (put_named name x xs) =
     (if \<exists>y \<in> set xs. name y = name x then length xs else Suc (length xs))"
  by (auto simp: put_named_def index_func_None split: option.split dest!: index_func_Some
      intro: nth_mem)

lemma vol_name_build [simp]: "vol_name (build_volume_definition pm) = injectVolumeName"
  by (simp add: build_volume_definition_def)

lemma vm_name_inject [simp]: "vm_name inject_mount = injectVolumeName"
  by (simp add: inject_mount_def)

lemma add_mount_simps [simp]:
  "c_name (add_mount c) = c_name c" "c_image (add_mount c) = c_image c" "c_env (add_mount c) = c_env c"
  "env_entry (add_mount c) n = env_entry c n" "env_names (add_mount c) = env_names c"
  by (simp_all add: add_mount_def env_entry_def env_names_def)

subsection \<open>The environment of an instrumented container\<close>

definition base_env_names :: "string set" where
  "base_env_names =
     {envVarSDKVersion, envVarLdPreloadName, envOtelInjectorConfigFileName,
      envOtelExporterOtlpEndpointName, envOtelExporterOtlpProtocolName, envOtelSemConvStabilityName,
      envInjectorDebugName}"

definition injected_env_names :: "pod_mutator \<Rightarrow> string set" where
  "injected_env_names pm =
     base_env_names \<union> config_env_names \<union> sdk_switch_names \<union> fst ` set (pm_headers pm)"

interpretation header_vars: env_edit "\<lambda>c. set_headers c hs" "fst ` set hs" for hs
proof (rule env_edit.intro)
  show "env_entry (set_headers c hs) n = env_entry c n" if "n \<notin> fst ` set hs" for n c
    using that by (induction c hs rule: set_headers.induct) auto
  show "c_name (set_headers c hs) = c_name c" "c_image (set_headers c hs) = c_image c"
    "c_mounts (set_headers c hs) = c_mounts c" for c
    by (induction c hs rule: set_headers.induct) auto
  show "set (env_names c) \<subseteq> set (env_names (set_headers c hs))" for c
    by (induction c hs rule: set_headers.induct) (auto split: if_splits)
qed


lemma set_env_var_superset: "S \<subseteq> set (env_names c) \<Longrightarrow> S \<subseteq> set (env_names (set_env_var c n v))"
  by auto

interpretation injector_vars: env_edit "\<lambda>c. set_injector_vars pm c" base_env_names for pm
proof (rule env_edit.intro)
  show "env_entry (set_injector_vars pm c) n = env_entry c n" if n: "n \<notin> base_env_names" for n c
    using n unfolding base_env_names_def set_injector_vars_def Let_def
    by (simp only: insert_iff empty_iff env_entry_set_env_var de_Morgan_disj simp_thms if_False
        split: if_split)
  show "set (env_names c) \<subseteq> set (env_names (set_injector_vars pm c))" for c
    unfolding set_injector_vars_def Let_def
    by (cases "inj_debug (pm_inject pm)"; simp only: if_True if_False; intro set_env_var_superset order_refl)
qed (simp_all add: set_injector_vars_def Let_def)

lemmas edit_frames = header_vars.frame switches.frame configured.frame injector_vars.frame

lemmas edit_grows = header_vars.grows switches.grows configured.grows injector_vars.grows

interpretation instrumented: env_edit "\<lambda>c. add_env_vars rp pm meta c sel" "injected_env_names pm"
  for rp pm meta sel
proof (rule env_edit.intro)
  show "env_entry (add_env_vars rp pm meta c sel) n = env_entry c n" if "n \<notin> injected_env_names pm" for n c
    using that by (simp add: injected_env_names_def add_env_vars_def Let_def edit_frames)
  show "set (env_names c) \<subseteq> set (env_names (add_env_vars rp pm meta c sel))" for c
    unfolding add_env_vars_def Let_def by (meson edit_grows order_trans)
qed (simp_all add: add_env_vars_def Let_def header_vars.keeps switches.keeps configured.keeps injector_vars.keeps)

text \<open>The entries by which the injector, and the webhook itself, recognise its own work.\<close>

lemma injector_entries:
  "env_entry (set_injector_vars pm c) envVarLdPreloadName =
      Some (plain_entry envVarLdPreloadName envVarLdPreloadValue)"
  "env_entry (set_injector_vars pm c) envOtelInjectorConfigFileName =
      Some (plain_entry envOtelInjectorConfigFileName envOtelInjectorConfigFileValue)"
  "package_version (pm_inject pm) \<noteq> [] \<Longrightarrow>
      env_entry (set_injector_vars pm c) envVarSDKVersion =
      Some (plain_entry envVarSDKVersion (package_version (pm_inject pm)))"
  by (simp_all add: set_injector_vars_def Let_def)

lemma base_names_disjoint:
  assumes "n \<in> {envVarSDKVersion, envVarLdPreloadName, envOtelInjectorConfigFileName}"
  shows "n \<notin> config_env_names" and "n \<notin> sdk_switch_names"
  using assms
  by (auto simp: config_env_names_def resource_env_names_def sdk_switch_names_def)

lemma instrumented_entry:
  assumes "n \<in> {envVarSDKVersion, envVarLdPreloadName, envOtelInjectorConfigFileName}"
    and "n \<notin> fst ` set (pm_headers pm)"
  shows "env_entry (add_env_vars rp pm meta c sel) n = env_entry (set_injector_vars pm c) n"
  by (simp only: add_env_vars_def Let_def edit_frames(1-3) base_names_disjoint [OF assms(1)] assms(2) not_False_eq_True)

text \<open>Whatever the headers, the webhook finds its configuration file in the result.\<close>

lemma instrumented_config_name:
  "envOtelInjectorConfigFileName \<in> set (env_names (add_env_vars rp pm meta c sel))"
proof -
  have "envOtelInjectorConfigFileName \<in> set (env_names (set_injector_vars pm c))"
    using injector_entries(2) [of pm c] env_entry_iff by (metis option.distinct(1))
  then show ?thesis
    unfolding add_env_vars_def Let_def by (meson edit_grows subsetD)
qed

lemma mutated_variables:
  assumes "c' = instrument_container rp pm meta c sel"
    and "fst ` set (pm_headers pm) \<inter> base_env_names = {}" and "package_version (pm_inject pm) \<noteq> []"
  shows "env_entry c' envVarSDKVersion = Some (plain_entry envVarSDKVersion (package_version (pm_inject pm)))"
    and "env_entry c' envVarLdPreloadName = Some (plain_entry envVarLdPreloadName envVarLdPreloadValue)"
proof -
  have "n \<notin> fst ` set (pm_headers pm)" if "n \<in> {envVarSDKVersion, envVarLdPreloadName, envOtelInjectorConfigFileName}" for n
    using that assms(2) by (auto simp: base_env_names_def disjoint_iff)
  then have "env_entry c' n = env_entry (set_injector_vars pm (add_mount c)) n"
    if "n \<in> {envVarSDKVersion, envVarLdPreloadName, envOtelInjectorConfigFileName}" for n
    unfolding assms(1) instrument_container_def using that by (intro instrumented_entry) auto
  then show "env_entry c' envVarSDKVersion = Some (plain_entry envVarSDKVersion (package_version (pm_inject pm)))"
    and "env_entry c' envVarLdPreloadName = Some (plain_entry envVarLdPreloadName envVarLdPreloadValue)"
    using assms(3) by (simp_all add: injector_entries)
qed

lemma instrument_containers_map:
  "instrument_containers rp pm meta sel cs =
     map (\<lambda>c. if envVarLdPreloadName \<in> set (env_names c) then c
              else instrument_container rp pm meta c sel) cs"
  by (induction rp pm meta sel cs rule: instrument_containers.induct) (auto simp: find_env_var_iff)

subsection \<open>The mutated pod\<close>

definition is_target :: "pod_mutator \<Rightarrow> pod \<Rightarrow> bool" where
  "is_target pm p \<longleftrightarrow>
     \<not> already_instrumented (pod_spec p) (pod_meta p) \<and> snd (matches_selection pm (pod_meta p))"

lemma mutate_pod_not_target: "\<not> is_target pm p \<Longrightarrow> mutate_pod rp pm p = (p, False)"
  by (auto simp: mutate_pod_def is_target_def Let_def split: prod.split)

lemma mutate_pod_target:
  assumes "is_target pm p"
  shows "pod_meta (fst (mutate_pod rp pm p)) =
      add_label (pod_meta p) instrumentedLabel (package_version (pm_inject pm))"
    and "ps_volumes (pod_spec (fst (mutate_pod rp pm p))) =
      put_named vol_name (build_volume_definition pm) (ps_volumes (pod_spec p))"
    and "ps_rest (pod_spec (fst (mutate_pod rp pm p))) = ps_rest (pod_spec p)"
    and "ps_containers (pod_spec (fst (mutate_pod rp pm p))) =
      instrument_containers rp pm (pod_meta p) (fst (matches_selection pm (pod_meta p)))
        (ps_containers (pod_spec p))"
    and "snd (mutate_pod rp pm p) = (pod_spec (fst (mutate_pod rp pm p)) \<noteq> pod_spec p)"
  using assms
  by (auto simp: mutate_pod_def is_target_def Let_def mount_volume_def split: prod.split)

lemma mutate_pod_label:
  assumes "is_target pm p" and "package_version (pm_inject pm) \<noteq> []"
  shows "already_instrumented (pod_spec q) (pod_meta (fst (mutate_pod rp pm p)))"
  using assms by (simp add: mutate_pod_target already_instrumented_def get_label_def add_label_def)

lemma process_metadata_simps [simp]:
  "pi_pod_labels (process_metadata meta) = om_labels meta"
  "pi_pod_annotations (process_metadata meta) = om_annotations meta"
  by (simp_all add: process_metadata_def Let_def empty_process_info_def)

lemma matches_selection_iff:
  "snd (matches_selection pm meta) \<longleftrightarrow>
     (\<exists>s. Some s \<in> set (selectors (pm_matcher pm)) \<and> selects s (process_metadata meta))"
proof -
  have "snd (matches_selection pm meta) \<longleftrightarrow>
      (\<exists>s \<in> set (selectors (pm_matcher pm)). match_process (Some (process_metadata meta)) s)"
    using match_selectors_False [of "selectors (pm_matcher pm)" "Some (process_metadata meta)"]
    by (auto simp: matches_selection_def match_process_info_def)
  also have "\<dots> \<longleftrightarrow> (\<exists>s. Some s \<in> set (selectors (pm_matcher pm)) \<and> selects s (process_metadata meta))"
    using match_process_Some match_process_iff by blast
  finally show ?thesis .
qed


lemma mutate_pod_nth:
  assumes "i < length (ps_containers (pod_spec p))" and "is_target pm p"
  shows "ps_containers (pod_spec (fst (mutate_pod rp pm p))) ! i =
    (let c = ps_containers (pod_spec p) ! i in
     if envVarLdPreloadName \<in> set (env_names c) then c
     else instrument_container rp pm (pod_meta p) c (fst (matches_selection pm (pod_meta p))))"
  using assms by (simp add: mutate_pod_target instrument_containers_map Let_def)

lemma mutate_pod_length:
  "length (ps_containers (pod_spec (fst (mutate_pod rp pm p)))) = length (ps_containers (pod_spec p))"
  by (cases "is_target pm p") (simp_all add: mutate_pod_target mutate_pod_not_target instrument_containers_map)

definition sample_pod :: pod where
  "sample_pod =
     \<lparr>pod_meta = sample_meta,
      pod_spec = \<lparr>ps_containers =
          [sample_container, sample_container\<lparr>c_env := [plain_entry ''LD_PRELOAD'' ''/own.so'']\<rparr>],
        ps_volumes = [\<lparr>vol_name = ''data'', vol_source = OtherVolume ''pvc''\<rparr>], ps_rest = []\<rparr>\<rparr>"

lemma sample_target: "is_target sample_mutator sample_pod" by code_simp

subsection \<open>Properties\<close>

text \<open>
  C1: the webhook changes a pod exactly when no container of it has the injector's
  configuration variable, it has no label of an earlier injection, and all the criteria of
  some selector of the configuration, at least one criterion, hold of it.
\<close>

theorem mutates_exactly_selected_pods:
  assumes "package_version (pm_inject pm) \<noteq> []"
  shows "fst (mutate_pod rp pm p) \<noteq> p \<longleftrightarrow>
     (\<forall>c \<in> set (ps_containers (pod_spec p)). envOtelInjectorConfigFileName \<notin> set (env_names c)) \<and>
     mstr (om_labels (pod_meta p)) instrumentedLabel = [] \<and>
     (\<exists>s. Some s \<in> set (selectors (pm_matcher pm)) \<and> selects s (process_metadata (pod_meta p)))"
proof -
  have "fst (mutate_pod rp pm p) \<noteq> p \<longleftrightarrow> is_target pm p"
  proof (cases "is_target pm p")
    case True
    then have "\<not> already_instrumented (pod_spec p) (pod_meta p)" by (simp add: is_target_def)
    moreover have "already_instrumented (pod_spec p) (pod_meta (fst (mutate_pod rp pm p)))"
      by (rule mutate_pod_label [OF True assms])
    ultimately show ?thesis using True by auto
  qed (simp add: mutate_pod_not_target)
  then show ?thesis
    by (auto simp: is_target_def matches_selection_iff already_instrumented_def list_ex_iff
        find_env_var_iff get_label_def mstr_def split: option.splits)
qed

theorem mutates_exactly_selected_pods_witness:
  "fst (mutate_pod sample_ref_parse sample_mutator sample_pod) \<noteq> sample_pod"
proof -
  have "package_version (pm_inject sample_mutator) \<noteq> []" by code_simp
  note iff = mutates_exactly_selected_pods [OF this, of sample_ref_parse sample_pod]
  have "selects (normalize_selector sample_selector) (process_metadata (pod_meta sample_pod))"
    by (simp add: selects_def normalize_selector_def sample_selector_def criteria_hold_def
        sample_pod_def sample_meta_def process_metadata_def Let_def empty_process_info_def
        add_owner_names_base base_metadata_def)
  moreover have "Some (normalize_selector sample_selector) \<in> set (selectors (pm_matcher sample_mutator))"
    by (simp add: sample_mutator_def new_pod_matcher_def normalize_glob_criteria_def sample_inject_def)
  ultimately show ?thesis
    unfolding iff
    by (auto simp: sample_pod_def sample_container_def env_names_def plain_entry_def sample_meta_def mstr_def)
qed

text \<open>
  C2: what a mutation does to the containers. Their number, names and images stay. A
  container with an LD_PRELOAD of its own is left exactly as it was. Any other container
  gets the injector's library, its configuration file and the version in its environment
  and the injector's volume among its mounts; its other mounts, and its variables under all
  names that the injector does not use, stay as they were.
\<close>

theorem mutated_containers:
  assumes "is_target pm p" and "i < length (ps_containers (pod_spec p))"
    and "ps_containers (pod_spec p) ! i = c"
    and "ps_containers (pod_spec (fst (mutate_pod rp pm p))) ! i = c'"
    and "fst ` set (pm_headers pm) \<inter> base_env_names = {}"
    and "package_version (pm_inject pm) \<noteq> []"
  shows "length (ps_containers (pod_spec (fst (mutate_pod rp pm p)))) = length (ps_containers (pod_spec p)) \<and>
    c_name c' = c_name c \<and> c_image c' = c_image c \<and>
    (if envVarLdPreloadName \<in> set (env_names c) then c' = c
     else env_entry c' envVarLdPreloadName = Some (plain_entry envVarLdPreloadName envVarLdPreloadValue)
        \<and> env_entry c' envOtelInjectorConfigFileName =
            Some (plain_entry envOtelInjectorConfigFileName envOtelInjectorConfigFileValue)
        \<and> env_entry c' envVarSDKVersion = Some (plain_entry envVarSDKVersion (package_version (pm_inject pm)))
        \<and> inject_mount \<in> set (c_mounts c')
        \<and> (\<forall>m. vm_name m \<noteq> injectVolumeName \<longrightarrow> (m \<in> set (c_mounts c') \<longleftrightarrow> m \<in> set (c_mounts c)))
        \<and> (\<forall>n. n \<notin> injected_env_names pm \<longrightarrow> env_entry c' n = env_entry c n))"
proof (cases "envVarLdPreloadName \<in> set (env_names c)")
  case True
  with assms(1-4) show ?thesis by (simp add: mutate_pod_nth Let_def mutate_pod_length)
next
  case False
  from assms(5) have hdr: "n \<notin> fst ` set (pm_headers pm)"
    if "n \<in> {envVarSDKVersion, envVarLdPreloadName, envOtelInjectorConfigFileName}" for n
    using that by (auto simp: base_env_names_def disjoint_iff)
  obtain meta sel where c': "c' = add_env_vars rp pm meta (add_mount c) sel"
    using assms(1-4) False by (auto simp: mutate_pod_nth Let_def instrument_container_def)
  have entries: "env_entry c' n = env_entry (set_injector_vars pm (add_mount c)) n"
    if "n \<in> {envVarSDKVersion, envVarLdPreloadName, envOtelInjectorConfigFileName}" for n
    unfolding c' by (rule instrumented_entry [OF that hdr [OF that]])
  have mounts: "c_mounts c' = put_named vm_name inject_mount (c_mounts c)"
    by (simp add: c' instrumented.keeps) (simp add: add_mount_def)
  have frame: "env_entry c' n = env_entry c n" if "n \<notin> injected_env_names pm" for n
    by (simp add: c' instrumented.frame [OF that])
  show ?thesis
    using False
    by (simp add: mutate_pod_length entries injector_entries assms(6) mounts put_named_mem
        put_named_other frame)
       (simp add: c' instrumented.keeps)
qed

theorem mutated_containers_witness:
  "env_entry (ps_containers (pod_spec (fst (mutate_pod sample_ref_parse sample_mutator sample_pod))) ! 0) ''HOME''
     = Some (plain_entry ''HOME'' ''/root'')
   \<and> ps_containers (pod_spec (fst (mutate_pod sample_ref_parse sample_mutator sample_pod))) ! 1
     = sample_container\<lparr>c_env := [plain_entry ''LD_PRELOAD'' ''/own.so'']\<rparr>"
proof -
  have h: "fst ` set (pm_headers sample_mutator) \<inter> base_env_names = {}"
    by (auto simp: sample_mutator_def base_env_names_def)
  have v: "package_version (pm_inject sample_mutator) \<noteq> []" by code_simp
  have n: "''HOME'' \<notin> injected_env_names sample_mutator"
    by (simp add: injected_env_names_def base_env_names_def config_env_names_def
        resource_env_names_def sdk_switch_names_def sample_mutator_def)
  have c: "ps_containers (pod_spec sample_pod) ! 0 = sample_container"
    "ps_containers (pod_spec sample_pod) ! 1 = sample_container\<lparr>c_env := [plain_entry ''LD_PRELOAD'' ''/own.so'']\<rparr>"
    "length (ps_containers (pod_spec sample_pod)) = 2"
    by (simp_all add: sample_pod_def)
  have names: "envVarLdPreloadName \<notin> set (env_names sample_container)"
    "env_entry sample_container ''HOME'' = Some (plain_entry ''HOME'' ''/root'')"
    "envVarLdPreloadName \<in> set (env_names (sample_container\<lparr>c_env := [plain_entry ''LD_PRELOAD'' ''/own.so'']\<rparr>))"
    by (simp_all add: env_names_def sample_container_def plain_entry_def env_entry_def)
  show ?thesis
    using mutated_containers [OF sample_target _ c(1) refl h v, of sample_ref_parse]
      mutated_containers [OF sample_target _ c(2) refl h v, of sample_ref_parse]
    by (simp add: c(3) names n)
qed

text \<open>
  C7: what a mutation does to the rest of the pod: the injector's volume is present and
  every other volume is kept, none is added twice; the instrumented label gets the package
  version, and all other labels, the annotations, the owners and the remaining
  specification stay.
\<close>

theorem mutated_pod_rest:
  assumes "is_target pm p" and "mutate_pod rp pm p = (p', modified)"
  shows "build_volume_definition pm \<in> set (ps_volumes (pod_spec p'))
    \<and> (\<forall>v. vol_name v \<noteq> injectVolumeName \<longrightarrow>
          (v \<in> set (ps_volumes (pod_spec p')) \<longleftrightarrow> v \<in> set (ps_volumes (pod_spec p))))
    \<and> length (ps_volumes (pod_spec p')) =
        length (ps_volumes (pod_spec p)) +
        (if injectVolumeName \<in> vol_name ` set (ps_volumes (pod_spec p)) then 0 else 1)
    \<and> (\<forall>k. mget (om_labels (pod_meta p')) k =
          (if k = instrumentedLabel then Some (package_version (pm_inject pm))
           else mget (om_labels (pod_meta p)) k))
    \<and> pod_meta p' = (pod_meta p)\<lparr>om_labels := om_labels (pod_meta p')\<rparr>
    \<and> ps_rest (pod_spec p') = ps_rest (pod_spec p)
    \<and> modified = (pod_spec p' \<noteq> pod_spec p)"
proof -
  from assms(2) have p': "p' = fst (mutate_pod rp pm p)" "modified = snd (mutate_pod rp pm p)"
    by simp_all
  show ?thesis
    unfolding p'
    by (simp add: mutate_pod_target [OF assms(1)] put_named_mem put_named_other put_named_length
        add_label_def image_iff) auto
qed

theorem mutated_pod_rest_witness:
  "\<lparr>vol_name = ''data'', vol_source = OtherVolume ''pvc''\<rparr> \<in>
      set (ps_volumes (pod_spec (fst (mutate_pod sample_ref_parse sample_mutator sample_pod))))
   \<and> build_volume_definition sample_mutator \<in>
      set (ps_volumes (pod_spec (fst (mutate_pod sample_ref_parse sample_mutator sample_pod))))"
  using mutated_pod_rest [OF sample_target prod.collapse [symmetric], of sample_ref_parse]
  by (simp add: sample_pod_def)

text \<open>
  C6: the mutation is idempotent: the webhook leaves a pod that it has mutated as it is,
  whichever mutator of the cluster sees it next.
\<close>

theorem mutation_idempotent:
  assumes "package_version (pm_inject pm) \<noteq> []" and "fst (mutate_pod rp pm p) \<noteq> p"
  shows "mutate_pod rp' pm' (fst (mutate_pod rp pm p)) = (fst (mutate_pod rp pm p), False)"
proof -
  from assms(2) have "is_target pm p" using mutate_pod_not_target by fastforce
  then have "already_instrumented (pod_spec (fst (mutate_pod rp pm p))) (pod_meta (fst (mutate_pod rp pm p)))"
    by (rule mutate_pod_label [OF _ assms(1)])
  then show ?thesis by (intro mutate_pod_not_target) (simp add: is_target_def)
qed

theorem mutation_idempotent_witness:
  "snd (mutate_pod sample_ref_parse sample_mutator
     (fst (mutate_pod sample_ref_parse sample_mutator sample_pod))) = False"
proof -
  have "package_version (pm_inject sample_mutator) \<noteq> []" by code_simp
  moreover have "fst (mutate_pod sample_ref_parse sample_mutator sample_pod) \<noteq> sample_pod"
  proof -
    have "om_labels (pod_meta (fst (mutate_pod sample_ref_parse sample_mutator sample_pod))) \<noteq> om_labels (pod_meta sample_pod)"
      unfolding mutate_pod_target(1) [OF sample_target] by (simp add: sample_pod_def sample_meta_def add_label_def)
    then show ?thesis by auto
  qed
  ultimately show ?thesis by (simp add: mutation_idempotent)
qed

text \<open>
  The process of a container that the webhook has instrumented is recognised later. Where
  the process runs with the two variables of its mutated container, and with either the
  labels of the mutated pod or none known, the server finds that it does not preload anything
  else and that it is already instrumented with the current version.
\<close>

lemma mutated_process_facts:
  assumes "is_target pm p" and "c \<in> set (ps_containers (pod_spec p))"
    and "envVarLdPreloadName \<notin> set (env_names c)"
    and "c' = instrument_container rp pm (pod_meta p) c (fst (matches_selection pm (pod_meta p)))"
    and "\<forall>n \<in> {envVarSDKVersion, envVarLdPreloadName}. \<forall>v.
           env_entry c' n = Some (plain_entry n v) \<longrightarrow> mget (pi_env info) n = Some v"
    and "pi_pod_labels info \<in> {[], om_labels (pod_meta (fst (mutate_pod rp pm p)))}"
    and "fst ` set (pm_headers pm) \<inter> base_env_names = {}"
    and "package_version (pm_inject pm) \<noteq> []"
  shows "c' \<in> set (ps_containers (pod_spec (fst (mutate_pod rp pm p))))
    \<and> \<not> preloads_something_else pm info \<and> already_instrumented_process pm info"
proof -
  have "mget (pi_env info) envVarLdPreloadName = Some envVarLdPreloadValue"
    and "mget (pi_env info) envVarSDKVersion = Some (package_version (pm_inject pm))"
    using assms(5) mutated_variables [OF assms(4,7,8)] by simp_all
  moreover have "c' \<in> set (ps_containers (pod_spec (fst (mutate_pod rp pm p))))"
    using assms(1-4) by (auto simp: mutate_pod_target instrument_containers_map)
  moreover have "mstr (pi_pod_labels info) instrumentedLabel \<in> {[], package_version (pm_inject pm)}"
    using assms(1,6) by (auto simp: mutate_pod_target add_label_def mstr_def)
  ultimately show ?thesis
    using assms(8) by (auto simp: preloads_something_else_def already_instrumented_process_def mstr_def)
qed

subsection \<open>The order of the maps\<close>

text \<open>
  The entries of one name, in their order: what decides the value of a variable, whichever of
  several entries the container runtime lets win. The loop over the export headers changes
  the entries of each name as the map says, and so does not depend on the order of the visit.
\<close>

definition entries_of :: "container \<Rightarrow> string \<Rightarrow> env_var list" where
  "entries_of c n = filter (\<lambda>e. ev_name e = n) (c_env c)"

fun with_value :: "string \<Rightarrow> string \<Rightarrow> env_var list \<Rightarrow> env_var list" where
  "with_value n v [] = [plain_entry n v]"
| "with_value n v (e # es) = e\<lparr>ev_from := None, ev_value := v\<rparr> # es"

lemma entries_set_env_var:
  "entries_of (set_env_var c m v) n = (if n = m \<and> v \<noteq> [] then with_value n v (entries_of c n) else entries_of c n)"
proof -
  have upd: "filter (\<lambda>e. ev_name e = n) (xs[i := (xs ! i)\<lparr>ev_from := None, ev_value := v\<rparr>]) =
      (if n = m then with_value n v (filter (\<lambda>e. ev_name e = n) xs) else filter (\<lambda>e. ev_name e = n) xs)"
    if "index_func (\<lambda>e. ev_name e = m) xs = Some i" for xs i n
    using that
  proof (induction xs arbitrary: i)
    case (Cons x xs)
    then show ?case by (auto split: if_splits)
  qed simp
  have none: "filter (\<lambda>e. ev_name e = m) xs = []" if "index_func (\<lambda>e. ev_name e = m) xs = None" for xs :: "env_var list"
    using that by (auto simp: index_func_None)
  show ?thesis
    by (auto simp: set_env_var_def set_env_var_even_if_empty_def find_env_var_def entries_of_def upd none plain_entry_def
        split: option.split)
qed

lemma entries_set_headers:
  "wf_map hs \<Longrightarrow> entries_of (set_headers c hs) n =
     (case mget hs n of
        Some v \<Rightarrow> if v \<noteq> [] then with_value n v (entries_of c n) else entries_of c n
      | None \<Rightarrow> entries_of c n)"
proof (induction c hs rule: set_headers.induct)
  case (2 c k v hs)
  then have k: "mget hs k = None" "wf_map hs"
    by (auto simp: wf_map_def map_of_eq_None_iff)
  show ?case
    using "2.IH" [OF k(2)] k(1) by (auto simp: entries_set_env_var split: option.split)
qed simp

lemma same_entries_mset:
  assumes "\<And>n. entries_of c n = entries_of c' n"
  shows "mset (c_env c) = mset (c_env c')"
proof (rule multiset_eqI)
  fix e
  have "count (mset (c_env d)) e = count (mset (entries_of d (ev_name e))) e" for d
    by (simp add: entries_of_def)
  then show "count (mset (c_env c)) e = count (mset (c_env c')) e"
    using assms by simp
qed

lemma set_headers_keeps:
  "(set_headers c hs)\<lparr>c_env := es\<rparr> = c\<lparr>c_env := es\<rparr>"
  by (induction c hs rule: set_headers.induct) (simp_all add: set_env_var_def set_env_var_even_if_empty_def split: option.split)

lemma disable_sdks_cong:
  "enabled_sdks (pm_inject pm') = enabled_sdks (pm_inject pm) \<Longrightarrow> disable_sdks pm' langs c = disable_sdks pm langs c"
  by (induction pm langs c rule: disable_sdks.induct) (simp_all add: can_instrument_def)

lemma configure_headers:
  "configure_container_env_vars rp (pm\<lparr>pm_headers := hs\<rparr>) meta c sel = configure_container_env_vars rp pm meta c sel"
proof -
  have "pm_cfg (pm\<lparr>pm_headers := hs\<rparr>) = pm_cfg pm" by simp
  then show ?thesis
    by (simp only: configure_container_env_vars_def chosen_sampler_def chosen_export_modes_def set_resource_attributes_def)
qed

text \<open>
  C10: the order in which Go visits its maps does not change what the webhook injects. For the
  pod's annotations, the configured attributes and the export headers in any other order (as
  maps, they stay the same), the container gets for every variable name the same entries in
  the same order, so that its environment has the same entries in all; the rest of it is the
  same too. Only the places of the headers' entries depend on the order of the headers: with
  these in the same order, the containers are equal.
\<close>

theorem env_independent_of_map_order:
  assumes "wf_map (om_annotations meta)" "wf_map an"
    "wf_map (res_attributes (inj_resources (pm_inject pm)))" "wf_map a"
    "wf_map (pm_headers pm)" "wf_map hs"
    and "mget (om_annotations meta) = mget an"
    and "mget (res_attributes (inj_resources (pm_inject pm))) = mget a"
    and "mget (pm_headers pm) = mget hs"
    and "c1 = instrument_container rp pm meta c sel"
    and "c2 = instrument_container rp ((with_attributes pm a)\<lparr>pm_headers := hs\<rparr>) (meta\<lparr>om_annotations := an\<rparr>) c sel"
  shows "filter (\<lambda>e. ev_name e = n) (c_env c2) = filter (\<lambda>e. ev_name e = n) (c_env c1)
    \<and> mset (c_env c2) = mset (c_env c1) \<and> c2\<lparr>c_env := c_env c1\<rparr> = c1 \<and> (hs = pm_headers pm \<longrightarrow> c2 = c1)"
proof -
  let ?pm = "(with_attributes pm a)\<lparr>pm_headers := hs\<rparr>"
  define d where "d = disable_undesired_sdks pm
      (configure_container_env_vars rp pm meta (set_injector_vars pm (add_mount c)) sel)"
  have c1: "c1 = set_headers d (pm_headers pm)"
    by (simp add: assms(10) instrument_container_def add_env_vars_def Let_def d_def)
  have inj: "set_injector_vars ?pm c' = set_injector_vars pm c'" for c'
    by (simp add: set_injector_vars_def with_attributes_def package_version_def uses_image_volume_def)
  have conf: "configure_container_env_vars rp ?pm (meta\<lparr>om_annotations := an\<rparr>) c' sel =
      configure_container_env_vars rp pm meta c' sel" for c'
    unfolding configure_headers by (rule configure_map_order [OF assms(1-4,7,8)])
  have sdks: "disable_undesired_sdks ?pm c' = disable_undesired_sdks pm c'" for c'
    unfolding disable_undesired_sdks_def by (rule disable_sdks_cong) (simp add: with_attributes_def)
  have c2: "c2 = set_headers d hs"
    by (simp add: assms(11) instrument_container_def add_env_vars_def Let_def inj conf sdks d_def)
  have same: "entries_of c2 m = entries_of c1 m" for m
    unfolding c1 c2 by (simp add: entries_set_headers assms(5,6,9))
  have "c2\<lparr>c_env := c_env c1\<rparr> = c1\<lparr>c_env := c_env c1\<rparr>"
    unfolding c1 c2 by (simp only: set_headers_keeps)
  then show ?thesis
    using same [unfolded entries_of_def] same_entries_mset [of c2 c1] same c1 c2 by auto
qed

theorem env_independent_of_map_order_witness:
  "mset (c_env (instrument_container sample_ref_parse
       ((with_attributes (sample_mutator\<lparr>pm_headers := [(''A'', ''1''), (''B'', ''2'')]\<rparr>) [(''env'', ''prod''), (''team'', ''a'')])
          \<lparr>pm_headers := [(''B'', ''2''), (''A'', ''1'')]\<rparr>)
       (sample_meta\<lparr>om_annotations := rev (om_annotations sample_meta)\<rparr>) sample_container (Some sample_selector))) =
   mset (c_env (instrument_container sample_ref_parse (sample_mutator\<lparr>pm_headers := [(''A'', ''1''), (''B'', ''2'')]\<rparr>)
       sample_meta sample_container (Some sample_selector)))"
  by (rule env_independent_of_map_order [OF _ _ _ _ _ _ _ _ _ refl refl, THEN conjunct2, THEN conjunct1])
     (simp_all add: sample_meta_def sample_mutator_def sample_inject_def wf_map_def fun_eq_iff)

definition sample_instrumented :: container where
  "sample_instrumented =
     instrument_container sample_ref_parse sample_mutator (pod_meta sample_pod) sample_container
       (fst (matches_selection sample_mutator (pod_meta sample_pod)))"

text \<open>
  C9: the response to a request about a pod. It keeps the request's UID. It either allows
  the pod, without a message, and then carries a patch exactly where the mutation changed
  the specification, the patch from the original bytes to the encoding of the mutated pod;
  or it denies it with a message and no patch, which happens only where the pod cannot be
  decoded, the result cannot be encoded, or there is no difference to send.
\<close>

theorem mutate_request_response:
  assumes "r = \<lparr>resp_uid = u, resp_allowed = True, resp_message = None, resp_patch = None,
                resp_patch_type = None\<rparr>"
    and "mutate_request cd rp pm raw r = r'"
  shows "resp_uid r' = u \<and>
    (if resp_allowed r' then resp_message r' = None \<and>
       (\<exists>p. decode_pod cd raw = Inr p \<and>
          (case resp_patch r' of
             None \<Rightarrow> pod_spec (fst (mutate_pod rp pm p)) = pod_spec p \<and> resp_patch_type r' = None
           | Some pt \<Rightarrow> pod_spec (fst (mutate_pod rp pm p)) \<noteq> pod_spec p
               \<and> resp_patch_type r' = Some ''JSONPatch''
               \<and> (\<exists>m. encode_pod cd (fst (mutate_pod rp pm p)) = Inr m \<and> json_patch cd raw m \<noteq> []
                    \<and> encode_patches cd (json_patch cd raw m) = Inr pt)))
     else resp_message r' \<noteq> None \<and> resp_patch r' = None \<and>
       (case decode_pod cd raw of
          Inl _ \<Rightarrow> True
        | Inr p \<Rightarrow> (case encode_pod cd (fst (mutate_pod rp pm p)) of
            Inl _ \<Rightarrow> True
          | Inr m \<Rightarrow> json_patch cd raw m = [] \<or> (\<exists>e. encode_patches cd (json_patch cd raw m) = Inl e))))"
proof (cases "decode_pod cd raw")
  case (Inl e)
  with assms show ?thesis by (auto simp: mutate_request_def error_response_def)
next
  case (Inr p)
  obtain p' modified where m: "mutate_pod rp pm p = (p', modified)" by fastforce
  have "modified = (pod_spec p' \<noteq> pod_spec p)"
    using m mutate_pod_target(5) [of pm p rp] mutate_pod_not_target [of pm p rp]
    by (cases "is_target pm p") auto
  with Inr m assms show ?thesis
    by (auto simp: mutate_request_def error_response_def Let_def split: sum.splits if_splits)
qed

definition sample_codec :: "nat codec" where
  "sample_codec =
     \<lparr>decode_review = (\<lambda>b. Inr (Some \<lparr>ar_uid = ''u'', ar_kind = ''Pod'', ar_raw = b\<rparr>)),
      decode_pod = (\<lambda>b. if b = ''pod'' then Inr sample_pod else Inl ''bad''),
      encode_pod = (\<lambda>p. Inr (''pod'' @ mstr (om_labels (pod_meta p)) instrumentedLabel)),
      json_patch = (\<lambda>a b. if a = b then [] else [0]),
      encode_patches = (\<lambda>ps. Inr ''patch''), encode_response = (\<lambda>r. Inr (resp_uid r))\<rparr>"

theorem mutate_request_response_witness:
  "resp_uid (mutate_request sample_codec sample_ref_parse sample_mutator ''junk''
      \<lparr>resp_uid = ''u'', resp_allowed = True, resp_message = None, resp_patch = None,
       resp_patch_type = None\<rparr>) = ''u''"
  using mutate_request_response [OF refl refl, of sample_codec sample_ref_parse sample_mutator "''junk''" "''u''"]
  by blast

text \<open>
  The answers of the handler. A review is sent only for a JSON request that decodes; it
  carries the UID of that request, and a patch only together with the permission, for an
  object of kind Pod that the mutation targets. All other answers are errors with the
  status 400, 415 or 500.
\<close>

lemma handle_mutate_answers:
  "case handle_mutate cd rp pm body ct of
     HttpError code msg \<Rightarrow> code \<in> {400, 415, 500}
   | Review bytes \<Rightarrow>
       ct = ''application/json'' \<and>
       (\<exists>b req r. body = Inr b \<and> decode_review cd b = Inr (Some req) \<and>
          encode_response cd r = Inr bytes \<and> resp_uid r = ar_uid req \<and>
          (resp_patch r = None \<or>
           resp_allowed r \<and> ar_kind req = ''Pod'' \<and>
           (\<exists>p. decode_pod cd (ar_raw req) = Inr p \<and> is_target pm p)))"
proof (cases "\<exists>b req. body = Inr b \<and> ct = ''application/json'' \<and> decode_review cd b = Inr (Some req)")
  case False
  then show ?thesis
    by (auto simp: handle_mutate_def split: sum.splits option.splits)
next
  case True
  then obtain b req where b: "body = Inr b" "ct = ''application/json''" "decode_review cd b = Inr (Some req)"
    by blast
  define r where "r = \<lparr>resp_uid = ar_uid req, resp_allowed = True, resp_message = None,
                       resp_patch = None, resp_patch_type = None\<rparr>"
  define r' where "r' =
    (if package_version (pm_inject pm) = []
     then error_response r ''Image Volume Path or SDK package version must be set''
     else if ar_kind req = ''Pod'' then mutate_request cd rp pm (ar_raw req) r else r)"
  have handle: "handle_mutate cd rp pm body ct = mutate_response cd r'"
    using b by (simp add: handle_mutate_def r'_def r_def Let_def)
  have uid: "resp_uid r' = ar_uid req"
    by (auto simp: r'_def r_def error_response_def mutate_request_def Let_def split: sum.split prod.split)
  have patch: "resp_allowed r' \<and> ar_kind req = ''Pod'' \<and>
      (\<exists>p. decode_pod cd (ar_raw req) = Inr p \<and> is_target pm p)" if "resp_patch r' \<noteq> None"
    using that mutate_pod_not_target [of pm _ rp]
    by (fastforce simp: r'_def r_def error_response_def mutate_request_def Let_def
        split: sum.splits prod.splits if_splits)
  show ?thesis
    unfolding handle mutate_response_def
  proof (cases "encode_response cd r'")
    case (Inr bytes)
    with b uid patch show "case (case encode_response cd r' of
         Inl err \<Rightarrow> HttpError 500 (''failed to marshal response: '' @ err) | Inr bytes \<Rightarrow> Review bytes) of
       HttpError code msg \<Rightarrow> code \<in> {400, 415, 500}
     | Review bytes \<Rightarrow> ct = ''application/json'' \<and>
       (\<exists>b req r. body = Inr b \<and> decode_review cd b = Inr (Some req) \<and>
          encode_response cd r = Inr bytes \<and> resp_uid r = ar_uid req \<and>
          (resp_patch r = None \<or> resp_allowed r \<and> ar_kind req = ''Pod'' \<and>
           (\<exists>p. decode_pod cd (ar_raw req) = Inr p \<and> is_target pm p)))"
      by (auto intro!: exI [of _ r'])
  qed simp
qed

end
