(* ===== verification/Container_Info.thy ===== *)
theory Container_Info
  imports Pod_Model
begin

text \<open>
  Container identity of a process (pkg/webhook/container.go): the container ID that a line
  of the cgroup file names, and the PID namespace that a symbolic link names.

  The regular expressions are lists of items that are matched by backtracking, the greedy
  choice first, so that the first result is the one of Go's leftmost-first semantics. Each
  expression has at most one group that the code reads.
\<close>

subsection \<open>Regular expressions\<close>

datatype re_item =
    One "char \<Rightarrow> bool"
  | Many "char \<Rightarrow> bool"            \<comment> \<open>\<open>x*\<close>\<close>
  | Some1 "char \<Rightarrow> bool"           \<comment> \<open>\<open>x+\<close>\<close>
  | CapSome1 "char \<Rightarrow> bool"        \<comment> \<open>\<open>(x+)\<close>\<close>
  | CapTimes nat "char \<Rightarrow> bool"    \<comment> \<open>\<open>(x{n})\<close>\<close>
  | AtEnd                          \<comment> \<open>\<open>$\<close>\<close>

text \<open>The non-empty prefixes of a class, the longest first, with what follows each.\<close>

fun greedy_splits :: "(char \<Rightarrow> bool) \<Rightarrow> string \<Rightarrow> (string \<times> string) list" where
  "greedy_splits p [] = []"
| "greedy_splits p (c # s) =
     (if p c then map (\<lambda>(a, b). (c # a, b)) (greedy_splits p s) @ [([c], s)] else [])"

text \<open>All matches of the items at the start of a string, each as the text of the group.\<close>

function re_match :: "re_item list \<Rightarrow> string \<Rightarrow> string list" where
  "re_match [] s = [[]]"
| "re_match (One p # is) s = (case s of [] \<Rightarrow> [] | c # cs \<Rightarrow> if p c then re_match is cs else [])"
| "re_match (Many p # is) s =
     (case s of [] \<Rightarrow> [] | c # cs \<Rightarrow> if p c then re_match (Many p # is) cs else []) @ re_match is s"
| "re_match (Some1 p # is) s = (case s of [] \<Rightarrow> [] | c # cs \<Rightarrow> if p c then re_match (Many p # is) cs else [])"
| "re_match (CapSome1 p # is) s =
     concat (map (\<lambda>(a, b). map (\<lambda>r. a @ r) (re_match is b)) (greedy_splits p s))"
| "re_match (CapTimes n p # is) s =
     (if n \<le> length s \<and> list_all p (take n s) then map (\<lambda>r. take n s @ r) (re_match is (drop n s)) else [])"
| "re_match (AtEnd # is) s = (if s = [] then re_match is s else [])"
  by pat_completeness auto
termination
  by (relation "measures [\<lambda>(is, s). length is, \<lambda>(is, s). length s]") auto

declare re_match.simps(3) [simp del]

lemma re_match_many [simp]:
  "re_match (Many p # is) [] = re_match is []"
  "re_match (Many p # is) (c # cs) = (if p c then re_match (Many p # is) cs else []) @ re_match is (c # cs)"
  by (simp_all add: re_match.simps(3))

text \<open>\<open>FindStringSubmatch\<close> of an anchored expression: the group of the first match.\<close>

definition find_submatch :: "re_item list \<Rightarrow> string \<Rightarrow> string option" where
  "find_submatch re s = (case re_match re s of [] \<Rightarrow> None | m # ms \<Rightarrow> Some m)"

definition dot :: "char \<Rightarrow> bool" where "dot c \<longleftrightarrow> c \<noteq> CHR 0x0A"

definition lower_hex :: "char \<Rightarrow> bool" where
  "lower_hex c \<longleftrightarrow> is_digit c \<or> c \<in> set ''abcdef''"

definition any_hex :: "char \<Rightarrow> bool" where
  "any_hex c \<longleftrightarrow> lower_hex c \<or> c \<in> set ''ABCDEF''"

definition lit :: "string \<Rightarrow> re_item list" where
  "lit s = map (\<lambda>c. One (\<lambda>d. d = c)) s"

text \<open>The four expressions of \<open>cgroupFormats\<close>, in the order in which they are tried.\<close>

definition scope_format :: "re_item list" where
  "scope_format =
     [Some1 is_digit] @ lit '':'' @ [Many dot] @ lit '':'' @ [Many dot] @ lit ''/'' @ [Many dot] @ lit ''-''
     @ [CapSome1 any_hex] @ lit ''.scope''"

definition kubepods_format :: "re_item list" where
  "kubepods_format =
     [Some1 is_digit] @ lit '':'' @ [Many dot] @ lit '':/kubepods'' @ [Many dot, CapTimes 64 lower_hex]"

definition k8s_io_format :: "re_item list" where
  "k8s_io_format = [Some1 is_digit] @ lit '':'' @ [Many dot] @ lit '':/k8s.io/'' @ [CapTimes 64 lower_hex]"

definition fallback_format :: "re_item list" where
  "fallback_format =
     [Some1 is_digit] @ lit '':'' @ [Many dot] @ lit '':'' @ [Many dot] @ lit ''/'' @ [Many dot] @ lit ''/''
     @ [Many dot] @ lit ''/'' @ [CapTimes 64 any_hex]"

definition cgroup_formats :: "re_item list list" where
  "cgroup_formats = [scope_format, kubepods_format, k8s_io_format, fallback_format]"

fun first_submatch :: "re_item list list \<Rightarrow> string \<Rightarrow> string option" where
  "first_submatch [] entry = None"
| "first_submatch (re # res) entry =
     (case find_submatch re entry of Some cid \<Rightarrow> Some cid | None \<Rightarrow> first_submatch res entry)"

definition find_cgroup :: "string \<Rightarrow> string option" where
  "find_cgroup entry = first_submatch cgroup_formats entry"

subsection \<open>Namespace and container of a process\<close>

text \<open>\<open>strconv.ParseUint(s, 10, bits)\<close>; \<open>None\<close> for an error.\<close>

definition parse_uint :: "nat \<Rightarrow> string \<Rightarrow> nat option" where
  "parse_uint bits s =
     (if s \<noteq> [] \<and> list_all is_digit s \<and> nat_of_digits 0 s < 2 ^ bits then Some (nat_of_digits 0 s)
      else None)"

datatype info_error =
    NsOpen string | NsReadlink string | NsParse string | NsMissing string
  | CgroupRead string | NoContainerEntry

text \<open>
  \<open>findNamespace\<close>: \<open>opened\<close> is the result of opening the link, \<open>target\<close> what reading the
  link returns.
\<close>

definition find_namespace :: "string option \<Rightarrow> string + string \<Rightarrow> info_error + 32 word" where
  "find_namespace open_error target =
     (case open_error of Some e \<Rightarrow> Inl (NsOpen e) | None \<Rightarrow>
      case target of Inl e \<Rightarrow> Inl (NsReadlink e) | Inr ns_pid \<Rightarrow>
      case (last_index_byte ns_pid (CHR ''[''), last_index_byte ns_pid (CHR '']'')) of
        (Some start, Some stop) \<Rightarrow>
          if stop > start then
            (case parse_uint 32 (take (stop - (start + 1)) (drop (start + 1) ns_pid)) of
               Some n \<Rightarrow> Inr (of_nat n)
             | None \<Rightarrow> Inl (NsParse (take (stop - (start + 1)) (drop (start + 1) ns_pid))))
          else Inl (NsMissing ns_pid)
      | _ \<Rightarrow> Inl (NsMissing ns_pid))"

text \<open>The loop over the lines of the cgroup file.\<close>

fun first_cgroup :: "string list \<Rightarrow> string option" where
  "first_cgroup [] = None"
| "first_cgroup (e # es) = (case find_cgroup e of Some cid \<Rightarrow> Some cid | None \<Rightarrow> first_cgroup es)"

definition container_info_for_pid ::
  "info_error + 32 word \<Rightarrow> string + string \<Rightarrow> info_error + container_info" where
  "container_info_for_pid ns_result cgroup_bytes =
     (case ns_result of Inl e \<Rightarrow> Inl e | Inr ns \<Rightarrow>
      case cgroup_bytes of Inl e \<Rightarrow> Inl (CgroupRead e) | Inr bytes \<Rightarrow>
      case first_cgroup (split_byte (CHR 0x0A) bytes) of
        Some cid \<Rightarrow> Inr \<lparr>container_id = cid, pid_namespace = ns\<rparr>
      | None \<Rightarrow> Inl NoContainerEntry)"

subsection \<open>What a match is\<close>

lemma greedy_splits_sound:
  "(a, b) \<in> set (greedy_splits p s) \<Longrightarrow> s = a @ b \<and> a \<noteq> [] \<and> list_all p a"
  by (induction s arbitrary: a) (auto split: if_splits)

text \<open>The group of a match is a run of hexadecimal digits of the string.\<close>

fun caps_hex :: "re_item list \<Rightarrow> bool" where
  "caps_hex [] = False"
| "caps_hex (CapSome1 p # is) = (p = any_hex \<and> \<not> list_ex (\<lambda>i. case i of CapSome1 _ \<Rightarrow> True | CapTimes _ _ \<Rightarrow> True | _ \<Rightarrow> False) is)"
| "caps_hex (CapTimes n p # is) = (n = 64 \<and> p \<in> {lower_hex, any_hex} \<and> \<not> list_ex (\<lambda>i. case i of CapSome1 _ \<Rightarrow> True | CapTimes _ _ \<Rightarrow> True | _ \<Rightarrow> False) is)"
| "caps_hex (_ # is) = caps_hex is"

abbreviation is_cap :: "re_item \<Rightarrow> bool" where
  "is_cap i \<equiv> (case i of CapSome1 _ \<Rightarrow> True | CapTimes _ _ \<Rightarrow> True | _ \<Rightarrow> False)"

lemma re_match_no_cap: "\<not> list_ex is_cap is \<Longrightarrow> r \<in> set (re_match is s) \<Longrightarrow> r = []"
proof (induction "is" s rule: re_match.induct)
  case (3 p "is" s)
  then show ?case by (cases s) (auto split: if_splits)
qed (auto split: list.splits if_splits)

lemma lower_any_hex: "list_all lower_hex s \<Longrightarrow> list_all any_hex s"
  by (auto simp: list_all_iff any_hex_def)

lemma contains_Cons: "contains s r \<Longrightarrow> contains (c # s) r"
  by (auto simp: contains_def)

lemma contains_middle: "contains (a @ r @ b) r"
  by (auto simp: contains_iff)

lemma re_match_hex:
  "caps_hex is \<Longrightarrow> r \<in> set (re_match is s) \<Longrightarrow> r \<noteq> [] \<and> list_all any_hex r \<and> contains s r"
proof (induction "is" s rule: re_match.induct)
  case (2 p "is" s)
  then show ?case by (cases s) (auto split: if_splits intro: contains_Cons)
next
  case (3 p "is" s)
  show ?case
  proof (cases "r \<in> set (re_match is s)")
    case False
    with "3.prems"(2) obtain c cs where "s = c # cs" "r \<in> set (re_match (Many p # is) cs)" "p c"
      by (cases s) (auto split: if_splits)
    with 3 show ?thesis by (auto intro: contains_Cons)
  qed (use 3 in simp)
next
  case (4 p "is" s)
  then show ?case by (cases s) (auto split: if_splits intro: contains_Cons)
next
  case (5 p "is" s)
  then obtain a b q where ab: "(a, b) \<in> set (greedy_splits p s)" "q \<in> set (re_match is b)" "r = a @ q" "p = any_hex"
    by auto
  moreover have "q = []" by (rule re_match_no_cap [OF _ ab(2)]) (use 5 in auto)
  ultimately show ?case
    using greedy_splits_sound [OF ab(1)] contains_middle [of "[]" a b] by simp
next
  case (6 n p "is" s)
  then obtain q where q: "q \<in> set (re_match is (drop n s))" "r = take n s @ q" "64 \<le> length s"
    "list_all p (take n s)" "n = 64" "p = lower_hex \<or> p = any_hex"
    by (auto split: if_splits)
  moreover have "q = []" by (rule re_match_no_cap [OF _ q(1)]) (use 6 in auto)
  moreover have "list_all any_hex (take n s)" using q lower_any_hex by auto
  moreover have "contains s (take n s)" using contains_middle [of "[]" "take n s" "drop n s"] by simp
  ultimately show ?case by auto
qed (auto split: if_splits)

lemma formats_caps: "list_all caps_hex cgroup_formats"
  by (simp add: cgroup_formats_def scope_format_def kubepods_format_def k8s_io_format_def
      fallback_format_def lit_def)


lemma find_cgroup_hex:
  "find_cgroup e = Some cid \<Longrightarrow> cid \<noteq> [] \<and> list_all any_hex cid \<and> contains e cid"
proof -
  have "list_all caps_hex res \<Longrightarrow> first_submatch res e = Some cid \<Longrightarrow>
      cid \<noteq> [] \<and> list_all any_hex cid \<and> contains e cid" for res
  proof (induction res e rule: first_submatch.induct)
    case (2 re res e)
    show ?case
    proof (cases "find_submatch re e")
      case (Some m)
      then have "m \<in> set (re_match re e)" by (auto simp: find_submatch_def split: list.splits)
      with 2 Some re_match_hex [of re m e] show ?thesis by simp
    qed (use 2 in simp)
  qed simp
  with formats_caps show "find_cgroup e = Some cid \<Longrightarrow> ?thesis"
    unfolding find_cgroup_def by blast
qed

lemma first_cgroup_Some:
  "first_cgroup es = Some cid \<Longrightarrow> \<exists>e \<in> set es. find_cgroup e = Some cid"
  by (induction es) (auto split: option.splits)

lemma first_cgroup_None: "first_cgroup es = None \<longleftrightarrow> (\<forall>e \<in> set es. find_cgroup e = None)"
  by (induction es) (auto split: option.splits)

subsection \<open>The scope format finds the last component\<close>

definition scope_suffix :: "string \<Rightarrow> string" where
  "scope_suffix cid = ''-'' @ cid @ ''.scope''"

text \<open>
  Items that, before a scope suffix, either fail or yield its identifier, and that fail on a
  string without a dash.
\<close>

definition yields :: "string \<Rightarrow> re_item list \<Rightarrow> bool" where
  "yields cid is \<longleftrightarrow>
     (\<forall>x. list_all dot x \<longrightarrow>
        re_match is (x @ scope_suffix cid) = [] \<or> hd (re_match is (x @ scope_suffix cid)) = cid) \<and>
     (\<forall>t. CHR ''-'' \<notin> set t \<longrightarrow> re_match is t = [])"

lemma greedy_splits_longest:
  "a \<noteq> [] \<Longrightarrow> list_all p a \<Longrightarrow> \<not> p c \<Longrightarrow> \<exists>xs. greedy_splits p (a @ c # s) = (a, c # s) # xs"
proof (induction a)
  case (Cons x a)
  then show ?case by (cases "a = []") auto
qed simp

lemma re_match_many_append:
  "list_all p u \<Longrightarrow> re_match is t \<noteq> [] \<Longrightarrow> re_match (Many p # is) (u @ t) \<noteq> []"
proof (induction u)
  case Nil
  then show ?case by (cases t) auto
qed auto

lemma re_match_some1_append:
  "u \<noteq> [] \<Longrightarrow> list_all p u \<Longrightarrow> re_match is t \<noteq> [] \<Longrightarrow> re_match (Some1 p # is) (u @ t) \<noteq> []"
  using re_match_many_append [of p _ "is" t] by (cases u) auto

lemma re_match_one: "p c \<Longrightarrow> re_match is t \<noteq> [] \<Longrightarrow> re_match (One p # is) (c # t) \<noteq> []"
  by simp

lemma hd_append_cases: "(xs = [] \<or> hd xs = a) \<Longrightarrow> (ys = [] \<or> hd ys = a) \<Longrightarrow> xs @ ys = [] \<or> hd (xs @ ys) = a"
  by (cases xs) auto

abbreviation scope_tail :: "re_item list" where
  "scope_tail \<equiv> lit ''-'' @ [CapSome1 any_hex] @ lit ''.scope''"

lemma scope_tail_suffix:
  assumes "cid \<noteq> []" "list_all any_hex cid"
  shows "re_match scope_tail (scope_suffix cid) \<noteq> [] \<and> hd (re_match scope_tail (scope_suffix cid)) = cid"
proof -
  have "\<not> any_hex (CHR ''.'')" by (simp add: any_hex_def lower_hex_def is_digit_def)
  from greedy_splits_longest [OF assms this, of "''scope''"] obtain xs where
    "greedy_splits any_hex (cid @ ''.scope'') = (cid, ''.scope'') # xs" by auto
  then show ?thesis by (simp add: scope_suffix_def lit_def)
qed

lemma no_dash_many:
  "(\<And>t. CHR ''-'' \<notin> set t \<Longrightarrow> re_match is t = []) \<Longrightarrow> CHR ''-'' \<notin> set t \<Longrightarrow> re_match (Many p # is) t = []"
  by (induction t) auto

lemma no_dash_tail: "CHR ''-'' \<notin> set t \<Longrightarrow> re_match scope_tail t = []"
  by (cases t) (auto simp: lit_def)

lemma cid_no_dash: "list_all any_hex cid \<Longrightarrow> CHR ''-'' \<notin> set (cid @ ''.scope'')"
  by (auto simp: list_all_iff any_hex_def lower_hex_def is_digit_def)

lemma yields_base:
  assumes "cid \<noteq> []" "list_all any_hex cid"
  shows "yields cid (Many dot # scope_tail)"
  unfolding yields_def
proof (intro conjI allI impI)
  fix t :: string assume "CHR ''-'' \<notin> set t"
  then show "re_match (Many dot # scope_tail) t = []" by (intro no_dash_many no_dash_tail)
next
  fix x :: string assume dots: "list_all dot x"
  note suf = scope_tail_suffix [OF assms]
  have "re_match (Many dot # scope_tail) t = []" if "t = cid @ ''.scope''" for t
    unfolding that by (intro no_dash_many no_dash_tail cid_no_dash [OF assms(2)])
  then have base: "re_match (Many dot # scope_tail) (scope_suffix cid) = re_match scope_tail (scope_suffix cid)"
    by (simp add: scope_suffix_def)
  from dots have "re_match (Many dot # scope_tail) (x @ scope_suffix cid) \<noteq> [] \<and>
      hd (re_match (Many dot # scope_tail) (x @ scope_suffix cid)) = cid"
    by (induction x) (use suf base in auto)
  then show "re_match (Many dot # scope_tail) (x @ scope_suffix cid) = [] \<or>
      hd (re_match (Many dot # scope_tail) (x @ scope_suffix cid)) = cid" by blast
qed

lemma yields_One:
  assumes "yields cid is" and "\<not> p (CHR ''-'')"
  shows "yields cid (One p # is)"
  unfolding yields_def
proof (intro conjI allI impI)
  fix t :: string assume "CHR ''-'' \<notin> set t"
  with assms(1) show "re_match (One p # is) t = []" by (cases t) (auto simp: yields_def)
next
  fix x :: string assume "list_all dot x"
  with assms show "re_match (One p # is) (x @ scope_suffix cid) = [] \<or>
      hd (re_match (One p # is) (x @ scope_suffix cid)) = cid"
    by (cases x) (auto simp: yields_def scope_suffix_def)
qed

lemma yields_Many:
  assumes "yields cid is" and "list_all any_hex cid"
  shows "yields cid (Many p # is)"
  unfolding yields_def
proof (intro conjI allI impI)
  fix t :: string assume "CHR ''-'' \<notin> set t"
  with assms(1) show "re_match (Many p # is) t = []" by (intro no_dash_many) (auto simp: yields_def)
next
  fix x :: string assume "list_all dot x"
  have "re_match (Many p # is) t = []" if "t = cid @ ''.scope''" for t
    unfolding that by (intro no_dash_many cid_no_dash [OF assms(2)]) (use assms(1) in \<open>auto simp: yields_def\<close>)
  then have base: "re_match (Many p # is) (scope_suffix cid) = re_match is (scope_suffix cid)"
    by (simp add: scope_suffix_def)
  from \<open>list_all dot x\<close> show "re_match (Many p # is) (x @ scope_suffix cid) = [] \<or>
      hd (re_match (Many p # is) (x @ scope_suffix cid)) = cid"
  proof (induction x)
    case Nil
    show ?case using assms(1) by (simp add: base) (simp add: yields_def, metis append_Nil list.pred_inject(1))
  next
    case (Cons c x)
    have "re_match is ((c # x) @ scope_suffix cid) = [] \<or> hd (re_match is ((c # x) @ scope_suffix cid)) = cid"
      using assms(1) Cons.prems unfolding yields_def by blast
    moreover have "(if p c then re_match (Many p # is) (x @ scope_suffix cid) else []) = [] \<or>
        hd (if p c then re_match (Many p # is) (x @ scope_suffix cid) else []) = cid"
      using Cons by auto
    ultimately show ?case unfolding append_Cons re_match_many by (intro hd_append_cases)
  qed
qed

lemma yields_Some1:
  assumes "yields cid is" and "list_all any_hex cid" and "\<not> p (CHR ''-'')"
  shows "yields cid (Some1 p # is)"
proof -
  from yields_Many [OF assms(1,2), of p] have "yields cid (One p # Many p # is)"
    using assms(3) by (intro yields_One)
  moreover have "re_match (Some1 p # is) s = re_match (One p # Many p # is) s" for s
    by (simp split: list.split)
  ultimately show ?thesis by (simp add: yields_def)
qed

lemma scope_format_items:
  "scope_format =
     [Some1 is_digit, One (\<lambda>d. d = CHR '':''), Many dot, One (\<lambda>d. d = CHR '':''), Many dot,
      One (\<lambda>d. d = CHR ''/''), Many dot] @ scope_tail"
  by (simp add: scope_format_def lit_def)

lemma yields_scope_format:
  assumes "cid \<noteq> []" "list_all any_hex cid"
  shows "yields cid scope_format"
  unfolding scope_format_items append_Cons append_Nil
  by (intro yields_Some1 yields_One yields_Many yields_base [unfolded append_Cons append_Nil] assms)
     (simp_all add: is_digit_def)

lemma find_cgroup_scope:
  assumes ds: "ds \<noteq> []" "list_all is_digit ds" and cid: "cid \<noteq> []" "list_all any_hex cid"
    and dots: "list_all dot a" "list_all dot b" "list_all dot c"
  shows "find_cgroup (ds @ '':'' @ a @ '':'' @ b @ ''/'' @ c @ scope_suffix cid) = Some cid"
proof -
  have dig: "dot x" if "is_digit x" for x using that by (auto simp: is_digit_def dot_def)
  have tail: "re_match scope_tail (scope_suffix cid) \<noteq> []" using scope_tail_suffix [OF cid] by blast
  have ne: "re_match scope_format (ds @ '':'' @ a @ '':'' @ b @ ''/'' @ c @ scope_suffix cid) \<noteq> []"
    unfolding scope_format_items append_Cons append_Nil
    by (intro re_match_some1_append re_match_one re_match_many_append tail [unfolded append_Cons append_Nil] ds dots refl)
  define x where "x = ds @ '':'' @ a @ '':'' @ b @ ''/'' @ c"
  have e: "ds @ '':'' @ a @ '':'' @ b @ ''/'' @ c @ scope_suffix cid = x @ scope_suffix cid"
    by (simp add: x_def)
  have "list_all dot ds" using ds(2) dig by (simp add: list_all_iff)
  moreover have "dot (CHR '':'')" "dot (CHR ''/'')" by (simp_all add: dot_def)
  ultimately have "list_all dot x" using dots by (simp add: x_def)
  then have "hd (re_match scope_format (x @ scope_suffix cid)) = cid"
    using yields_scope_format [OF cid] ne [unfolded e] unfolding yields_def by blast
  then have "find_submatch scope_format (x @ scope_suffix cid) = Some cid"
    using ne [unfolded e] by (auto simp: find_submatch_def split: list.split)
  then show ?thesis unfolding e by (simp add: find_cgroup_def cgroup_formats_def)
qed

subsection \<open>Properties\<close>

text \<open>
  The line that systemd's cgroup driver writes, with a container's scope as its last
  component, yields that container's ID, whatever the path before it holds: the match is
  greedy, so an earlier component of the same shape is never taken for the ID.
\<close>

lemma scope_line_yields_container_id:
  assumes "ds \<noteq> []" "list_all is_digit ds" and "cid \<noteq> []" "list_all any_hex cid"
    and "list_all dot a" "list_all dot b" "list_all dot c"
  shows "find_cgroup (ds @ '':'' @ a @ '':'' @ b @ ''/'' @ c @ ''-'' @ cid @ ''.scope'') = Some cid"
  using find_cgroup_scope [OF assms] by (simp add: scope_suffix_def)

text \<open>
  C12: what the webhook accepts as the identity of a process. A result carries the namespace
  that was found, and an ID that is a non-empty run of hexadecimal digits of one line of the
  process's cgroup file; the file of a process outside any known container gives an error.
\<close>

theorem container_info_sound:
  "case container_info_for_pid ns_result cgroup of
     Inr info \<Rightarrow>
       ns_result = Inr (pid_namespace info) \<and> container_id info \<noteq> [] \<and>
       list_all any_hex (container_id info) \<and>
       (\<exists>bytes line. cgroup = Inr bytes \<and> line \<in> set (split_byte (CHR 0x0A) bytes) \<and>
          contains line (container_id info))
   | Inl e \<Rightarrow>
       ns_result = Inl e \<or> (\<exists>msg. cgroup = Inl msg \<and> e = CgroupRead msg) \<or>
       (\<exists>bytes. cgroup = Inr bytes \<and> e = NoContainerEntry \<and>
          find_cgroup ` set (split_byte (CHR 0x0A) bytes) \<subseteq> {None})"
proof (cases ns_result)
  case (Inr ns)
  show ?thesis
  proof (cases cgroup)
    case (Inr bytes)
    show ?thesis
    proof (cases "first_cgroup (split_byte (CHR 0x0A) bytes)")
      case None
      with \<open>ns_result = Inr ns\<close> Inr show ?thesis
        using first_cgroup_None [of "split_byte (CHR 0x0A) bytes"] by (auto simp: container_info_for_pid_def)
    next
      case (Some cid)
      with first_cgroup_Some find_cgroup_hex obtain line where
        "line \<in> set (split_byte (CHR 0x0A) bytes)" "cid \<noteq> []" "list_all any_hex cid" "contains line cid"
        by blast
      with Some \<open>ns_result = Inr ns\<close> Inr show ?thesis
        by (auto simp: container_info_for_pid_def)
    qed
  qed (simp add: Inr container_info_for_pid_def)
qed (simp add: container_info_for_pid_def)

lemma last_index_of_end: "last_index_byte (s @ [b]) b = Some (length s)"
  using last_index_byte_append [of b "[]" s] by simp

text \<open>
  The PID namespace is read from the kernel's link: for every 32-bit inode number n the
  target \<open>pid:[n]\<close> yields n.
\<close>

lemma namespace_of_link:
  assumes "n < 2 ^ 32"
  shows "find_namespace None (Inr (''pid:['' @ digits_of n @ '']'')) = Inr (of_nat n)"
proof -
  have no: "CHR ''['' \<notin> set (digits_of n @ '']'')"
    using digits_of_digit [of n] by (auto simp: list_all_iff is_digit_def)
  have start: "last_index_byte (''pid:['' @ digits_of n @ '']'') (CHR ''['') = Some 4"
    using last_index_byte_append [OF no, of "''pid:''"] by simp
  have stop: "last_index_byte (''pid:['' @ digits_of n @ '']'') (CHR '']'') = Some (5 + length (digits_of n))"
    using last_index_of_end [of "''pid:['' @ digits_of n" "CHR '']''"] by simp
  have "parse_uint 32 (digits_of n) = Some n"
    using assms by (simp add: parse_uint_def digits_of_digit nat_of_digits_of)
  moreover have "take (5 + length (digits_of n) - (4 + 1)) (drop (4 + 1) (''pid:['' @ digits_of n @ '']'')) = digits_of n"
    by simp
  ultimately show ?thesis
    unfolding find_namespace_def using start stop by (simp only: option.case sum.case prod.case) simp
qed

end
