(* ===== verification/Process_Scanner.thy ===== *)
theory Process_Scanner
  imports Pod_Env Container_Info
begin

text \<open>
  The scan of the processes that run when Beyla starts (pkg/webhook/scanner.go): the
  language of each process, its environment and container, and the oldest version of the
  SDK package in use. What the host's /proc file system shows of a process is a parameter.
\<close>

record scanner =
  oldest_version :: string
  current_version :: string

definition dummySDKVersion :: string where "dummySDKVersion = ''v999.999.999''"

definition new_initial_state_scanner :: "string \<Rightarrow> scanner" where
  "new_initial_state_scanner current = \<lparr>oldest_version = dummySDKVersion, current_version = current\<rparr>"

definition oldest_sdk_version :: "scanner \<Rightarrow> string" where
  "oldest_sdk_version s =
     (if oldest_version s = dummySDKVersion then current_version s else oldest_version s)"

subsection \<open>The language of a process\<close>

text \<open>\<open>rubyModule\<close> and \<open>pythonModule\<close>: \<open>^(.*/)?name[\d.]*$\<close>.\<close>

definition module_match :: "string \<Rightarrow> string \<Rightarrow> bool" where
  "module_match name s =
     (let base = lit name @ [Many (\<lambda>c. is_digit c \<or> c = CHR ''.''), AtEnd]
      in re_match ([Many dot] @ lit ''/'' @ base) s \<noteq> [] \<or> re_match base s \<noteq> [])"

definition instrumentable_from_module_map :: "string \<Rightarrow> instrumentable" where
  "instrumentable_from_module_map m =
     (if contains m ''libcoreclr.so'' then InstrumentableDotnet
      else if contains m ''libjvm.so'' then InstrumentableJava
      else if has_suffix m ''/node'' \<or> m = ''node'' then InstrumentableNodejs
      else if module_match ''ruby'' m then InstrumentableRuby
      else if module_match ''python'' m then InstrumentablePython
      else InstrumentableGeneric)"

definition instrumentable_from_environ :: "string \<Rightarrow> instrumentable" where
  "instrumentable_from_environ env =
     (if contains env ''ASPNET'' \<or> contains env ''DOTNET'' then InstrumentableDotnet
      else InstrumentableGeneric)"

fun first_language :: "string list \<Rightarrow> instrumentable option" where
  "first_language [] = None"
| "first_language (m # ms) =
     (if instrumentable_from_module_map m \<noteq> InstrumentableGeneric
      then Some (instrumentable_from_module_map m) else first_language ms)"

text \<open>\<open>findProcLanguageCheap\<close>; the arguments are the results of reading the two files.\<close>

definition find_proc_language_cheap :: "string list option \<Rightarrow> string option \<Rightarrow> instrumentable" where
  "find_proc_language_cheap lib_maps environ_bytes =
     (case (case lib_maps of Some ms \<Rightarrow> first_language ms | None \<Rightarrow> None) of
        Some t \<Rightarrow> t
      | None \<Rightarrow> (case environ_bytes of
          None \<Rightarrow> InstrumentableGeneric
        | Some bytes \<Rightarrow> instrumentable_from_environ bytes))"

subsection \<open>The environment\<close>

fun env_strs_loop :: "strmap \<Rightarrow> string list \<Rightarrow> strmap" where
  "env_strs_loop vars [] = vars"
| "env_strs_loop vars (s # ss) =
     (case split2 (CHR ''='') s of
        [k, v] \<Rightarrow>
          let key = trim_space k; val = trim_space v
          in env_strs_loop (if key \<noteq> [] \<and> val \<noteq> [] then mput vars key val else vars) ss
      | _ \<Rightarrow> env_strs_loop vars ss)"

definition env_strs_to_map :: "string list \<Rightarrow> strmap" where
  "env_strs_to_map ss = env_strs_loop [] ss"

subsection \<open>The scan\<close>

text \<open>
  What the host shows of a process: its library maps and the bytes of its environment, read
  for the language; whether the process still exists when it is opened; its environment as
  a list; its container.
\<close>

record proc_view =
  pv_maps :: "string list option"
  pv_environ_bytes :: "string option"
  pv_exists :: bool
  pv_environ :: "string list option"
  pv_container :: "info_error + container_info"

type_synonym host = "int \<Rightarrow> proc_view"
type_synonym initial_state = "(string, process_info list) gomap"

fun fetch_loop :: "(int, process_info) gomap \<Rightarrow> int list \<Rightarrow> (int, process_info) gomap" where
  "fetch_loop procs [] = procs"
| "fetch_loop procs (pid # pids) = fetch_loop (mput procs pid (empty_process_info\<lparr>pi_pid := pid\<rparr>)) pids"

definition fetch_processes :: "string + int list \<Rightarrow> string + (int, process_info) gomap" where
  "fetch_processes pids = (case pids of Inl e \<Rightarrow> Inl e | Inr ps \<Rightarrow> Inr (fetch_loop [] ps))"

definition read_environ :: "host \<Rightarrow> process_info \<Rightarrow> process_info" where
  "read_environ h v =
     (case pv_environ (h (pi_pid v)) of Some env \<Rightarrow> v\<lparr>pi_env := env_strs_to_map env\<rparr> | None \<Rightarrow> v)"

definition observe_version :: "host \<Rightarrow> process_info \<Rightarrow> scanner \<Rightarrow> scanner" where
  "observe_version h v s =
     (case pv_environ (h (pi_pid v)) of
        Some env \<Rightarrow>
          (case mget (env_strs_to_map env) envVarSDKVersion of
             Some ver \<Rightarrow>
               if semver_is_valid ver \<and> semver_compare ver (oldest_version s) < 0
               then s\<lparr>oldest_version := ver\<rparr> else s
           | None \<Rightarrow> s)
      | None \<Rightarrow> s)"

text \<open>One turn of the loop of \<open>FindExistingProcesses\<close>.\<close>

definition scan_process :: "host \<Rightarrow> process_info \<Rightarrow> scanner \<times> initial_state \<Rightarrow> scanner \<times> initial_state" where
  "scan_process h v st =
     (let (s, containers) = st;
          view = h (pi_pid v);
          v = v\<lparr>pi_kind := find_proc_language_cheap (pv_maps view) (pv_environ_bytes view)\<rparr>
      in if \<not> pv_exists view then (s, containers)
         else let s = observe_version h v s; v = read_environ h v in
           case pv_container view of
             Inl e \<Rightarrow> (s, containers)
           | Inr info \<Rightarrow>
               let v = v\<lparr>pi_container_info := Some info\<rparr> in
               (s, case mget containers (container_id info) of
                     Some existing \<Rightarrow> mput containers (container_id info) (existing @ [v])
                   | None \<Rightarrow> mput containers (container_id info) [v]))"

fun scan_loop :: "host \<Rightarrow> process_info list \<Rightarrow> scanner \<times> initial_state \<Rightarrow> scanner \<times> initial_state" where
  "scan_loop h [] st = st"
| "scan_loop h (v # vs) st = scan_loop h vs (scan_process h v st)"

definition find_existing_processes ::
  "host \<Rightarrow> string + int list \<Rightarrow> scanner \<Rightarrow> scanner \<times> (string + initial_state)" where
  "find_existing_processes h pids s =
     (case fetch_processes pids of
        Inl e \<Rightarrow> (s, Inl e)
      | Inr procs \<Rightarrow> (let (s, containers) = scan_loop h (map snd procs) (s, []) in (s, Inr containers)))"

subsection \<open>What a scan observes\<close>

text \<open>The version a process runs with, where it is one that the scan takes into account.\<close>

definition seen_version :: "host \<Rightarrow> process_info \<Rightarrow> string option" where
  "seen_version h v =
     (if pv_exists (h (pi_pid v)) then
        (case pv_environ (h (pi_pid v)) of
           Some env \<Rightarrow>
             (case mget (env_strs_to_map env) envVarSDKVersion of
                Some ver \<Rightarrow> if semver_is_valid ver then Some ver else None | None \<Rightarrow> None)
         | None \<Rightarrow> None)
      else None)"

abbreviation keep_older :: "string \<Rightarrow> string \<Rightarrow> string" where
  "keep_older \<equiv> \<lambda>v old. if semver_compare v old < 0 then v else old"

definition seen_versions :: "host \<Rightarrow> process_info list \<Rightarrow> string list" where
  "seen_versions h vs = List.map_filter (seen_version h) vs"

lemma scan_process_oldest:
  "oldest_version (fst (scan_process h v (s, cs))) =
     (case seen_version h v of Some ver \<Rightarrow> keep_older ver (oldest_version s) | None \<Rightarrow> oldest_version s)"
  "current_version (fst (scan_process h v (s, cs))) = current_version s"
  by (auto simp: scan_process_def seen_version_def observe_version_def Let_def split: option.splits sum.splits)

lemma scan_loop_oldest:
  "oldest_version (fst (scan_loop h vs st)) = fold keep_older (seen_versions h vs) (oldest_version (fst st))
   \<and> current_version (fst (scan_loop h vs st)) = current_version (fst st)"
proof (induction h vs st rule: scan_loop.induct)
  case (2 h v vs st)
  obtain s cs where st: "st = (s, cs)" by fastforce
  show ?case
    using 2 by (auto simp: st seen_versions_def List.map_filter_simps scan_process_oldest split: option.split)
qed (simp add: seen_versions_def List.map_filter_simps)

text \<open>The record that a scanned process becomes, and the container it goes to.\<close>

definition scanned :: "host \<Rightarrow> process_info \<Rightarrow> process_info" where
  "scanned h v =
     (read_environ h (v\<lparr>pi_kind := find_proc_language_cheap (pv_maps (h (pi_pid v))) (pv_environ_bytes (h (pi_pid v)))\<rparr>))
       \<lparr>pi_container_info := (case pv_container (h (pi_pid v)) of Inr i \<Rightarrow> Some i | Inl _ \<Rightarrow> None)\<rparr>"

definition runs_in :: "host \<Rightarrow> string \<Rightarrow> process_info \<Rightarrow> bool" where
  "runs_in h cid v \<longleftrightarrow> pv_exists (h (pi_pid v)) \<and>
     (case pv_container (h (pi_pid v)) of Inr i \<Rightarrow> container_id i = cid | Inl _ \<Rightarrow> False)"

definition group :: "initial_state \<Rightarrow> string \<Rightarrow> process_info list" where
  "group cs cid = (case mget cs cid of Some vs \<Rightarrow> vs | None \<Rightarrow> [])"

lemma scan_process_group:
  "group (snd (scan_process h v (s, cs))) cid = group cs cid @ (if runs_in h cid v then [scanned h v] else [])"
  by (auto simp: scan_process_def group_def runs_in_def scanned_def Let_def split: option.splits sum.splits)

lemma scan_process_nonempty:
  "[] \<notin> ran (mget cs) \<Longrightarrow> [] \<notin> ran (mget (snd (scan_process h v (s, cs))))"
  by (auto simp: scan_process_def Let_def ran_def split: option.splits sum.splits if_splits)

lemma scan_loop_group:
  "group (snd (scan_loop h vs st)) cid = group (snd st) cid @ map (scanned h) (filter (runs_in h cid) vs)
   \<and> ([] \<notin> ran (mget (snd st)) \<longrightarrow> [] \<notin> ran (mget (snd (scan_loop h vs st))))"
proof (induction h vs st rule: scan_loop.induct)
  case (2 h v vs st)
  obtain s cs where st: "st = (s, cs)" by fastforce
  show ?case using 2 scan_process_nonempty by (simp add: st scan_process_group)
qed simp

lemma fetch_loop_get:
  "mget (fetch_loop m ps) pid =
     (if pid \<in> set ps then Some (empty_process_info\<lparr>pi_pid := pid\<rparr>) else mget m pid)"
  by (induction m ps rule: fetch_loop.induct) auto

lemma fetch_loop_wf: "wf_map m \<Longrightarrow> wf_map (fetch_loop m ps)"
  by (induction m ps rule: fetch_loop.induct) (auto intro: wf_map_mput)

definition fresh_process :: "int \<Rightarrow> process_info" where
  "fresh_process pid = empty_process_info\<lparr>pi_pid := pid\<rparr>"

lemma pid_fresh [simp]: "pi_pid (fresh_process pid) = pid"
  by (simp add: fresh_process_def)

lemma fetched_processes:
  "set (map snd (fetch_loop [] ps)) = fresh_process ` set ps"
  "distinct (map snd (fetch_loop [] ps))"
proof -
  have entry: "(pid, v) \<in> set (fetch_loop [] ps) \<longleftrightarrow> pid \<in> set ps \<and> v = fresh_process pid" for pid v
  proof -
    have "(pid, v) \<in> set (fetch_loop [] ps) \<longleftrightarrow> mget (fetch_loop [] ps) pid = Some v"
      using fetch_loop_wf [of "[]" ps] by (simp add: wf_map_def map_of_eq_Some_iff)
    then show ?thesis by (auto simp: fetch_loop_get fresh_process_def)
  qed
  then show "set (map snd (fetch_loop [] ps)) = fresh_process ` set ps"
    by force
  have "inj_on snd (set (fetch_loop [] ps))"
  proof (rule inj_onI)
    fix a b assume "a \<in> set (fetch_loop [] ps)" "b \<in> set (fetch_loop [] ps)" "snd a = snd b"
    with entry [of "fst a" "snd a"] entry [of "fst b" "snd b"] pid_fresh show "a = b"
      by (metis prod.collapse)
  qed
  moreover have "distinct (fetch_loop [] ps)"
    using fetch_loop_wf [of "[]" ps] by (auto simp: wf_map_def distinct_map)
  ultimately show "distinct (map snd (fetch_loop [] ps))"
    by (simp add: distinct_map)
qed

lemma find_existing_ok:
  "find_existing_processes h pids s = (s', Inr cs) \<longleftrightarrow>
     (\<exists>ps. pids = Inr ps \<and> scan_loop h (map snd (fetch_loop [] ps)) (s, []) = (s', cs))"
  by (auto simp: find_existing_processes_def fetch_processes_def split: sum.splits prod.splits)

subsection \<open>Modules\<close>

lemma re_match_lit: "re_match (lit w @ is) s \<noteq> [] \<longleftrightarrow> (\<exists>t. s = w @ t \<and> re_match is t \<noteq> [])"
proof (induction w arbitrary: s)
  case (Cons c w)
  then show ?case by (cases s) (auto simp: lit_def)
qed (simp add: lit_def)

lemma re_match_many_iff:
  "re_match (Many p # is) s \<noteq> [] \<longleftrightarrow> (\<exists>u t. s = u @ t \<and> list_all p u \<and> re_match is t \<noteq> [])"
proof (induction s)
  case (Cons c s)
  have "(\<exists>u t. c # s = u @ t \<and> list_all p u \<and> re_match is t \<noteq> []) \<longleftrightarrow>
      re_match is (c # s) \<noteq> [] \<or> p c \<and> (\<exists>u t. s = u @ t \<and> list_all p u \<and> re_match is t \<noteq> [])"
  proof
    assume "\<exists>u t. c # s = u @ t \<and> list_all p u \<and> re_match is t \<noteq> []"
    then obtain u t where "c # s = u @ t" "list_all p u" "re_match is t \<noteq> []" by blast
    then show "re_match is (c # s) \<noteq> [] \<or> p c \<and> (\<exists>u t. s = u @ t \<and> list_all p u \<and> re_match is t \<noteq> [])"
      by (cases u) auto
  next
    assume "re_match is (c # s) \<noteq> [] \<or> p c \<and> (\<exists>u t. s = u @ t \<and> list_all p u \<and> re_match is t \<noteq> [])"
    then show "\<exists>u t. c # s = u @ t \<and> list_all p u \<and> re_match is t \<noteq> []"
    proof
      assume "re_match is (c # s) \<noteq> []"
      then show ?thesis by (intro exI [of _ "[]"] exI [of _ "c # s"]) simp
    next
      assume "p c \<and> (\<exists>u t. s = u @ t \<and> list_all p u \<and> re_match is t \<noteq> [])"
      then obtain u t where "p c" "s = u @ t" "list_all p u" "re_match is t \<noteq> []" by blast
      then show ?thesis by (intro exI [of _ "c # u"] exI [of _ t]) simp
    qed
  qed
  moreover have "re_match (Many p # is) (c # s) \<noteq> [] \<longleftrightarrow>
      re_match is (c # s) \<noteq> [] \<or> p c \<and> re_match (Many p # is) s \<noteq> []" by auto
  ultimately show ?case unfolding Cons.IH by (simp only:)
qed simp

lemma module_match_iff:
  "module_match name s \<longleftrightarrow>
     (\<exists>dir v. s = dir @ name @ v \<and> list_all (\<lambda>c. is_digit c \<or> c = CHR ''.'') v \<and>
        (dir = [] \<or> last dir = CHR ''/'' \<and> list_all dot dir))"
proof -
  let ?v = "\<lambda>c. is_digit c \<or> c = CHR ''.''"
  have base: "re_match (lit name @ [Many ?v, AtEnd]) s \<noteq> [] \<longleftrightarrow> (\<exists>v. s = name @ v \<and> list_all ?v v)" for s
    unfolding re_match_lit re_match_many_iff by auto
  have "re_match ([Many dot] @ lit ''/'' @ lit name @ [Many ?v, AtEnd]) s \<noteq> [] \<longleftrightarrow>
      (\<exists>d v. s = d @ ''/'' @ name @ v \<and> list_all dot d \<and> list_all ?v v)"
    unfolding append_Cons append_Nil re_match_many_iff re_match_lit base by auto
  also have "\<dots> \<longleftrightarrow> (\<exists>dir v. s = dir @ name @ v \<and> list_all ?v v \<and> dir \<noteq> [] \<and>
      last dir = CHR ''/'' \<and> list_all dot dir)" (is "?l = ?r")
  proof
    assume ?l
    then obtain d v where "s = d @ ''/'' @ name @ v" "list_all dot d" "list_all ?v v" by blast
    then show ?r by (intro exI [of _ "d @ ''/''"] exI [of _ v]) (simp add: dot_def)
  next
    assume ?r
    then obtain dir v where d: "s = dir @ name @ v" "list_all ?v v" "dir \<noteq> []"
      "last dir = CHR ''/''" "list_all dot dir" by blast
    then obtain d where dd: "dir = d @ ''/''" by (metis append_butlast_last_id)
    with d show ?l by (intro exI [of _ d] exI [of _ v]) simp
  qed
  finally have dirs: "re_match ([Many dot] @ lit ''/'' @ lit name @ [Many ?v, AtEnd]) s \<noteq> [] \<longleftrightarrow> ?r" .
  have plain: "(\<exists>v. s = name @ v \<and> list_all ?v v) \<longleftrightarrow> (\<exists>dir v. s = dir @ name @ v \<and> list_all ?v v \<and> dir = [])"
    by simp
  show ?thesis
    unfolding module_match_def Let_def base dirs plain by blast
qed

lemma first_language_Some:
  "first_language ms = Some t \<Longrightarrow> \<exists>m \<in> set ms. t = instrumentable_from_module_map m"
  by (induction ms) (auto split: if_splits)

lemma oldest_in_use_bound:
  assumes "find_existing_processes h (Inr pids) (new_initial_state_scanner cur) = (s, Inr cs)"
  shows "(\<forall>pid ver. pid \<in> set pids \<longrightarrow> seen_version h (fresh_process pid) = Some ver \<longrightarrow>
            semver_compare ver dummySDKVersion < 0 \<longrightarrow> semver_compare (oldest_sdk_version s) ver \<le> 0)
    \<and> (oldest_sdk_version s = cur \<or>
        (\<exists>pid \<in> set pids. seen_version h (fresh_process pid) = Some (oldest_sdk_version s)))"
proof -
  let ?vs = "seen_versions h (map snd (fetch_loop [] pids))"
  from assms have "scan_loop h (map snd (fetch_loop [] pids)) (new_initial_state_scanner cur, []) = (s, cs)"
    by (auto simp: find_existing_ok)
  with scan_loop_oldest [of h "map snd (fetch_loop [] pids)" "(new_initial_state_scanner cur, [])"]
  have s: "oldest_version s = fold keep_older ?vs dummySDKVersion" "current_version s = cur"
    by (auto simp: new_initial_state_scanner_def)
  have vs: "ver \<in> set ?vs \<longleftrightarrow> (\<exists>pid \<in> set pids. seen_version h (fresh_process pid) = Some ver)" for ver
    by (simp add: seen_versions_def List.map_filter_def fetched_processes(1) [simplified] image_iff) force
  have "semver_compare (oldest_sdk_version s) ver \<le> 0"
    if "pid \<in> set pids" "seen_version h (fresh_process pid) = Some ver" "semver_compare ver dummySDKVersion < 0"
    for pid ver
  proof -
    from that(1,2) vs have "semver_compare (oldest_version s) ver \<le> 0"
      unfolding s(1) by (intro semver.oldest_fold_le) blast
    moreover from this that(3) have "oldest_version s \<noteq> dummySDKVersion"
      using semver.cmp_not_less [of ver dummySDKVersion] by auto
    ultimately show ?thesis by (simp add: oldest_sdk_version_def)
  qed
  moreover have "oldest_sdk_version s = cur \<or> oldest_sdk_version s \<in> set ?vs"
    using semver.oldest_fold_mem [of ?vs dummySDKVersion] by (auto simp: oldest_sdk_version_def s)
  ultimately show ?thesis using vs by blast
qed

subsection \<open>Properties\<close>

text \<open>
  The oldest version of the SDK package in use. After a scan, the version that the
  scanner reports is not newer than the version of any live process (the versions from
  v999.999.999 on excepted, which the scanner's initial value hides), and it is either the
  version of such a process or the current one.
\<close>

lemma oldest_version_in_use:
  assumes "find_existing_processes h (Inr pids) (new_initial_state_scanner cur) = (s, Inr cs)"
  shows "(\<forall>pid ver. pid \<in> set pids \<longrightarrow> seen_version h (fresh_process pid) = Some ver \<longrightarrow>
            semver_compare ver dummySDKVersion < 0 \<longrightarrow> semver_compare (oldest_sdk_version s) ver \<le> 0)
    \<and> (oldest_sdk_version s = cur \<or>
        (\<exists>pid \<in> set pids. seen_version h (fresh_process pid) = Some (oldest_sdk_version s)))"
  by (rule oldest_in_use_bound [OF assms])

text \<open>A host with three processes, two of which run with an SDK version.\<close>

definition sample_host :: host where
  "sample_host pid =
     \<lparr>pv_maps = Some [''/usr/lib/jvm/lib/server/libjvm.so''], pv_environ_bytes = None, pv_exists = True,
      pv_environ = (if pid = 1 then Some [''BEYLA_INJECTOR_SDK_PKG_VERSION=v0.0.5'', ''HOME=/'']
                    else if pid = 2 then Some [''BEYLA_INJECTOR_SDK_PKG_VERSION=v0.0.7''] else None),
      pv_container = (if pid = 3 then Inl NoContainerEntry
                      else Inr \<lparr>container_id = ''c1'', pid_namespace = 7\<rparr>)\<rparr>"

lemma sample_seen: "seen_version sample_host (fresh_process 1) = Some ''v0.0.5''"
  "semver_compare ''v0.0.5'' dummySDKVersion < 0"
  by code_simp+

text \<open>
  C11: the scan finds every process. After it, a container ID has an entry exactly where a
  live process runs in that container; the entry holds one record for each such process and
  no other, with the language, the environment and the container that the host shows.
\<close>

theorem scan_groups_by_container:
  assumes "find_existing_processes h (Inr pids) s0 = (s, Inr cs)"
  shows "case mget cs cid of
           None \<Rightarrow> \<forall>pid. pid \<in> set pids \<longrightarrow> \<not> runs_in h cid (fresh_process pid)
         | Some vs \<Rightarrow> vs \<noteq> [] \<and>
             set vs = scanned h ` {v. \<exists>pid. pid \<in> set pids \<and> v = fresh_process pid \<and> runs_in h cid v} \<and>
             length vs = card {pid. pid \<in> set pids \<and> runs_in h cid (fresh_process pid)}"
proof -
  let ?procs = "map snd (fetch_loop [] pids)"
  let ?in = "filter (runs_in h cid) ?procs"
  from assms have run: "scan_loop h ?procs (s0, []) = (s, cs)" by (auto simp: find_existing_ok)
  with scan_loop_group [of h ?procs "(s0, [])" cid]
  have grp: "group cs cid = map (scanned h) ?in" and ne: "[] \<notin> ran (mget cs)"
    by (auto simp: group_def)
  have set_in: "set ?in = {v. \<exists>pid. pid \<in> set pids \<and> v = fresh_process pid \<and> runs_in h cid v}"
    using fetched_processes(1) [of pids] by auto
  have "set ?in = fresh_process ` {pid. pid \<in> set pids \<and> runs_in h cid (fresh_process pid)}"
    using set_in by auto
  moreover have "inj_on fresh_process {pid. pid \<in> set pids \<and> runs_in h cid (fresh_process pid)}"
    by (rule inj_onI) (metis pid_fresh)
  ultimately have "card (set ?in) = card {pid. pid \<in> set pids \<and> runs_in h cid (fresh_process pid)}"
    by (simp only: card_image)
  moreover have "distinct ?in" using fetched_processes(2) distinct_filter by blast
  ultimately have len: "length ?in = card {pid. pid \<in> set pids \<and> runs_in h cid (fresh_process pid)}"
    by (simp only: distinct_card)
  show ?thesis
  proof (cases "mget cs cid")
    case None
    with grp have "?in = []" by (simp add: group_def)
    then have "set ?in = {}" by simp
    with None set_in show ?thesis by auto
  next
    case (Some vs)
    then have "vs \<in> ran (mget cs)" by (rule ranI)
    with ne have "vs \<noteq> []" by auto
    moreover from Some grp have "vs = map (scanned h) ?in" by (simp add: group_def)
    ultimately show ?thesis using Some set_in len by simp
  qed
qed

theorem scan_groups_by_container_witness:
  "mget (case snd (find_existing_processes sample_host (Inr [1, 3]) (new_initial_state_scanner ''v0.0.8'')) of
           Inr cs \<Rightarrow> cs | Inl _ \<Rightarrow> []) ''c1'' \<noteq> None"
proof -
  obtain s cs where run: "find_existing_processes sample_host (Inr [1, 3]) (new_initial_state_scanner ''v0.0.8'') = (s, Inr cs)"
    by (metis find_existing_ok prod.collapse)
  have "runs_in sample_host ''c1'' (fresh_process 1)" by (simp add: runs_in_def sample_host_def)
  with scan_groups_by_container [OF run, of "''c1''"] run show ?thesis
    by (cases "mget cs ''c1''") auto
qed

text \<open>
  A process's environment is read back as it was set. For entries \<open>k=v\<close> whose names
  hold no equals sign, and whose names and values are not empty and have no white space at
  their ends, the map gives each name the value of its last entry.
\<close>

lemma environ_read_back:
  assumes "\<forall>(k, v) \<in> set es. CHR ''='' \<notin> set k \<and> trim_space k = k \<and> trim_space v = v \<and> k \<noteq> [] \<and> v \<noteq> []"
  shows "mget (env_strs_to_map (map (\<lambda>(k, v). k @ ''='' @ v) es)) n = mget (rev es) n"
proof -
  have "mget (env_strs_loop vars (map (\<lambda>(k, v). k @ ''='' @ v) es)) n =
      (case mget (rev es) n of Some v \<Rightarrow> Some v | None \<Rightarrow> mget vars n)" for vars
    using assms
    by (induction es arbitrary: vars) (auto simp: split2_append map_add_def split: option.split)
  then show ?thesis by (simp add: env_strs_to_map_def split: option.split)
qed

text \<open>
  One variable of an environment, whatever the other entries are (empty values, entries without
  an equals sign): it is read with its value where no other entry has its name.
\<close>

definition environ_shows :: "string list \<Rightarrow> string \<Rightarrow> string \<Rightarrow> bool" where
  "environ_shows ss n v \<longleftrightarrow> n @ ''='' @ v \<in> set ss \<and>
     (\<forall>s \<in> set ss. trim_space (takeWhile (\<lambda>c. c \<noteq> CHR ''='') s) = n \<longrightarrow> s = n @ ''='' @ v)"

lemma environ_shows_read:
  assumes "environ_shows ss n v" and "CHR ''='' \<notin> set n" and "trim_space n = n" and "n \<noteq> []"
    and "trim_space v = v" and "v \<noteq> []"
  shows "mget (env_strs_to_map ss) n = Some v"
proof -
  have "mget (env_strs_loop vars ss) n = (if n @ ''='' @ v \<in> set ss then Some v else mget vars n)"
    if "\<forall>s \<in> set ss. trim_space (takeWhile (\<lambda>c. c \<noteq> CHR ''='') s) = n \<longrightarrow> s = n @ ''='' @ v" for vars
    using that
  proof (induction ss arbitrary: vars)
    case (Cons s ss)
    show ?case
    proof (cases "s = n @ ''='' @ v")
      case True
      then have "split2 (CHR ''='') s = [n, v]" using assms(2) by (simp add: split2_append)
      with Cons True assms show ?thesis by simp
    next
      case False
      then have "trim_space (takeWhile (\<lambda>c. c \<noteq> CHR ''='') s) \<noteq> n" using Cons.prems by auto
      with Cons False show ?thesis by (auto simp: split2_def Let_def)
    qed
  qed simp
  with assms(1) show ?thesis by (simp add: environ_shows_def env_strs_to_map_def)
qed

text \<open>
  The languages that a scan tells apart. It never reports Go (or any language beyond these
  six), so that a process written in Go is never the reason of a restart; and without a
  telling library, a process is .NET or generic by its environment.
\<close>

lemma scanned_languages:
  "find_proc_language_cheap maps env \<in>
       {InstrumentableDotnet, InstrumentableJava, InstrumentableNodejs, InstrumentableRuby,
        InstrumentablePython, InstrumentableGeneric}
   \<and> (find_proc_language_cheap maps env \<in> {InstrumentableRuby, InstrumentablePython} \<longleftrightarrow>
       (\<exists>ms m. maps = Some ms \<and> first_language ms = Some (instrumentable_from_module_map m) \<and> m \<in> set ms \<and>
         \<not> contains m ''libcoreclr.so'' \<and> \<not> contains m ''libjvm.so'' \<and> \<not> has_suffix m ''/node'' \<and> m \<noteq> ''node'' \<and>
         (\<exists>dir name v. m = dir @ name @ v \<and> name \<in> {''ruby'', ''python''} \<and>
            list_all (\<lambda>c. is_digit c \<or> c = CHR ''.'') v \<and>
            (dir = [] \<or> last dir = CHR ''/'' \<and> list_all dot dir))))"
proof
  show "find_proc_language_cheap maps env \<in>
       {InstrumentableDotnet, InstrumentableJava, InstrumentableNodejs, InstrumentableRuby,
        InstrumentablePython, InstrumentableGeneric}"
    (is "_ \<in> ?S")
  proof -
    have "instrumentable_from_module_map m \<in> ?S" for m by (simp add: instrumentable_from_module_map_def)
    then have "first_language ms = Some t \<Longrightarrow> t \<in> ?S" for ms t using first_language_Some by blast
    then show ?thesis
      unfolding find_proc_language_cheap_def instrumentable_from_environ_def
      by (simp split: option.split)
  qed
next
  let ?scripted = "\<lambda>t. t \<in> {InstrumentableRuby, InstrumentablePython}"
  have "?scripted (find_proc_language_cheap maps env) \<longleftrightarrow>
      (\<exists>ms t. maps = Some ms \<and> first_language ms = Some t \<and> ?scripted t)"
    by (auto simp: find_proc_language_cheap_def instrumentable_from_environ_def split: option.splits)
  also have "\<dots> \<longleftrightarrow> (\<exists>ms m. maps = Some ms \<and> first_language ms = Some (instrumentable_from_module_map m) \<and>
      m \<in> set ms \<and> ?scripted (instrumentable_from_module_map m))"
    using first_language_Some by metis
  finally have ex: "?scripted (find_proc_language_cheap maps env) \<longleftrightarrow>
      (\<exists>ms m. maps = Some ms \<and> first_language ms = Some (instrumentable_from_module_map m) \<and>
        m \<in> set ms \<and> ?scripted (instrumentable_from_module_map m))" .
  have "?scripted (instrumentable_from_module_map m) \<longleftrightarrow>
      \<not> contains m ''libcoreclr.so'' \<and> \<not> contains m ''libjvm.so'' \<and> \<not> has_suffix m ''/node'' \<and> m \<noteq> ''node'' \<and>
      (\<exists>name. name \<in> {''ruby'', ''python''} \<and> module_match name m)" for m
  proof -
    have "(\<exists>name. name \<in> {''ruby'', ''python''} \<and> module_match name m) \<longleftrightarrow>
        module_match ''ruby'' m \<or> module_match ''python'' m" by blast
    then show ?thesis unfolding instrumentable_from_module_map_def by (simp only:) simp
  qed
  moreover have "(\<exists>name. name \<in> {''ruby'', ''python''} \<and> module_match name m) \<longleftrightarrow>
      (\<exists>dir name v. m = dir @ name @ v \<and> name \<in> {''ruby'', ''python''} \<and>
            list_all (\<lambda>c. is_digit c \<or> c = CHR ''.'') v \<and>
            (dir = [] \<or> last dir = CHR ''/'' \<and> list_all dot dir))" for m
    unfolding module_match_iff by blast
  ultimately show "?scripted (find_proc_language_cheap maps env) \<longleftrightarrow>
       (\<exists>ms m. maps = Some ms \<and> first_language ms = Some (instrumentable_from_module_map m) \<and> m \<in> set ms \<and>
         \<not> contains m ''libcoreclr.so'' \<and> \<not> contains m ''libjvm.so'' \<and> \<not> has_suffix m ''/node'' \<and> m \<noteq> ''node'' \<and>
         (\<exists>dir name v. m = dir @ name @ v \<and> name \<in> {''ruby'', ''python''} \<and>
            list_all (\<lambda>c. is_digit c \<or> c = CHR ''.'') v \<and>
            (dir = [] \<or> last dir = CHR ''/'' \<and> list_all dot dir)))"
    unfolding ex by (simp only:)
qed

end
