(* ===== verification/Bouncer.thy ===== *)
theory Bouncer
  imports Prelude
begin

text \<open>
  Restarting deployments (pkg/webhook/bouncer.go). The Kubernetes API server is a parameter:
  for a namespace and a name, the error of reading the deployment and of patching it. The
  patches that are sent are kept in a log, the newest last.
\<close>

record pod_bouncer =
  bounced_deployments :: "(string, bool) gomap"
  patch_log :: "(string \<times> string) list"

record kube_api =
  get_deployment :: "string \<Rightarrow> string \<Rightarrow> string option"
  patch_deployment :: "string \<Rightarrow> string \<Rightarrow> string option"

datatype bounce_error = MissingName string string | GetFailed string | PatchFailed string

text \<open>\<open>NewPodBouncer\<close>; the argument is the result of building the client.\<close>

definition new_pod_bouncer :: "string option \<Rightarrow> string + pod_bouncer" where
  "new_pod_bouncer client_error =
     (case client_error of
        Some e \<Rightarrow> Inl (''can't get kubernetes client: '' @ e)
      | None \<Rightarrow> Inr \<lparr>bounced_deployments = [], patch_log = []\<rparr>)"

definition trimmed_name :: "string \<Rightarrow> string" where
  "trimmed_name n = trim_space n"

definition mutation_key :: "string \<Rightarrow> string \<Rightarrow> string" where
  "mutation_key ns d = trimmed_name ns @ '':'' @ trimmed_name d"

definition can_be_bounced :: "string \<Rightarrow> string \<Rightarrow> bool" where
  "can_be_bounced ns d \<longleftrightarrow> trimmed_name ns \<noteq> [] \<and> trimmed_name d \<noteq> []"

definition already_bounced :: "pod_bouncer \<Rightarrow> string \<Rightarrow> string \<Rightarrow> bool" where
  "already_bounced b ns d = (mget (bounced_deployments b) (mutation_key ns d) \<noteq> None)"

definition restart_deployment ::
  "kube_api \<Rightarrow> string \<Rightarrow> string \<Rightarrow> pod_bouncer \<Rightarrow> pod_bouncer \<times> bounce_error option" where
  "restart_deployment k ns d b =
     (if \<not> can_be_bounced ns d then (b, Some (MissingName ns d))
      else
        let b = b\<lparr>bounced_deployments := mput (bounced_deployments b) (mutation_key ns d) True\<rparr>
        in case get_deployment k ns d of
             Some e \<Rightarrow> (b, Some (GetFailed e))
           | None \<Rightarrow>
               let b = b\<lparr>patch_log := patch_log b @ [(ns, d)]\<rparr>
               in case patch_deployment k ns d of
                    Some e \<Rightarrow> (b, Some (PatchFailed e))
                  | None \<Rightarrow> (b, None))"

text \<open>
  The callers' guards around it (\<open>Server.restartDeployment\<close> in pkg/webhook/server.go).
\<close>

definition try_restart :: "kube_api \<Rightarrow> string \<Rightarrow> string \<Rightarrow> pod_bouncer \<Rightarrow> pod_bouncer" where
  "try_restart k ns d b =
     (if \<not> can_be_bounced ns d then b
      else if already_bounced b ns d then b
      else fst (restart_deployment k ns d b))"

subsection \<open>The invariant: one patch for a deployment\<close>

definition bouncer_ok :: "pod_bouncer \<Rightarrow> bool" where
  "bouncer_ok b \<longleftrightarrow>
     distinct (map (\<lambda>(ns, d). mutation_key ns d) (patch_log b)) \<and>
     (\<forall>(ns, d) \<in> set (patch_log b). already_bounced b ns d)"

lemma new_bouncer_ok: "new_pod_bouncer err = Inr b \<Longrightarrow> bouncer_ok b"
  by (auto simp: new_pod_bouncer_def bouncer_ok_def split: option.splits)

lemma try_restart_bounced:
  "already_bounced (try_restart k ns d b) ns' d' \<longleftrightarrow>
     already_bounced b ns' d' \<or> (can_be_bounced ns d \<and> mutation_key ns d = mutation_key ns' d')"
  by (auto simp: try_restart_def restart_deployment_def already_bounced_def Let_def split: option.split)

lemma try_restart_log:
  "patch_log (try_restart k ns d b) =
     patch_log b @ (if can_be_bounced ns d \<and> \<not> already_bounced b ns d \<and> get_deployment k ns d = None
                    then [(ns, d)] else [])"
  by (auto simp: try_restart_def restart_deployment_def Let_def split: option.split)

lemma already_bounced_key:
  "mutation_key ns d = mutation_key ns' d' \<Longrightarrow> already_bounced b ns d \<Longrightarrow> already_bounced b ns' d'"
  by (simp add: already_bounced_def)

lemma try_restart_ok: "bouncer_ok b \<Longrightarrow> bouncer_ok (try_restart k ns d b)"
  by (fastforce simp: bouncer_ok_def try_restart_log try_restart_bounced intro: already_bounced_key)

end
