(* ===== verification/Webhook_Server.thy ===== *)
theory Webhook_Server
  imports Pod_Mutator Process_Scanner Bouncer
begin

text \<open>
  The webhook server (pkg/webhook/server.go): construction and start, the first scan with
  the removal of old SDK packages, and the reaction to the pods that the Kubernetes informer
  reports. A nil dereference is the value \<open>NilBouncer\<close>.
\<close>

record server =
  srv_mutator :: pod_mutator
  srv_bouncer :: "pod_bouncer option"
  srv_scanner :: scanner
  srv_initial_state :: initial_state
  srv_subscribed :: bool

abbreviation srv_inject :: "server \<Rightarrow> sdk_inject" where
  "srv_inject s \<equiv> pm_inject (srv_mutator s)"

abbreviation srv_matcher :: "server \<Rightarrow> pod_matcher" where
  "srv_matcher s \<equiv> pm_matcher (srv_mutator s)"

datatype panic = NilBouncer

subsection \<open>Construction\<close>

text \<open>
  \<open>NewServer\<close>; the mutator and the matcher that it keeps are the ones it builds from the
  configuration. \<open>client_error\<close> is the result of building the Kubernetes client.
\<close>

definition new_server ::
  "string option \<Rightarrow> string + otlp_options \<Rightarrow> string + otlp_options \<Rightarrow> string option \<Rightarrow> mutator_config
     \<Rightarrow> string + server" where
  "new_server port http_opts grpc_opts client_error cfg =
     (let matcher = new_pod_matcher (mc_injector cfg) in
      case new_pod_mutator port http_opts grpc_opts cfg matcher of Inl e \<Rightarrow> Inl e
      | Inr mutator \<Rightarrow>
          let bouncer = (if has_selection_criteria matcher
                         then (case new_pod_bouncer client_error of Inl e \<Rightarrow> Inl e | Inr b \<Rightarrow> Inr (Some b))
                         else Inr None)
          in case bouncer of Inl e \<Rightarrow> Inl e
             | Inr b \<Rightarrow> Inr
                 \<lparr>srv_mutator = mutator, srv_bouncer = b,
                  srv_scanner = new_initial_state_scanner (sdk_pkg_version (mc_injector cfg)),
                  srv_initial_state = [], srv_subscribed = False\<rparr>)"

subsection \<open>Removal of old packages\<close>

datatype cleanup_error = InvalidMinimum string | ReadDirFailed string | RemoveFailed string

text \<open>
  The loop over the directory entries, each a name with whether it is a directory; the
  second component is the list of directories that were removed.
\<close>

fun cleanup_loop ::
  "(string \<Rightarrow> bool) \<Rightarrow> string \<Rightarrow> (string \<times> bool) list \<Rightarrow> cleanup_error option \<times> string list" where
  "cleanup_loop removes min_version [] = (None, [])"
| "cleanup_loop removes min_version ((name, is_dir) # es) =
     (if \<not> is_dir then cleanup_loop removes min_version es
      else if \<not> semver_is_valid name then cleanup_loop removes min_version es
      else if semver_compare name min_version < 0 then
        (if \<not> removes name then (Some (RemoveFailed name), [])
         else let (err, removed) = cleanup_loop removes min_version es in (err, name # removed))
      else cleanup_loop removes min_version es)"

definition cleanup_old_instrumentation_versions ::
  "string + (string \<times> bool) list \<Rightarrow> (string \<Rightarrow> bool) \<Rightarrow> string \<Rightarrow> cleanup_error option \<times> string list" where
  "cleanup_old_instrumentation_versions dir removes min_version =
     (if \<not> semver_is_valid min_version then (Some (InvalidMinimum min_version), [])
      else case dir of
        Inl e \<Rightarrow> (Some (ReadDirFailed e), [])
      | Inr entries \<Rightarrow> cleanup_loop removes min_version entries)"

text \<open>
  \<open>establishInitialProcessState\<close>: an error of the scan is returned, one of the clean-up is
  only logged. The result holds the directories that were removed.
\<close>

definition establish_initial_process_state ::
  "host \<Rightarrow> string + int list \<Rightarrow> string + (string \<times> bool) list \<Rightarrow> (string \<Rightarrow> bool) \<Rightarrow> server
     \<Rightarrow> server \<times> string option \<times> string list" where
  "establish_initial_process_state h pids dir removes s =
     (let (sc, res) = find_existing_processes h pids (srv_scanner s); s = s\<lparr>srv_scanner := sc\<rparr> in
      case res of
        Inl e \<Rightarrow> (s, Some (''finding initial process state: '' @ e), [])
      | Inr containers \<Rightarrow>
          let s = s\<lparr>srv_initial_state := containers\<rparr> in
          if \<not> uses_image_volume (srv_inject s) \<and> manage_sdk_versions (srv_inject s) then
            let oldest = oldest_sdk_version sc;
                oldest = (if semver_compare oldest (sdk_pkg_version (srv_inject s)) > 0
                          then sdk_pkg_version (srv_inject s) else oldest)
            in (s, None, snd (cleanup_old_instrumentation_versions dir removes oldest))
          else (s, None, []))"

text \<open>\<open>getInitialState\<close>; \<open>store_error\<close> is the result of asking for the metadata store.\<close>

definition get_initial_state ::
  "string option \<Rightarrow> host \<Rightarrow> string + int list \<Rightarrow> string + (string \<times> bool) list \<Rightarrow> (string \<Rightarrow> bool) \<Rightarrow> server
     \<Rightarrow> server \<times> string option \<times> string list" where
  "get_initial_state store_error h pids dir removes s =
     (case store_error of
        Some e \<Rightarrow> (s, Some (''instantiating Kubernetes metadata scanner: '' @ e), [])
      | None \<Rightarrow>
          let (s, err, removed) = establish_initial_process_state h pids dir removes s in
          case err of
            Some e \<Rightarrow> (s, Some e, removed)
          | None \<Rightarrow> (s\<lparr>srv_subscribed := True\<rparr>, None, removed))"

subsection \<open>Start and stop\<close>

datatype support_error = NoClient string | NoServerVersion string | ImageVolumeNeeds131 string string

text \<open>
  \<open>checkImageVolumeSupport\<close>; the arguments are the results of building the client and of
  asking the server for its version (major and minor).
\<close>

definition check_image_volume_support ::
  "string option \<Rightarrow> string + string \<times> string \<Rightarrow> sdk_inject \<Rightarrow> support_error option" where
  "check_image_volume_support client_error version cfg =
     (if uses_image_volume cfg then
        (case client_error of Some e \<Rightarrow> Some (NoClient e) | None \<Rightarrow>
         case version of Inl e \<Rightarrow> Some (NoServerVersion e)
         | Inr (maj, mnr) \<Rightarrow>
             if semver_compare (''v'' @ maj @ ''.'' @ trim_right ''+'' mnr @ ''.0'') ''v1.31.0'' < 0
             then Some (ImageVolumeNeeds131 maj mnr) else None)
      else None)"

text \<open>
  \<open>waitForTLSFiles\<close>: what each round sees of the two files, and which of the three
  channels its select takes. \<open>None\<close> is the state of still waiting after these rounds.
\<close>

datatype wait_choice = WaitCancelled string | WaitDeadline | WaitPoll

datatype tls_result = TlsReady | TlsCancelled string | TlsTimeout

fun wait_for_tls_files :: "(bool \<times> bool \<times> wait_choice) list \<Rightarrow> tls_result option" where
  "wait_for_tls_files [] = None"
| "wait_for_tls_files ((cert, key, choice) # rounds) =
     (if cert \<and> key then Some TlsReady
      else case choice of
        WaitCancelled e \<Rightarrow> Some (TlsCancelled e)
      | WaitDeadline \<Rightarrow> Some TlsTimeout
      | WaitPoll \<Rightarrow> wait_for_tls_files rounds)"

text \<open>
  \<open>waitForCancellation\<close>: the context ends (for cancellation or with another error), then
  the result of the shutdown counts; or the error channel yields an error or is closed.
\<close>

datatype stop_cause = CtxCanceled | CtxError string | ServerError string | ServerClosed

definition wait_for_cancellation :: "stop_cause \<Rightarrow> string option \<Rightarrow> string option" where
  "wait_for_cancellation cause shutdown_error =
     (case cause of
        CtxCanceled \<Rightarrow>
          (case shutdown_error of Some e \<Rightarrow> Some (''webhook server shutdown failed: '' @ e) | None \<Rightarrow> None)
      | CtxError err \<Rightarrow>
          (case shutdown_error of Some e \<Rightarrow> Some (''webhook server shutdown failed: '' @ e) | None \<Rightarrow> Some err)
      | ServerError err \<Rightarrow> Some err
      | ServerClosed \<Rightarrow> None)"

datatype start_result = StartTls tls_result | StartSupport support_error | Served bool

text \<open>\<open>Start\<close> up to the point where it serves; \<open>Served\<close> tells whether a scan was started.\<close>

definition server_start ::
  "tls_result \<Rightarrow> string option \<Rightarrow> string + string \<times> string \<Rightarrow> server \<Rightarrow> start_result" where
  "server_start tls client_error version s =
     (if tls \<noteq> TlsReady then StartTls tls
      else case check_image_volume_support client_error version (srv_inject s) of
        Some e \<Rightarrow> StartSupport e
      | None \<Rightarrow> Served (has_selection_criteria (srv_matcher s) \<and> \<not> no_auto_restart (srv_inject s)))"

subsection \<open>Events\<close>

datatype event_type = EventCreated | EventUpdated | EventDeleted | EventSynced

record pod_data =
  pd_containers :: "string list"
  pd_owners :: "owner list"

record event_object =
  eo_name :: string
  eo_namespace :: string
  eo_labels :: strmap
  eo_annotations :: strmap
  eo_pod :: "pod_data option"

record informer_event =
  ie_type :: event_type
  ie_resource :: "event_object option"

definition add_metadata :: "event_object \<Rightarrow> pod_data \<Rightarrow> process_info \<Rightarrow> process_info" where
  "add_metadata obj pd p =
     (let owner_name = (case top_owner (pd_owners pd) of Some (_, n) \<Rightarrow> n | None \<Rightarrow> eo_name obj)
      in p\<lparr>pi_metadata :=
             add_owner_names (base_metadata (eo_namespace obj) (eo_name obj) owner_name) (pd_owners pd),
           pi_pod_labels := eo_labels obj,
           pi_pod_annotations := eo_annotations obj\<rparr>)"

text \<open>
  \<open>enrichProcessInfo\<close>: the records of the state are updated in place, and the updated ones
  of the pod's containers are returned.
\<close>

fun enrich_process_info ::
  "event_object \<Rightarrow> pod_data \<Rightarrow> string list \<Rightarrow> initial_state \<Rightarrow> initial_state \<times> process_info list" where
  "enrich_process_info obj pd [] st = (st, [])"
| "enrich_process_info obj pd (cid # cids) st =
     (case mget st cid of
        Some ps \<Rightarrow>
          let ps = map (add_metadata obj pd) ps;
              (st, res) = enrich_process_info obj pd cids (mput st cid ps)
          in (st, ps @ res)
      | None \<Rightarrow> enrich_process_info obj pd cids st)"

definition process_namespace :: "process_info \<Rightarrow> string" where
  "process_namespace a = mstr (pi_metadata a) ''k8s_namespace''"

definition process_deployment :: "process_info \<Rightarrow> string" where
  "process_deployment a = mstr (pi_metadata a) ''k8s_deployment_name''"

text \<open>
  \<open>restartDeployment\<close>: the first test does not touch the bouncer, the second does.
\<close>

definition server_restart_deployment :: "kube_api \<Rightarrow> process_info \<Rightarrow> server \<Rightarrow> panic + server" where
  "server_restart_deployment k a s =
     (if \<not> can_be_bounced (process_namespace a) (process_deployment a) then Inr s
      else case srv_bouncer s of
        None \<Rightarrow> Inl NilBouncer
      | Some b \<Rightarrow> Inr (s\<lparr>srv_bouncer := Some (try_restart k (process_namespace a) (process_deployment a) b)\<rparr>))"

definition on_process :: "kube_api \<Rightarrow> process_info \<Rightarrow> server \<Rightarrow> panic + server" where
  "on_process k a s =
     (if \<not> already_instrumented_process (srv_mutator s) a then
        (if can_instrument (srv_mutator s) (pi_kind a) \<and> \<not> preloads_something_else (srv_mutator s) a then
           (if snd (match_process_info (srv_matcher s) (Some a)) then server_restart_deployment k a s else Inr s)
         else Inr s)
      else if \<not> snd (match_process_info (srv_matcher s) (Some a)) then server_restart_deployment k a s
      else Inr s)"

fun on_processes :: "kube_api \<Rightarrow> process_info list \<Rightarrow> server \<Rightarrow> panic + server" where
  "on_processes k [] s = Inr s"
| "on_processes k (a # as) s =
     (case on_process k a s of Inl p \<Rightarrow> Inl p | Inr s' \<Rightarrow> on_processes k as s')"

definition on_event :: "kube_api \<Rightarrow> informer_event \<Rightarrow> server \<Rightarrow> panic + server" where
  "on_event k e s =
     (case ie_resource e of None \<Rightarrow> Inr s | Some obj \<Rightarrow>
      case eo_pod obj of None \<Rightarrow> Inr s | Some pd \<Rightarrow>
        if ie_type e \<in> {EventCreated, EventUpdated} then
          let (st, attrs) = enrich_process_info obj pd (pd_containers pd) (srv_initial_state s)
          in on_processes k attrs (s\<lparr>srv_initial_state := st\<rparr>)
        else Inr s)"

fun on_events :: "kube_api \<Rightarrow> informer_event list \<Rightarrow> server \<Rightarrow> panic + server" where
  "on_events k [] s = Inr s"
| "on_events k (e # es) s = (case on_event k e s of Inl p \<Rightarrow> Inl p | Inr s' \<Rightarrow> on_events k es s')"

subsection \<open>What an event does\<close>

text \<open>The decision of the handler about one process.\<close>

definition wants_restart :: "pod_mutator \<Rightarrow> process_info \<Rightarrow> bool" where
  "wants_restart pm a =
     (if already_instrumented_process pm a then \<not> snd (match_process_info (pm_matcher pm) (Some a))
      else can_instrument pm (pi_kind a) \<and> \<not> preloads_something_else pm a \<and>
           snd (match_process_info (pm_matcher pm) (Some a)))"

definition bounce :: "kube_api \<Rightarrow> pod_mutator \<Rightarrow> process_info \<Rightarrow> pod_bouncer \<Rightarrow> pod_bouncer" where
  "bounce k pm a b =
     (if wants_restart pm a then try_restart k (process_namespace a) (process_deployment a) b else b)"

lemma on_process_bounce:
  "srv_bouncer s = Some b \<Longrightarrow>
     on_process k a s = Inr (s\<lparr>srv_bouncer := Some (bounce k (srv_mutator s) a b)\<rparr>)"
  by (auto simp: on_process_def server_restart_deployment_def bounce_def wants_restart_def try_restart_def)

lemma on_processes_bounce:
  "srv_bouncer s = Some b \<Longrightarrow>
     on_processes k as s = Inr (s\<lparr>srv_bouncer := Some (fold (bounce k (srv_mutator s)) as b)\<rparr>)"
  by (induction k as s arbitrary: b rule: on_processes.induct) (auto simp: on_process_bounce)

lemma bounce_all_ok: "bouncer_ok b \<Longrightarrow> bouncer_ok (fold (bounce k pm) as b)"
  by (induction as arbitrary: b) (auto simp: bounce_def try_restart_ok)

lemma bounce_all_bounced:
  "already_bounced (fold (bounce k pm) as b) n d \<longleftrightarrow>
     already_bounced b n d \<or>
     (\<exists>a \<in> set as. wants_restart pm a \<and> can_be_bounced (process_namespace a) (process_deployment a) \<and>
        mutation_key (process_namespace a) (process_deployment a) = mutation_key n d)"
  by (induction as arbitrary: b) (auto simp: bounce_def try_restart_bounced)

abbreviation same_key :: "string \<Rightarrow> string \<Rightarrow> string \<times> string \<Rightarrow> bool" where
  "same_key n d \<equiv> \<lambda>(n', d'). mutation_key n' d' = mutation_key n d"

abbreviation bounces :: "pod_mutator \<Rightarrow> string \<Rightarrow> string \<Rightarrow> process_info \<Rightarrow> bool" where
  "bounces pm n d a \<equiv> wants_restart pm a \<and> can_be_bounced (process_namespace a) (process_deployment a) \<and>
     mutation_key (process_namespace a) (process_deployment a) = mutation_key n d"

text \<open>
  The patches of a list of processes, sorted by key: one for the first process that wants the
  deployment, unless it was bounced before or reading it fails.
\<close>

lemma bounce_all_patches:
  "\<exists>new. patch_log (fold (bounce k pm) as b) = patch_log b @ new \<and>
     (\<forall>n d. filter (same_key n d) new =
        (case find (bounces pm n d) as of
           Some a \<Rightarrow> if \<not> already_bounced b n d \<and> get_deployment k (process_namespace a) (process_deployment a) = None
                     then [(process_namespace a, process_deployment a)] else []
         | None \<Rightarrow> []))"
proof (induction as arbitrary: b)
  case (Cons a as)
  let ?first = "if wants_restart pm a \<and> can_be_bounced (process_namespace a) (process_deployment a) \<and>
      \<not> already_bounced b (process_namespace a) (process_deployment a) \<and>
      get_deployment k (process_namespace a) (process_deployment a) = None
    then [(process_namespace a, process_deployment a)] else []"
  obtain new where new: "patch_log (fold (bounce k pm) as (bounce k pm a b)) = patch_log (bounce k pm a b) @ new"
    "\<And>n d. filter (same_key n d) new =
        (case find (bounces pm n d) as of
           Some a' \<Rightarrow> if \<not> already_bounced (bounce k pm a b) n d \<and>
                        get_deployment k (process_namespace a') (process_deployment a') = None
                     then [(process_namespace a', process_deployment a')] else []
         | None \<Rightarrow> [])"
    using Cons by blast
  have log: "patch_log (fold (bounce k pm) (a # as) b) = patch_log b @ (?first @ new)"
    using new(1) by (simp add: bounce_def try_restart_log)
  have "filter (same_key n d) (?first @ new) =
        (case find (bounces pm n d) (a # as) of
           Some a \<Rightarrow> if \<not> already_bounced b n d \<and> get_deployment k (process_namespace a) (process_deployment a) = None
                     then [(process_namespace a, process_deployment a)] else []
         | None \<Rightarrow> [])" for n d
  proof (cases "bounces pm n d a")
    case True
    then have "already_bounced (bounce k pm a b) n d"
      by (simp add: bounce_def try_restart_bounced)
    moreover have "already_bounced b (process_namespace a) (process_deployment a) = already_bounced b n d"
      using True by (simp add: already_bounced_def)
    ultimately show ?thesis using True by (simp add: new(2) split: option.split)
  next
    case False
    then have "already_bounced (bounce k pm a b) n d = already_bounced b n d"
      by (auto simp: bounce_def try_restart_bounced)
    with False show ?thesis by (auto simp: new(2) split: option.split)
  qed
  with log show ?case by blast
qed simp

lemma add_metadata_idem [simp]: "add_metadata obj pd (add_metadata obj pd p) = add_metadata obj pd p"
  by (simp add: add_metadata_def Let_def)

lemma enrich_set:
  "set (snd (enrich_process_info obj pd cids st)) = add_metadata obj pd ` (\<Union>cid \<in> set cids. set (group st cid))"
proof (induction obj pd cids st rule: enrich_process_info.induct)
  case (2 obj pd cid cids st)
  show ?case
  proof (cases "mget st cid")
    case None
    with 2 show ?thesis by (simp add: group_def)
  next
    case (Some ps)
    have upd: "add_metadata obj pd ` set (group (mput st cid (map (add_metadata obj pd) ps)) c) =
        add_metadata obj pd ` set (group st c)" for c
      using Some by (auto simp: group_def image_image)
    from Some 2(2) [OF Some refl] upd show ?thesis
      by (simp add: case_prod_beta Let_def group_def image_Un image_UN image_image)
  qed
qed simp

lemma metadata_namespace: "process_namespace (add_metadata obj pd p) = eo_namespace obj"
  by (simp add: process_namespace_def add_metadata_def Let_def mstr_def add_owner_names_base base_metadata_def)

lemma on_event_bounce:
  assumes "srv_bouncer s = Some b" and "ie_resource e = Some obj" and "eo_pod obj = Some pd"
    and "ie_type e \<in> {EventCreated, EventUpdated}"
  shows "\<exists>st as. on_event k e s =
      Inr (s\<lparr>srv_initial_state := st, srv_bouncer := Some (fold (bounce k (srv_mutator s)) as b)\<rparr>) \<and>
      set as = add_metadata obj pd ` (\<Union>cid \<in> set (pd_containers pd). set (group (srv_initial_state s) cid))"
proof -
  let ?r = "enrich_process_info obj pd (pd_containers pd) (srv_initial_state s)"
  have "on_event k e s = Inr (s\<lparr>srv_initial_state := fst ?r,
      srv_bouncer := Some (fold (bounce k (srv_mutator s)) (snd ?r) b)\<rparr>)"
    using assms by (auto simp: on_event_def case_prod_beta on_processes_bounce)
  then show ?thesis using enrich_set by blast
qed

definition pod_event :: "informer_event \<Rightarrow> bool" where
  "pod_event e \<longleftrightarrow> ie_type e \<in> {EventCreated, EventUpdated} \<and>
     (\<exists>obj. ie_resource e = Some obj \<and> eo_pod obj \<noteq> None)"

lemma on_event_other: "\<not> pod_event e \<Longrightarrow> on_event k e s = Inr s"
  by (auto simp: pod_event_def on_event_def split: option.split)

lemma on_event_keeps:
  assumes "srv_bouncer s = Some b" and "bouncer_ok b"
  shows "\<exists>s' b'. on_event k e s = Inr s' \<and> srv_bouncer s' = Some b' \<and> bouncer_ok b'"
proof (cases "pod_event e")
  case True
  then obtain obj pd where "ie_resource e = Some obj" "eo_pod obj = Some pd"
    "ie_type e \<in> {EventCreated, EventUpdated}" by (auto simp: pod_event_def)
  from on_event_bounce [OF assms(1) this, of k] bounce_all_ok [OF assms(2)] show ?thesis by fastforce
qed (use assms in \<open>simp add: on_event_other\<close>)

lemma on_events_keeps:
  "srv_bouncer s = Some b \<Longrightarrow> bouncer_ok b \<Longrightarrow>
     \<exists>s' b'. on_events k es s = Inr s' \<and> srv_bouncer s' = Some b' \<and> bouncer_ok b'"
proof (induction k es s arbitrary: b rule: on_events.induct)
  case (2 k e es s)
  from on_event_keeps [OF "2.prems"] obtain s' b' where
    s': "on_event k e s = Inr s'" "srv_bouncer s' = Some b'" "bouncer_ok b'" by blast
  from "2.IH" [OF this] s'(1) show ?case by simp
qed simp

subsection \<open>Construction and scan\<close>

lemma new_server_bouncer:
  assumes "new_server port ho go ce cfg = Inr s"
  shows "srv_matcher s = new_pod_matcher (mc_injector cfg)" and "srv_inject s = mc_injector cfg"
    and "srv_scanner s = new_initial_state_scanner (sdk_pkg_version (mc_injector cfg))"
    and "if has_selection_criteria (srv_matcher s) then \<exists>b. srv_bouncer s = Some b \<and> bouncer_ok b
         else srv_bouncer s = None"
  using assms
  by (auto simp: new_server_def new_pod_mutator_def Let_def new_bouncer_ok split: sum.splits if_splits)

lemma establish_keeps:
  assumes "establish_initial_process_state h pids dir removes s = (s', err, removed)"
  shows "srv_bouncer s' = srv_bouncer s" and "srv_mutator s' = srv_mutator s"
  using assms
  by (auto simp: establish_initial_process_state_def Let_def split: prod.splits sum.splits if_splits)

lemma get_initial_state_keeps:
  assumes "get_initial_state se h pids dir removes s = (s', err, removed)"
  shows "srv_bouncer s' = srv_bouncer s" and "srv_mutator s' = srv_mutator s"
  using assms establish_keeps
  by (auto simp: get_initial_state_def split: option.splits prod.splits)

lemma cleanup_loop_sound:
  "name \<in> set (snd (cleanup_loop removes mv es)) \<Longrightarrow>
     (name, True) \<in> set es \<and> semver_is_valid name \<and> semver_compare name mv < 0 \<and> removes name"
  by (induction removes mv es rule: cleanup_loop.induct) (auto split: if_splits prod.splits)

lemma cleanup_loop_complete:
  "(\<And>n. removes n) \<Longrightarrow> cleanup_loop removes mv es =
     (None, map fst (filter (\<lambda>(n, d). d \<and> semver_is_valid n \<and> semver_compare n mv < 0) es))"
  by (induction removes mv es rule: cleanup_loop.induct) auto

subsection \<open>Properties\<close>

text \<open>
  C4: a deployment is patched at most once. Whatever pods the informer reports, and however
  the API server answers, a server that was built with selection criteria and has taken its
  initial scan handles all of them without a nil dereference, and no two of the patches it
  sends are for the same deployment of the same namespace.
\<close>

theorem deployment_patched_at_most_once:
  assumes "new_server port ho go ce cfg = Inr s0" and "has_selection_criteria (srv_matcher s0)"
    and "get_initial_state None h pids dir removes s0 = (s1, err, removed)"
  shows "\<exists>s b. on_events k es s1 = Inr s \<and> srv_bouncer s = Some b \<and>
     distinct (map (\<lambda>(ns, d). mutation_key ns d) (patch_log b))"
proof -
  from new_server_bouncer(4) [OF assms(1)] assms(2) obtain b where
    b: "srv_bouncer s0 = Some b" "bouncer_ok b" by auto
  with get_initial_state_keeps(1) [OF assms(3)] on_events_keeps [of s1 b k es] show ?thesis
    by (auto simp: bouncer_ok_def)
qed

definition sample_config :: mutator_config where
  "sample_config =
     \<lparr>mc_injector = sample_inject, mc_features = 0,
      mc_traces = \<lparr>has_traces_consumer = False, common_protocol = [], traces_protocol = []\<rparr>\<rparr>"

definition sample_server :: "string + server" where
  "sample_server =
     new_server None (Inr \<lparr>opt_scheme = ''http'', opt_endpoint = ''otel:4318'', opt_base_url_path = [],
       opt_headers = []\<rparr>) (Inl ''unused'') None sample_config"

definition sample_api :: kube_api where
  "sample_api = \<lparr>get_deployment = (\<lambda>ns d. None), patch_deployment = (\<lambda>ns d. None)\<rparr>"

definition sample_event :: informer_event where
  "sample_event =
     \<lparr>ie_type = EventCreated,
      ie_resource = Some \<lparr>eo_name = ''app-7d9-x'', eo_namespace = ''shop'', eo_labels = [], eo_annotations = [],
        eo_pod = Some \<lparr>pd_containers = [''c1''], pd_owners = [(''ReplicaSet'', ''app-7d9''), (''Deployment'', ''app'')]\<rparr>\<rparr>\<rparr>"

lemma sample_criteria: "has_selection_criteria (new_pod_matcher sample_inject)"
  by (simp add: has_selection_criteria_def new_pod_matcher_def normalize_glob_criteria_def sample_inject_def)

lemma sample_server_ok:
  "\<exists>s. sample_server = Inr s \<and> has_selection_criteria (srv_matcher s)"
  by (simp add: sample_server_def new_server_def new_pod_mutator_def sample_config_def get_protocol_def
        guess_protocol_def Let_def new_pod_bouncer_def sample_criteria)

theorem deployment_patched_at_most_once_witness:
  "\<exists>s0 s b. sample_server = Inr s0 \<and>
     on_events sample_api [sample_event, sample_event]
       (fst (get_initial_state None sample_host (Inr [1, 2]) (Inr []) (\<lambda>_. True) s0)) = Inr s \<and>
     srv_bouncer s = Some b \<and> distinct (map (\<lambda>(ns, d). mutation_key ns d) (patch_log b))"
proof -
  obtain s0 where s0: "sample_server = Inr s0" "has_selection_criteria (srv_matcher s0)"
    using sample_server_ok by blast
  obtain s1 err removed where
    run: "get_initial_state None sample_host (Inr [1, 2]) (Inr []) (\<lambda>_. True) s0 = (s1, err, removed)"
    by (metis prod_cases3)
  from deployment_patched_at_most_once [OF s0(1) [unfolded sample_server_def] s0(2) run]
  obtain s b where "on_events sample_api [sample_event, sample_event] s1 = Inr s" "srv_bouncer s = Some b"
    "distinct (map (\<lambda>(ns, d). mutation_key ns d) (patch_log b))" by blast
  with s0 run show ?thesis by (intro exI [of _ s0] exI [of _ s] exI [of _ b]) simp
qed

text \<open>
  The deployments that the processes of the pod's containers want restarted: the process is
  not instrumented with the current version, can be instrumented, preloads nothing else and
  is selected, or it is instrumented and no longer selected.
\<close>

definition wanted_deployment :: "server \<Rightarrow> event_object \<Rightarrow> pod_data \<Rightarrow> string \<Rightarrow> bool" where
  "wanted_deployment s obj pd d \<longleftrightarrow>
     (\<exists>cid \<in> set (pd_containers pd). \<exists>p \<in> set (group (srv_initial_state s) cid).
        wants_restart (srv_mutator s) (add_metadata obj pd p) \<and>
        d = process_deployment (add_metadata obj pd p) \<and> can_be_bounced (eo_namespace obj) d)"

text \<open>
  C5: which deployments an event restarts, and the patches it sends. After the report of a
  created or updated pod a deployment counts as restarted exactly where it did before, or
  where a process in a container of the pod wants it restarted. Every patch that is sent is
  for such a deployment, in the pod's namespace and under a key that did not count as
  restarted; and for each key that newly does, one wanted deployment of that key is read from
  the API server and, where that succeeds, is patched once, and nothing else under this key.
\<close>

theorem event_restarts_exactly_wanted:
  assumes "srv_bouncer s = Some b" and "ie_resource e = Some obj" and "eo_pod obj = Some pd"
    and "ie_type e \<in> {EventCreated, EventUpdated}" and "on_event k e s = Inr s'"
  shows "\<exists>b' new. srv_bouncer s' = Some b' \<and> patch_log b' = patch_log b @ new \<and>
     (\<forall>ns d. already_bounced b' ns d \<longleftrightarrow> already_bounced b ns d \<or>
        (\<exists>d'. wanted_deployment s obj pd d' \<and> mutation_key (eo_namespace obj) d' = mutation_key ns d)) \<and>
     (\<forall>(ns, d) \<in> set new. ns = eo_namespace obj \<and> wanted_deployment s obj pd d \<and> \<not> already_bounced b ns d) \<and>
     (\<forall>ns d. already_bounced b' ns d \<and> \<not> already_bounced b ns d \<longrightarrow>
        (\<exists>d'. wanted_deployment s obj pd d' \<and> mutation_key (eo_namespace obj) d' = mutation_key ns d \<and>
           filter (\<lambda>(n, x). mutation_key n x = mutation_key ns d) new =
             (if get_deployment k (eo_namespace obj) d' = None then [(eo_namespace obj, d')] else [])))"
proof -
  let ?pm = "srv_mutator s"
  obtain st as where ev: "on_event k e s =
      Inr (s\<lparr>srv_initial_state := st, srv_bouncer := Some (fold (bounce k ?pm) as b)\<rparr>)"
    and as: "set as = add_metadata obj pd ` (\<Union>cid \<in> set (pd_containers pd). set (group (srv_initial_state s) cid))"
    using on_event_bounce [OF assms(1-4), of k] by (elim exE conjE)
  let ?b' = "fold (bounce k ?pm) as b"
  obtain new where new: "patch_log ?b' = patch_log b @ new"
    "\<And>n d. filter (same_key n d) new = (case find (bounces ?pm n d) as of
         Some a \<Rightarrow> if \<not> already_bounced b n d \<and> get_deployment k (process_namespace a) (process_deployment a) = None
                   then [(process_namespace a, process_deployment a)] else []
       | None \<Rightarrow> [])"
    using bounce_all_patches [of k ?pm as b] by blast
  have b': "srv_bouncer s' = Some ?b'"
    using ev assms(5) by auto
  have wants: "(\<exists>a \<in> set as. bounces ?pm n d a \<and> process_deployment a = x) \<longleftrightarrow>
      wanted_deployment s obj pd x \<and> mutation_key (eo_namespace obj) x = mutation_key n d" for n d x
    unfolding as wanted_deployment_def by (auto simp: metadata_namespace)
  have ns: "process_namespace a = eo_namespace obj" if "a \<in> set as" for a
    using that unfolding as by (auto simp: metadata_namespace)
  have bounced: "already_bounced ?b' n d \<longleftrightarrow> already_bounced b n d \<or>
      (\<exists>d'. wanted_deployment s obj pd d' \<and> mutation_key (eo_namespace obj) d' = mutation_key n d)" for n d
    unfolding bounce_all_bounced using wants [of n d] by blast
  have sound: "n = eo_namespace obj \<and> wanted_deployment s obj pd d \<and> \<not> already_bounced b n d"
    if "(n, d) \<in> set new" for n d
  proof -
    from that have "(n, d) \<in> set (filter (same_key n d) new)" by simp
    then obtain a where a: "find (bounces ?pm n d) as = Some a" "\<not> already_bounced b n d"
      "n = process_namespace a" "d = process_deployment a"
      unfolding new(2) by (cases "find (bounces ?pm n d) as") (auto split: if_splits)
    then have "a \<in> set as" "bounces ?pm n d a" by (auto simp: find_Some_iff)
    with a ns wants [of n d d] show ?thesis by blast
  qed
  have "\<exists>d'. wanted_deployment s obj pd d' \<and> mutation_key (eo_namespace obj) d' = mutation_key n d \<and>
      filter (same_key n d) new = (if get_deployment k (eo_namespace obj) d' = None then [(eo_namespace obj, d')] else [])"
    if "already_bounced ?b' n d" "\<not> already_bounced b n d" for n d
  proof -
    from that bounced [of n d] wants [of n d] have "find (bounces ?pm n d) as \<noteq> None"
      by (auto simp: find_None_iff)
    then obtain a where a: "find (bounces ?pm n d) as = Some a" by blast
    then have "a \<in> set as" "bounces ?pm n d a" by (auto simp: find_Some_iff)
    with a that ns wants [of n d "process_deployment a"] show ?thesis
      by (intro exI [of _ "process_deployment a"]) (auto simp: new(2))
  qed
  with sound bounced b' new(1) show ?thesis by blast
qed

definition sample_bounced_server :: server where
  "sample_bounced_server =
     \<lparr>srv_mutator = sample_mutator, srv_bouncer = Some \<lparr>bounced_deployments = [], patch_log = []\<rparr>,
      srv_scanner = new_initial_state_scanner ''v0.0.8'',
      srv_initial_state = [(''c1'', [empty_process_info\<lparr>pi_kind := InstrumentableJava\<rparr>])],
      srv_subscribed = True\<rparr>"

definition sample_restarted :: process_info where
  "sample_restarted = add_metadata (the (ie_resource sample_event)) (the (eo_pod (the (ie_resource sample_event))))
     (empty_process_info\<lparr>pi_kind := InstrumentableJava\<rparr>)"

lemma sample_restarted_facts:
  "process_deployment sample_restarted = ''app''" "wants_restart sample_mutator sample_restarted"
  "can_be_bounced ''shop'' ''app''" "mutation_key ''shop'' ''app'' = ''shop:app''"
  by code_simp+

lemma sample_wanted:
  assumes "ie_resource sample_event = Some obj" and "eo_pod obj = Some pd"
  shows "wanted_deployment sample_bounced_server obj pd d \<longleftrightarrow> d = ''app''"
proof -
  have c: "pd_containers pd = [''c1'']" and ns: "eo_namespace obj = ''shop''"
    and p: "add_metadata obj pd (empty_process_info\<lparr>pi_kind := InstrumentableJava\<rparr>) = sample_restarted"
    using assms by (auto simp: sample_event_def sample_restarted_def)
  have "wanted_deployment sample_bounced_server obj pd d \<longleftrightarrow>
      wants_restart sample_mutator sample_restarted \<and> d = process_deployment sample_restarted \<and> can_be_bounced ''shop'' d"
    unfolding wanted_deployment_def c ns by (simp add: sample_bounced_server_def group_def p)
  then show ?thesis using sample_restarted_facts by auto
qed

theorem event_restarts_exactly_wanted_witness:
  "\<exists>s b. on_event sample_api sample_event sample_bounced_server = Inr s \<and> srv_bouncer s = Some b \<and>
     patch_log b = [(''shop'', ''app'')] \<and> already_bounced b ''shop'' ''app''"
proof -
  obtain obj pd where o: "ie_resource sample_event = Some obj" "eo_pod obj = Some pd" "eo_namespace obj = ''shop''"
    by (simp add: sample_event_def)
  have b: "srv_bouncer sample_bounced_server = Some \<lparr>bounced_deployments = [], patch_log = []\<rparr>"
    and t: "ie_type sample_event \<in> {EventCreated, EventUpdated}"
    by (simp_all add: sample_bounced_server_def sample_event_def)
  obtain s where s: "on_event sample_api sample_event sample_bounced_server = Inr s"
    using on_event_bounce [OF b o(1,2) t, of sample_api] by (elim exE conjE)
  note wanted = sample_wanted [OF o(1,2)]
  have fresh: "\<not> already_bounced \<lparr>bounced_deployments = [], patch_log = []\<rparr> n d" for n d
    by (simp add: already_bounced_def)
  from event_restarts_exactly_wanted [OF b o(1,2) t s] obtain b' where b':
    "srv_bouncer s = Some b'" "already_bounced b' ''shop'' ''app''"
    "\<forall>(n, d) \<in> set (patch_log b'). n = ''shop'' \<and> d = ''app''"
    "filter (\<lambda>(n, x). mutation_key n x = mutation_key ''shop'' ''app'') (patch_log b') = [(''shop'', ''app'')]"
    by (fastforce simp: o(3) wanted fresh sample_api_def)
  from b'(3) have "filter (\<lambda>(n, x). mutation_key n x = mutation_key ''shop'' ''app'') (patch_log b') = patch_log b'"
    by (intro filter_True) auto
  with b' s show ?thesis by auto
qed

text \<open>
  C3: the clean-up never takes a package that is in use. A directory that the initial scan
  removes is a version older than the current one and older than the version of every live
  process (below the scanner's initial value), and nothing is removed unless the injector
  manages the packages on a host path. Where the removals succeed, every directory older
  than the minimum of these is removed.
\<close>

theorem cleanup_spares_versions_in_use:
  assumes "srv_scanner s = new_initial_state_scanner (sdk_pkg_version (srv_inject s))"
    and "establish_initial_process_state h (Inr pids) dir removes s = (s', err, removed)"
  shows "(\<forall>name \<in> set removed.
            manage_sdk_versions (srv_inject s) \<and> \<not> uses_image_volume (srv_inject s) \<and>
            (\<exists>entries. dir = Inr entries \<and> (name, True) \<in> set entries) \<and> semver_is_valid name \<and>
            semver_compare name (sdk_pkg_version (srv_inject s)) < 0 \<and>
            (\<forall>pid ver. pid \<in> set pids \<longrightarrow> seen_version h (fresh_process pid) = Some ver \<longrightarrow>
               semver_compare ver dummySDKVersion < 0 \<longrightarrow> semver_compare name ver < 0))
     \<and> err = None"
proof -
  let ?cur = "sdk_pkg_version (srv_inject s)"
  obtain sc cs where run: "find_existing_processes h (Inr pids) (srv_scanner s) = (sc, Inr cs)"
    by (metis find_existing_ok prod.collapse)
  define oldest where "oldest =
    (if semver_compare (oldest_sdk_version sc) ?cur > 0 then ?cur else oldest_sdk_version sc)"
  have err: "err = None" and removed: "removed =
      (if \<not> uses_image_volume (srv_inject s) \<and> manage_sdk_versions (srv_inject s)
       then snd (cleanup_old_instrumentation_versions dir removes oldest) else [])"
    using assms(2) by (auto simp: establish_initial_process_state_def run Let_def oldest_def split: if_splits)
  have le_cur: "semver_compare oldest ?cur \<le> 0"
    by (auto simp: oldest_def semver.cmp_self)
  have le_ver: "semver_compare oldest ver \<le> 0"
    if "pid \<in> set pids" "seen_version h (fresh_process pid) = Some ver" "semver_compare ver dummySDKVersion < 0"
    for pid ver
  proof -
    have "semver_compare (oldest_sdk_version sc) ver \<le> 0"
      using oldest_in_use_bound [OF run [unfolded assms(1)]] that by blast
    moreover have "semver_compare oldest (oldest_sdk_version sc) \<le> 0"
      using semver.cmp_swap [of "oldest_sdk_version sc" ?cur] by (auto simp: oldest_def semver.cmp_self)
    ultimately show ?thesis by (metis semver.cmp_trans)
  qed
  have less: "semver_compare name v < 0" if "semver_compare name oldest < 0" "semver_compare oldest v \<le> 0" for name v
    using that semver.cmp_trans [of oldest v name] semver.cmp_swap by (metis neg_le_0_iff_le not_less)
  have sound: "(\<exists>entries. dir = Inr entries \<and> (name, True) \<in> set entries) \<and> semver_is_valid name \<and>
      semver_compare name oldest < 0" if "name \<in> set removed" for name
    using that cleanup_loop_sound
    by (fastforce simp: removed cleanup_old_instrumentation_versions_def split: if_splits sum.splits)
  show ?thesis
    using sound less le_cur le_ver err removed by (auto split: if_splits) 
qed

theorem cleanup_spares_versions_in_use_witness:
  "''v0.0.5'' \<notin> set (snd (snd (establish_initial_process_state sample_host (Inr [1, 2])
      (Inr [(''v0.0.3'', True), (''v0.0.5'', True), (''notes'', False)]) (\<lambda>_. True) sample_bounced_server)))"
proof
  assume mem: "''v0.0.5'' \<in> set (snd (snd (establish_initial_process_state sample_host (Inr [1, 2])
      (Inr [(''v0.0.3'', True), (''v0.0.5'', True), (''notes'', False)]) (\<lambda>_. True) sample_bounced_server)))"
  have sc: "srv_scanner sample_bounced_server = new_initial_state_scanner (sdk_pkg_version (srv_inject sample_bounced_server))"
    by (simp add: sample_bounced_server_def sample_mutator_def sample_inject_def)
  obtain s' err removed where run: "establish_initial_process_state sample_host (Inr [1, 2])
      (Inr [(''v0.0.3'', True), (''v0.0.5'', True), (''notes'', False)]) (\<lambda>_. True) sample_bounced_server = (s', err, removed)"
    by (metis prod_cases3)
  with mem have "''v0.0.5'' \<in> set removed" by simp
  moreover have "1 \<in> set [1, 2 :: int]" by simp
  ultimately have "semver_compare ''v0.0.5'' ''v0.0.5'' < 0"
    using cleanup_spares_versions_in_use [OF sc run] sample_seen by blast
  then show False by (simp add: semver.cmp_self)
qed

lemma trim_right_digits: "trim_right ''+'' (digits_of n @ replicate k (CHR ''+'')) = digits_of n"
proof -
  have "\<forall>c \<in> set (digits_of n). c \<noteq> CHR ''+''"
    using digits_of_digit [of n] by (auto simp: list_all_iff is_digit_def)
  moreover have "dropWhile (\<lambda>c. c = CHR ''+'') (replicate k (CHR ''+'') @ xs) = dropWhile (\<lambda>c. c = CHR ''+'') xs" for xs
    by (induction k) auto
  moreover have "dropWhile (\<lambda>c. c = CHR ''+'') (rev (digits_of n)) = rev (digits_of n)"
    if "\<forall>c \<in> set (digits_of n). c \<noteq> CHR ''+''"
    using that by (intro dropWhile_eq_self_iff [THEN iffD2]) (metis digits_of_nonempty hd_in_set rev_is_Nil_conv set_rev)
  ultimately show ?thesis by (simp add: trim_right_def)
qed

text \<open>
  C17: image volumes are mounted only on a cluster that supports them. Where the API server
  reports the version maj.mnr, with any number of plus signs after the minor number as some
  distributions write it, the check that guards the start of the webhook refuses exactly the
  configurations with image volumes on a version below 1.31, the numbers compared as numbers
  (so 1.4 is older than 1.31, and 2.0 newer), and names the version as it was reported.
\<close>

theorem image_volumes_need_131:
  "check_image_volume_support None (Inr (digits_of maj, digits_of mnr @ replicate k (CHR ''+''))) cfg =
     (if image_volume_path cfg \<noteq> [] \<and> (maj < 1 \<or> (maj = 1 \<and> mnr < 31))
      then Some (ImageVolumeNeeds131 (digits_of maj) (digits_of mnr @ replicate k (CHR ''+''))) else None)"
proof -
  have v: "''v'' @ digits_of maj @ ''.'' @ trim_right ''+'' (digits_of mnr @ replicate k (CHR ''+'')) @ ''.0'' =
      release maj mnr 0"
  proof -
    have "digits_of 0 = ''0''" by code_simp
    then show ?thesis by (simp only: trim_right_digits release_def append_assoc) simp
  qed
  have r: "''v1.31.0'' = release 1 31 0"
    by code_simp
  have "semver_compare (release maj mnr 0) (release 1 31 0) < 0 \<longleftrightarrow> maj < 1 \<or> maj = 1 \<and> mnr < 31"
    by (auto simp: compare_release cmp3_def)
  then show ?thesis
    unfolding check_image_volume_support_def option.case sum.case prod.case v r
    by (simp add: uses_image_volume_def)
qed

definition ready_round :: "(bool \<times> bool \<times> wait_choice) list \<Rightarrow> bool" where
  "ready_round rounds \<longleftrightarrow>
     (\<exists>before choice after. rounds = before @ (True, True, choice) # after \<and>
        (\<forall>(c, k, ch) \<in> set before. ch = WaitPoll))"

lemma ready_round_Nil [simp]: "\<not> ready_round []"
  by (simp add: ready_round_def)

lemma ready_round_Cons [simp]:
  "ready_round ((c, k, ch) # rounds) \<longleftrightarrow> (c \<and> k) \<or> (ch = WaitPoll \<and> ready_round rounds)" (is "?l \<longleftrightarrow> ?r")
proof
  assume ?l
  then obtain before choice after where b: "(c, k, ch) # rounds = before @ (True, True, choice) # after"
    "\<forall>(c, k, ch) \<in> set before. ch = WaitPoll" unfolding ready_round_def by blast
  then show ?r unfolding ready_round_def by (cases before) auto
next
  assume ?r
  then consider "c \<and> k" | "ch = WaitPoll" "ready_round rounds" by blast
  then show ?l
  proof cases
    case 1
    then show ?l unfolding ready_round_def by (intro exI [of _ "[]"]) auto
  next
    case 2
    then obtain before choice after where "rounds = before @ (True, True, choice) # after"
      "\<forall>(c, k, ch) \<in> set before. ch = WaitPoll" unfolding ready_round_def by blast
    with 2 show ?l unfolding ready_round_def
      by (intro exI [of _ "(c, k, ch) # before"] exI [of _ choice] exI [of _ after]) simp
  qed
qed

lemma wait_for_tls_ready: "wait_for_tls_files rounds = Some TlsReady \<longleftrightarrow> ready_round rounds"
  by (induction rounds rule: wait_for_tls_files.induct) (auto split: wait_choice.split)

lemma wait_for_tls_waiting:
  "wait_for_tls_files rounds = None \<longleftrightarrow> list_all (\<lambda>(c, k, ch). \<not> (c \<and> k) \<and> ch = WaitPoll) rounds"
  by (induction rounds rule: wait_for_tls_files.induct) (auto split: wait_choice.split)

text \<open>
  C13: the wait for the certificate. It succeeds exactly where both files are present in some
  round and every earlier round only polled, and it goes on exactly as long as no round
  has both files, a cancellation or the deadline.
\<close>

theorem wait_for_tls_outcome:
  "(wait_for_tls_files rounds = Some TlsReady) =
     (\<exists>before choice after. rounds = before @ (True, True, choice) # after \<and>
        list_all (\<lambda>(c, k, ch). ch = WaitPoll) before)
   \<and> (wait_for_tls_files rounds = None) = list_all (\<lambda>(c, k, ch). \<not> (c \<and> k) \<and> ch = WaitPoll) rounds"
  unfolding wait_for_tls_ready wait_for_tls_waiting ready_round_def by (simp add: list_all_iff)

lemma scanned_environ:
  "pv_environ (h pid) = Some environ \<Longrightarrow>
     pi_env (add_metadata obj pd (scanned h (fresh_process pid))) = env_strs_to_map environ"
  by (simp add: add_metadata_def Let_def scanned_def read_environ_def fresh_process_def)

text \<open>
  C8: the webhook and the restarts do not chase each other. Take a container that the webhook
  has instrumented and a process that the scan finds, whose environment on the host shows the
  two variables of the mutated container by which the server recognises its work (the SDK
  version, which has no surrounding white space, and the preloaded library); nothing is
  assumed of its other variables. When the informer reports its pod, with the labels of the
  mutated pod or with none, and the pod is still selected, the process counts as instrumented
  and the handler leaves the server as it is: nothing is restarted.
\<close>

theorem no_restart_after_mutation:
  assumes "is_target (srv_mutator s) p" and "c \<in> set (ps_containers (pod_spec p))"
    and "envVarLdPreloadName \<notin> set (env_names c)"
    and "c' = instrument_container rp (srv_mutator s) (pod_meta p) c (fst (matches_selection (srv_mutator s) (pod_meta p)))"
    and "pv_environ (h pid) = Some environ"
    and "\<forall>n \<in> {envVarSDKVersion, envVarLdPreloadName}. \<forall>v.
           env_entry c' n = Some (plain_entry n v) \<longrightarrow> environ_shows environ n v"
    and "eo_labels obj \<in> {[], om_labels (pod_meta (fst (mutate_pod rp (srv_mutator s) p)))}"
    and "fst ` set (pm_headers (srv_mutator s)) \<inter> base_env_names = {}"
    and "package_version (srv_inject s) \<noteq> []"
    and "trim_space (package_version (srv_inject s)) = package_version (srv_inject s)"
    and "a = add_metadata obj pd (scanned h (fresh_process pid))"
    and "snd (match_process_info (srv_matcher s) (Some a))"
  shows "already_instrumented_process (srv_mutator s) a \<and> \<not> preloads_something_else (srv_mutator s) a \<and>
     on_process k a s = Inr s"
proof -
  let ?pm = "srv_mutator s"
  have env: "pi_env a = env_strs_to_map environ" and labels: "pi_pod_labels a = eo_labels obj"
    unfolding assms(11) using assms(5) by (simp add: scanned_environ, simp add: add_metadata_def Let_def)
  have shown: "v \<in> {package_version (srv_inject s), envVarLdPreloadValue}"
    if "n \<in> {envVarSDKVersion, envVarLdPreloadName}" "env_entry c' n = Some (plain_entry n v)" for n v
    using that mutated_variables [OF assms(4,8,9)] by (auto simp: plain_entry_def)
  have "\<forall>n \<in> {envVarSDKVersion, envVarLdPreloadName}. \<forall>v.
      env_entry c' n = Some (plain_entry n v) \<longrightarrow> mget (pi_env a) n = Some v"
  proof (intro ballI allI impI)
    fix n v assume n: "n \<in> {envVarSDKVersion, envVarLdPreloadName}" "env_entry c' n = Some (plain_entry n v)"
    have "trim_space envVarSDKVersion = envVarSDKVersion" "trim_space envVarLdPreloadName = envVarLdPreloadName"
      by code_simp+
    with n(1) have names: "CHR ''='' \<notin> set n" "trim_space n = n" "n \<noteq> []" by auto
    have "trim_space envVarLdPreloadValue = envVarLdPreloadValue" by code_simp
    with shown [OF n] assms(9,10) have "trim_space v = v" "v \<noteq> []" by auto
    with names n assms(6) show "mget (pi_env a) n = Some v"
      unfolding env by (intro environ_shows_read) auto
  qed
  from mutated_process_facts [OF assms(1-4) this _ assms(8,9)] assms(7) labels
  have "already_instrumented_process ?pm a" "\<not> preloads_something_else ?pm a" by auto
  with assms(12) show ?thesis by (simp add: on_process_def)
qed

definition mutated_host :: host where
  "mutated_host pid =
     \<lparr>pv_maps = Some [''/usr/lib/jvm/lib/server/libjvm.so''], pv_environ_bytes = None, pv_exists = True,
      pv_environ = Some [''PATH=/bin'', ''BEYLA_INJECTOR_SDK_PKG_VERSION=v0.0.8'', ''DOTNET_AUTO_INSTRUMENTATION_AGENT_PATH_PREFIX='',
        ''LD_PRELOAD=/__otel_sdk_auto_instrumentation__/dist/injector/libotelinject.so'', ''broken''],
      pv_container = Inr \<lparr>container_id = ''c1'', pid_namespace = 7\<rparr>\<rparr>"

theorem no_restart_after_mutation_witness:
  "on_process sample_api
     (add_metadata (the (ie_resource sample_event)) (the (eo_pod (the (ie_resource sample_event))))
        (scanned mutated_host (fresh_process 1))) sample_bounced_server = Inr sample_bounced_server"
proof -
  let ?obj = "the (ie_resource sample_event)" and ?env = "the (pv_environ (mutated_host 1))"
  let ?a = "add_metadata ?obj (the (eo_pod ?obj)) (scanned mutated_host (fresh_process 1))"
  have pm [simp]: "srv_mutator sample_bounced_server = sample_mutator"
    by (simp add: sample_bounced_server_def)
  have h: "fst ` set (pm_headers sample_mutator) \<inter> base_env_names = {}"
    by (auto simp: sample_mutator_def base_env_names_def)
  have v: "package_version (pm_inject sample_mutator) = ''v0.0.8''" "trim_space ''v0.0.8'' = ''v0.0.8''" by code_simp+
  have c: "sample_container \<in> set (ps_containers (pod_spec sample_pod))"
    by (simp add: sample_pod_def)
  have names: "envVarLdPreloadName \<notin> set (env_names sample_container)"
    by (simp add: env_names_def sample_container_def plain_entry_def)
  have "''k8s_namespace'' \<noteq> owner_label_name ''ReplicaSet''" "''k8s_namespace'' \<noteq> owner_label_name ''Deployment''"
    by code_simp+
  then have m: "snd (match_process_info (pm_matcher sample_mutator) (Some ?a))"
    by (simp add: sample_mutator_def match_process_info_def new_pod_matcher_def normalize_glob_criteria_def
        sample_inject_def match_process_iff selects_def normalize_selector_def sample_selector_def
        criteria_hold_def add_metadata_def Let_def sample_event_def add_owner_names_base base_metadata_def)
  have read: "environ_shows ?env envVarSDKVersion ''v0.0.8''"
    "environ_shows ?env envVarLdPreloadName envVarLdPreloadValue"
    unfolding environ_shows_def by code_simp+
  have "environ_shows ?env n x" if "n \<in> {envVarSDKVersion, envVarLdPreloadName}"
    "env_entry sample_instrumented n = Some (plain_entry n x)" for n x
    using that read mutated_variables [OF sample_instrumented_def h, unfolded v(1)]
    by (auto simp: plain_entry_def)
  then have e: "\<forall>n \<in> {envVarSDKVersion, envVarLdPreloadName}. \<forall>x.
      env_entry sample_instrumented n = Some (plain_entry n x) \<longrightarrow> environ_shows ?env n x" by blast
  show ?thesis
    by (rule no_restart_after_mutation [where s = sample_bounced_server and c' = sample_instrumented
          and environ = ?env, unfolded pm, OF sample_target c names sample_instrumented_def _ e _ h _ _ refl m,
          THEN conjunct2, THEN conjunct2])
       (simp_all add: v mutated_host_def sample_event_def)
qed

end
