(* ===== verification/Schema_Store.thy ===== *)
theory Schema_Store
  imports Prelude "HOL-Library.Multiset"
begin

text \<open>
  The schema of the configuration file (cmd/beyla-schema/main.go): the store of schema nodes,
  and the walk over all schemas below a node with the three visitors that sort, mark what is
  deprecated, and normalise descriptions.

  Schemas are pointers, and \<open>processInlineFields\<close> makes two schemas share a property, so the
  nodes live in an explicit store. A node holds the fields that the passes read or write. The
  order of an ordered map is that of the list; that of a Go map is any.
\<close>

subsection \<open>Nodes and their children\<close>

type_synonym ref = nat

record schema =
  sc_description :: string
  sc_deprecated :: bool
  sc_enum :: "string list"
  sc_properties :: "(string \<times> ref) list option"
  sc_definitions :: "(string, ref) gomap"
  sc_not :: "ref option"
  sc_if :: "ref option"
  sc_then :: "ref option"
  sc_else :: "ref option"
  sc_items :: "ref option"
  sc_contains :: "ref option"
  sc_additional :: "ref option"
  sc_all_of :: "ref list"
  sc_any_of :: "ref list"
  sc_one_of :: "ref list"
  sc_prefix_items :: "ref list"
  sc_pattern :: "(string, ref) gomap"
  sc_dependent :: "(string, ref) gomap"
  sc_extras :: "strmap option"

type_synonym store = "ref \<Rightarrow> schema"

definition empty_schema :: schema where
  "empty_schema = \<lparr>sc_description = [], sc_deprecated = False, sc_enum = [], sc_properties = None, sc_definitions = [],
     sc_not = None, sc_if = None, sc_then = None, sc_else = None, sc_items = None, sc_contains = None,
     sc_additional = None, sc_all_of = [], sc_any_of = [], sc_one_of = [], sc_prefix_items = [], sc_pattern = [],
     sc_dependent = [], sc_extras = None\<rparr>"

definition property_list :: "schema \<Rightarrow> (string \<times> ref) list" where
  "property_list n = (case sc_properties n of None \<Rightarrow> [] | Some ps \<Rightarrow> ps)"

text \<open>The schemas that a walk goes on to, in its order; a nil pointer is skipped.\<close>

definition children :: "schema \<Rightarrow> ref option list" where
  "children n =
     map (Some \<circ> snd) (property_list n) @
     map (Some \<circ> snd) (sc_definitions n) @
     [sc_not n, sc_if n, sc_then n, sc_else n, sc_items n, sc_contains n, sc_additional n] @
     map Some (concat [sc_all_of n, sc_any_of n, sc_one_of n, sc_prefix_items n]) @
     map (Some \<circ> snd) (concat [sc_pattern n, sc_dependent n])"

text \<open>
  \<open>visitNestedSchemas\<close>. The children are read after the visitor has run on their parent. The
  walk recurses on pointers, so it has fuel: \<open>None\<close> is a walk that did not end.
\<close>

primrec visit :: "nat \<Rightarrow> (schema \<Rightarrow> schema) \<Rightarrow> store \<Rightarrow> ref option \<Rightarrow> store option" where
  "visit 0 f h p = None"
| "visit (Suc k) f h p =
     (case p of
        None \<Rightarrow> Some h
      | Some r \<Rightarrow> fold (\<lambda>c s. Option.bind s (\<lambda>h. visit k f h c)) (children (f (h r))) (Some (h(r := f (h r)))))"

subsection \<open>What a walk does\<close>

text \<open>The number of ways from a schema to another one, at most \<open>k\<close> steps long.\<close>

primrec paths :: "nat \<Rightarrow> store \<Rightarrow> ref option \<Rightarrow> ref \<Rightarrow> nat" where
  "paths 0 h p x = 0"
| "paths (Suc k) h p x =
     (case p of
        None \<Rightarrow> 0
      | Some r \<Rightarrow> (if r = x then 1 else 0) + sum_list (map (\<lambda>c. paths k h c x) (children (h r))))"

text \<open>Two stores with the same pointers, and a store whose pointers go down in a rank.\<close>

definition same_graph :: "store \<Rightarrow> store \<Rightarrow> bool" where
  "same_graph g h \<longleftrightarrow> (\<forall>r. mset (children (g r)) = mset (children (h r)))"

definition ranked :: "(ref \<Rightarrow> nat) \<Rightarrow> store \<Rightarrow> bool" where
  "ranked rk h \<longleftrightarrow> (\<forall>r c. Some c \<in> set (children (h r)) \<longrightarrow> rk c < rk r)"

lemma sum_children: "mset xs = mset ys \<Longrightarrow> sum_list (map g xs) = sum_list (map g ys)" for g :: "'a \<Rightarrow> nat"
proof -
  assume "mset xs = mset ys"
  then have "mset (map g xs) = mset (map g ys)" by simp
  then have "sum_mset (mset (map g xs)) = sum_mset (mset (map g ys))" by (rule arg_cong)
  then show ?thesis by (simp only: sum_mset_sum_list)
qed

lemma paths_same_graph: "same_graph g h \<Longrightarrow> paths k g p x = paths k h p x"
proof (induction k arbitrary: p)
  case (Suc k)
  have "sum_list (map (\<lambda>c. paths k h c x) (children (g r))) = sum_list (map (\<lambda>c. paths k h c x) (children (h r)))" for r
    using Suc.prems by (intro sum_children) (simp add: same_graph_def)
  with Suc show ?case by (simp split: option.split)
qed simp

lemma ranked_same_graph: "same_graph g h \<Longrightarrow> ranked rk g \<longleftrightarrow> ranked rk h"
proof -
  assume "same_graph g h"
  then have "set (children (g r)) = set (children (h r))" for r
    unfolding same_graph_def by (intro mset_eq_setD) simp
  then show ?thesis unfolding ranked_def by simp
qed

lemma same_graph_trans: "same_graph f g \<Longrightarrow> same_graph g h \<Longrightarrow> same_graph f h"
  by (simp add: same_graph_def)

locale visitor =
  fixes f :: "schema \<Rightarrow> schema" and ok :: "schema \<Rightarrow> bool"
  assumes keeps_ok: "ok n \<Longrightarrow> ok (f n)"
    and keeps_children: "ok n \<Longrightarrow> mset (children (f n)) = mset (children n)"
begin

lemma pow_ok: "ok n \<Longrightarrow> ok ((f ^^ k) n)"
  by (induction k) (auto intro: keeps_ok)

lemma pow_children: "ok n \<Longrightarrow> mset (children ((f ^^ k) n)) = mset (children n)"
  by (induction k) (auto simp: keeps_children pow_ok)

definition visited :: "store \<Rightarrow> (ref \<Rightarrow> nat) \<Rightarrow> store" where
  "visited h m = (\<lambda>x. (f ^^ m x) (h x))"

lemma visited_graph: "\<forall>x. ok (h x) \<Longrightarrow> same_graph (visited h m) h \<and> (\<forall>x. ok (visited h m x))"
  by (simp add: same_graph_def visited_def pow_children pow_ok)

lemma visited_again: "visited (visited h m) m' = visited h (\<lambda>x. m' x + m x)"
  by (auto simp: visited_def funpow_add)

lemma visit_visited:
  assumes "ranked rk h" "\<forall>x. ok (h x)" "\<And>r. p = Some r \<Longrightarrow> Suc (rk r) < k" "0 < k"
  shows "visit k f h p = Some (visited h (paths k h p))"
  using assms
proof (induction k arbitrary: h p)
  case (Suc k)
  have loop: "fold (\<lambda>c s. Option.bind s (\<lambda>h. visit k f h c)) cs (Some g) =
      Some (visited g (\<lambda>x. sum_list (map (\<lambda>c. paths k h c x) cs)))"
    if "same_graph g h" "\<forall>x. ok (g x)" "\<forall>c. Some c \<in> set cs \<longrightarrow> Suc (rk c) < k" "0 < k" for cs g
    using that
  proof (induction cs arbitrary: g)
    case (Cons c cs)
    have v: "visit k f g c = Some (visited g (paths k h c))"
      using Suc.IH [of g c] Cons.prems ranked_same_graph [OF Cons.prems(1), of rk] Suc.prems(1)
        paths_same_graph [OF Cons.prems(1)]
      by (auto simp: fun_eq_iff visited_def)
    show ?case
      using Cons.IH [of "visited g (paths k h c)"] Cons.prems visited_graph [of g "paths k h c"]
        same_graph_trans [of _ g h]
      by (simp add: v visited_again add.commute)
  qed (simp add: visited_def)
  show ?case
  proof (cases p)
    case (Some r)
    let ?g = "visited h (\<lambda>x. if r = x then 1 else 0)"
    have g: "h(r := f (h r)) = ?g"
      by (auto simp: visited_def)
    have same: "mset (children (f (h r))) = mset (children (h r))"
      using Suc.prems(2) keeps_children by blast
    then have "\<forall>c. Some c \<in> set (children (f (h r))) \<longrightarrow> Suc (rk c) < k"
      using Suc.prems(1) Suc.prems(3) [OF Some] mset_eq_setD [OF same] unfolding ranked_def by fastforce
    then have "fold (\<lambda>c s. Option.bind s (\<lambda>h. visit k f h c)) (children (f (h r))) (Some ?g) =
        Some (visited ?g (\<lambda>x. sum_list (map (\<lambda>c. paths k h c x) (children (f (h r))))))"
      using visited_graph [OF Suc.prems(2)] Suc.prems(3) [OF Some] by (intro loop) auto
    then have "visit (Suc k) f h p = Some (visited ?g (\<lambda>x. sum_list (map (\<lambda>c. paths k h c x) (children (f (h r))))))"
      by (simp add: Some g)
    moreover have "sum_list (map (\<lambda>c. paths k h c x) (children (f (h r)))) =
        sum_list (map (\<lambda>c. paths k h c x) (children (h r)))" for x
      by (rule sum_children [OF same])
    ultimately show ?thesis
      by (simp add: visited_again Some add.commute)
  qed (simp add: visited_def)
qed simp

lemma visit_once:
  assumes "ranked rk h" "\<forall>x. ok (h x)" "Suc (rk r) < k" and idem: "\<And>n. ok n \<Longrightarrow> f (f n) = f n"
  shows "visit k f h (Some r) = Some (\<lambda>x. if paths k h (Some r) x = 0 then h x else f (h x))"
proof -
  have "(f ^^ Suc m) n = f n" if "ok n" for m n
    using that by (induction m) (simp_all add: idem pow_ok)
  then have "(f ^^ m) (h x) = (if m = 0 then h x else f (h x))" for m x
    using assms(2) by (cases m) auto
  then show ?thesis
    using visit_visited [of rk h "Some r" k] assms(1-3) by (simp add: visited_def)
qed

end

subsection \<open>Sorting\<close>

text \<open>
  \<open>sortSchemaNode\<close>. \<open>sort.Slice\<close> compares what \<open>fmt.Sprint\<close> prints, which for a string is the
  string.
\<close>

definition sorted_properties :: "(string \<times> ref) list \<Rightarrow> (string \<times> ref) list" where
  "sorted_properties ps =
     fold (\<lambda>k m. case mget ps k of Some v \<Rightarrow> mput m k v | None \<Rightarrow> m) (sort (map fst ps)) []"

definition sort_schema_node :: "schema \<Rightarrow> schema" where
  "sort_schema_node n =
     n\<lparr>sc_enum := (if length (sc_enum n) > 0 then sort (sc_enum n) else sc_enum n),
       sc_properties := (case sc_properties n of None \<Rightarrow> None | Some ps \<Rightarrow> Some (sorted_properties ps))\<rparr>"

definition distinct_properties :: "schema \<Rightarrow> bool" where
  "distinct_properties n \<longleftrightarrow> wf_map (property_list n)"

lemma mput_new: "k \<notin> fst ` set m \<Longrightarrow> mput m k v = m @ [(k, v)]"
  by (induction m) auto

lemma sorted_properties_eq:
  assumes "wf_map ps"
  shows "sorted_properties ps = map (\<lambda>k. (k, the (mget ps k))) (sort (map fst ps))"
proof -
  have loop: "fold (\<lambda>k m. case mget ps k of Some v \<Rightarrow> mput m k v | None \<Rightarrow> m) ks m =
      m @ map (\<lambda>k. (k, the (mget ps k))) ks"
    if "distinct ks" "set ks \<subseteq> fst ` set ps" "set ks \<inter> fst ` set m = {}" for ks m
    using that
  proof (induction ks arbitrary: m)
    case (Cons k ks)
    then obtain v where v: "mget ps k = Some v"
      by (metis insert_subset list.simps(15) map_of_eq_None_iff option.exhaust)
    show ?case
      using Cons.IH [of "m @ [(k, v)]"] Cons.prems by (auto simp: v mput_new)
  qed simp
  show ?thesis
    using loop [of "sort (map fst ps)" "[]"] assms by (simp add: sorted_properties_def wf_map_def)
qed

lemma sorted_properties_mset: "wf_map ps \<Longrightarrow> mset (sorted_properties ps) = mset ps"
proof -
  assume wf: "wf_map ps"
  have "map (\<lambda>k. (k, the (mget ps k))) (map fst ps) = ps"
    unfolding map_map by (rule map_idI) (use wf in \<open>auto simp: wf_map_def\<close>)
  then have "image_mset (\<lambda>k. (k, the (mget ps k))) (mset (map fst ps)) = mset ps"
    by (metis mset_map)
  then show ?thesis by (simp add: sorted_properties_eq [OF wf])
qed

lemma sorted_properties_props:
  assumes "wf_map ps"
  shows "wf_map (sorted_properties ps)" "sorted (map fst (sorted_properties ps))"
    "mget (sorted_properties ps) k = mget ps k"
proof -
  have keys: "map fst (sorted_properties ps) = sort (map fst ps)"
    by (simp add: sorted_properties_eq [OF assms] comp_def)
  then show wf: "wf_map (sorted_properties ps)" and "sorted (map fst (sorted_properties ps))"
    using assms by (simp_all add: wf_map_def)
  show "mget (sorted_properties ps) k = mget ps k"
    using mset_eq_setD [OF sorted_properties_mset [OF assms]] assms wf map_of_inject_set
    unfolding wf_map_def by metis
qed

lemma sorted_properties_idem: "wf_map ps \<Longrightarrow> sorted_properties (sorted_properties ps) = sorted_properties ps"
  using sorted_properties_props [of ps] sorted_properties_eq [of ps] sorted_properties_eq [of "sorted_properties ps"]
  by (simp add: comp_def sort_key_id_if_sorted)

lemma property_list_sort:
  "property_list (sort_schema_node n) = (case sc_properties n of None \<Rightarrow> [] | Some ps \<Rightarrow> sorted_properties ps)"
  by (simp add: property_list_def sort_schema_node_def split: option.split)

interpretation sorting: visitor sort_schema_node distinct_properties
proof
  fix n assume ok: "distinct_properties n"
  then show "distinct_properties (sort_schema_node n)"
    unfolding distinct_properties_def property_list_sort
    by (cases "sc_properties n") (simp_all add: sorted_properties_props property_list_def)
  have "mset (property_list (sort_schema_node n)) = mset (property_list n)"
    using ok unfolding distinct_properties_def property_list_sort
    by (cases "sc_properties n") (simp_all add: sorted_properties_mset property_list_def)
  then have "mset (map (Some \<circ> snd) (property_list (sort_schema_node n))) = mset (map (Some \<circ> snd) (property_list n))"
    by (simp only: mset_map)
  then show "mset (children (sort_schema_node n)) = mset (children n)"
    unfolding children_def by (simp add: sort_schema_node_def)
qed

subsection \<open>Descriptions\<close>

text \<open>\<open>processSchemaDeprecation\<close>: the loop over the lines ends at the first mark.\<close>

fun deprecated_lines :: "string list \<Rightarrow> string list option" where
  "deprecated_lines [] = None"
| "deprecated_lines (line # lines) =
     (let trimmed = trim_space line; lower = to_lower trimmed
      in if has_prefix lower ''deprecated:'' then Some (trim_space (drop 11 trimmed) # lines)
         else if lower = ''deprecated'' then Some lines
         else map_option (\<lambda>ls. line # ls) (deprecated_lines lines))"

definition process_schema_deprecation :: "schema \<Rightarrow> schema" where
  "process_schema_deprecation n =
     (if sc_description n = [] then n
      else case deprecated_lines (split_byte (CHR 0x0A) (sc_description n)) of
             None \<Rightarrow> n
           | Some lines \<Rightarrow> n\<lparr>sc_deprecated := True, sc_description := trim_space (join [CHR 0x0A] lines)\<rparr>)"

definition normalize_description :: "schema \<Rightarrow> schema" where
  "normalize_description n =
     (if sc_description n = [] then n
      else n\<lparr>sc_description := replace_byte (CHR 0x0A) (CHR '' '') (sc_description n)\<rparr>)"

lemma deprecation_fields:
  "sc_properties (process_schema_deprecation n) = sc_properties n"
  "children (process_schema_deprecation n) = children n"
  "sc_enum (process_schema_deprecation n) = sc_enum n"
  by (simp_all add: process_schema_deprecation_def children_def property_list_def split: option.split)

lemma normalize_fields:
  "sc_properties (normalize_description n) = sc_properties n"
  "children (normalize_description n) = children n"
  "sc_enum (normalize_description n) = sc_enum n"
  "sc_deprecated (normalize_description n) = sc_deprecated n"
  by (simp_all add: normalize_description_def children_def property_list_def)

interpretation deprecation: visitor process_schema_deprecation distinct_properties
  by unfold_locales (simp_all add: distinct_properties_def deprecation_fields property_list_def)

interpretation normalizing: visitor normalize_description distinct_properties
  by unfold_locales (simp_all add: distinct_properties_def normalize_fields property_list_def)

lemma normalized_no_newline: "CHR 0x0A \<notin> set (sc_description (normalize_description n))"
  by (auto simp: normalize_description_def replace_byte_def)

lemma normalize_idem: "normalize_description (normalize_description n) = normalize_description n"
  by (simp add: normalize_description_def replace_byte_def comp_def cong: if_cong)

text \<open>What the passes keep of a schema.\<close>

lemma sort_schema_facts:
  assumes "distinct_properties n"
  shows "sorted (map fst (property_list (sort_schema_node n)))"
    "mget (property_list (sort_schema_node n)) = mget (property_list n)"
    "sorted (sc_enum (sort_schema_node n))" "mset (sc_enum (sort_schema_node n)) = mset (sc_enum n)"
    "sc_description (sort_schema_node n) = sc_description n"
proof -
  have wf: "sc_properties n = Some ps \<Longrightarrow> wf_map ps" for ps
    using assms by (simp add: distinct_properties_def property_list_def)
  show "sorted (map fst (property_list (sort_schema_node n)))"
    unfolding property_list_sort using wf by (cases "sc_properties n") (simp_all add: sorted_properties_props)
  show "mget (property_list (sort_schema_node n)) = mget (property_list n)"
    unfolding property_list_sort property_list_def [of n] using wf
    by (cases "sc_properties n") (auto simp: sorted_properties_props)
qed (simp_all add: sort_schema_node_def)

lemma sort_schema_idem: "distinct_properties n \<Longrightarrow> sort_schema_node (sort_schema_node n) = sort_schema_node n"
  using sorted_properties_idem
  by (auto simp: sort_schema_node_def distinct_properties_def property_list_def sort_key_id_if_sorted split: option.split)

lemma deprecated_visits:
  "sc_properties (deprecation.visited h m x) = sc_properties (h x)"
  "sc_enum (deprecation.visited h m x) = sc_enum (h x)"
  "sc_deprecated (h x) \<Longrightarrow> sc_deprecated (deprecation.visited h m x)"
proof -
  have keep: "sc_deprecated n \<Longrightarrow> sc_deprecated (process_schema_deprecation n)" for n
    by (simp add: process_schema_deprecation_def split: option.split)
  have "sc_properties ((process_schema_deprecation ^^ k) n) = sc_properties n \<and>
      sc_enum ((process_schema_deprecation ^^ k) n) = sc_enum n \<and>
      (sc_deprecated n \<longrightarrow> sc_deprecated ((process_schema_deprecation ^^ k) n))" for k n
    by (induction k) (auto simp: deprecation_fields keep)
  then show "sc_properties (deprecation.visited h m x) = sc_properties (h x)"
    "sc_enum (deprecation.visited h m x) = sc_enum (h x)"
    "sc_deprecated (h x) \<Longrightarrow> sc_deprecated (deprecation.visited h m x)"
    by (simp_all add: deprecation.visited_def)
qed

end
