(* ===== verification/Schema_Passes.thy ===== *)
theory Schema_Passes
  imports Schema_Store
begin

text \<open>
  The passes of the schema generator that use what the scan of the sources found
  (cmd/beyla-schema/main.go): \<open>processInlineFields\<close> and \<open>processEnvVars\<close>, and their composition
  with the walks of \<open>Schema_Store\<close>, as in \<open>main\<close>.
\<close>

subsection \<open>Properties of inline fields\<close>

text \<open>The loop over the properties of an inline schema: what the parent has stays.\<close>

definition add_missing :: "(string \<times> ref) list \<Rightarrow> (string \<times> ref) list \<Rightarrow> (string \<times> ref) list" where
  "add_missing ips ps = fold (\<lambda>(k, c) m. if mget m k = None then mput m k c else m) ips ps"

definition merge_inline :: "ref \<Rightarrow> ref \<Rightarrow> store \<Rightarrow> store" where
  "merge_inline d i h =
     (case (sc_properties (h i), sc_properties (h d)) of
        (Some ips, Some ps) \<Rightarrow> h(d := (h d)\<lparr>sc_properties := Some (add_missing ips ps)\<rparr>)
      | _ \<Rightarrow> h)"

text \<open>
  \<open>processInlineFields\<close>. The argument \<open>custom\<close> is the schema that the method \<open>JSONSchema\<close> of an
  inline type returns for a parent type, if the type has one.
\<close>

definition inline_schema :: "(string \<Rightarrow> string \<Rightarrow> ref option) \<Rightarrow> (string, ref) gomap \<Rightarrow> string \<Rightarrow> string \<Rightarrow> ref option" where
  "inline_schema custom defs t i = (case mget defs i of Some r \<Rightarrow> Some r | None \<Rightarrow> custom t i)"

definition process_inline ::
  "(string \<Rightarrow> string \<Rightarrow> ref option) \<Rightarrow> (string, string list) gomap \<Rightarrow> ref \<Rightarrow> store \<Rightarrow> store" where
  "process_inline custom inline root h =
     fold (\<lambda>(t, is) h.
        case mget (sc_definitions (h root)) t of
          None \<Rightarrow> h
        | Some d \<Rightarrow>
            fold (\<lambda>i h. case inline_schema custom (sc_definitions (h root)) t i of
                          None \<Rightarrow> h
                        | Some r \<Rightarrow> merge_inline d r h) is h)
      inline h"

lemma mget_add_missing:
  "mget (add_missing ips ps) k = (case mget ps k of Some c \<Rightarrow> Some c | None \<Rightarrow> mget ips k)"
proof (induction ips arbitrary: ps)
  case (Cons p ips)
  then show ?case
    by (cases p) (auto simp: add_missing_def split: option.split)
qed (simp add: add_missing_def split: option.split)

lemma add_missing_prefix: "\<exists>new. add_missing ips ps = ps @ new"
proof (induction ips arbitrary: ps)
  case (Cons p ips)
  obtain k c where p: "p = (k, c)" by fastforce
  have "\<exists>new. (if mget ps k = None then mput ps k c else ps) = ps @ new"
    by (auto simp: mput_new map_of_eq_None_iff)
  then obtain new where "(if mget ps k = None then mput ps k c else ps) = ps @ new" ..
  then show ?case
    using Cons.IH [of "ps @ new"] by (auto simp: add_missing_def p)
qed (simp add: add_missing_def)

lemma wf_add_missing: "wf_map ps \<Longrightarrow> wf_map (add_missing ips ps)"
  by (induction ips arbitrary: ps) (auto simp: add_missing_def wf_map_mput split: prod.split)

subsection \<open>Environment variables\<close>

text \<open>\<open>addEnvVarsToProperties\<close>: the extension of a property is made on its schema.\<close>

definition annotate :: "string \<Rightarrow> schema \<Rightarrow> schema" where
  "annotate v n =
     n\<lparr>sc_extras := Some (mput (case sc_extras n of None \<Rightarrow> [] | Some m \<Rightarrow> m) ''x-env-var'' v)\<rparr>"

definition annotate_vars :: "strmap \<Rightarrow> ref \<Rightarrow> store \<Rightarrow> store" where
  "annotate_vars ev r h =
     fold (\<lambda>(p, c) h. case mget ev p of None \<Rightarrow> h | Some v \<Rightarrow> h(c := annotate v (h c))) (property_list (h r)) h"

type_synonym registry = "(string, strmap) gomap"

text \<open>
  \<open>processEnvVars\<close>. Every call ends with the variables of the type \<open>Config\<close>, whatever schema it is
  for. The recursion is on pointers and has fuel.
\<close>

primrec process_env_vars :: "nat \<Rightarrow> registry \<Rightarrow> ref \<Rightarrow> store \<Rightarrow> store option" where
  "process_env_vars 0 g r h = None"
| "process_env_vars (Suc k) g r h =
     map_option (\<lambda>h. case mget g ''Config'' of None \<Rightarrow> h | Some ev \<Rightarrow> annotate_vars ev r h)
       (fold (\<lambda>(t, d) s. Option.bind s (\<lambda>h.
            process_env_vars k g d (case mget g t of None \<Rightarrow> h | Some ev \<Rightarrow> annotate_vars ev d h)))
          (sc_definitions (h r)) (Some h))"

text \<open>What \<open>x-env-var\<close> says of a schema; stores that differ in extensions only.\<close>

definition env_var_of :: "schema \<Rightarrow> string option" where
  "env_var_of n = (case sc_extras n of None \<Rightarrow> None | Some m \<Rightarrow> mget m ''x-env-var'')"

definition but_extras :: "schema \<Rightarrow> schema" where
  "but_extras n = n\<lparr>sc_extras := None\<rparr>"

definition same_but_extras :: "store \<Rightarrow> store \<Rightarrow> bool" where
  "same_but_extras g h \<longleftrightarrow> (\<forall>r. but_extras (g r) = but_extras (h r))"

lemma but_extras_fields:
  assumes "but_extras n = but_extras m"
  shows "sc_properties n = sc_properties m" "sc_definitions n = sc_definitions m" "sc_enum n = sc_enum m"
    "sc_description n = sc_description m" "sc_deprecated n = sc_deprecated m" "children n = children m"
  using assms by (cases n; cases m; simp add: but_extras_def children_def property_list_def)+

lemma same_but_extras_refl [simp]: "same_but_extras h h"
  by (simp add: same_but_extras_def)

lemma same_but_extras_trans: "same_but_extras f g \<Longrightarrow> same_but_extras g h \<Longrightarrow> same_but_extras f h"
  by (simp add: same_but_extras_def)

lemma same_but_extras_list: "same_but_extras g h \<Longrightarrow> property_list (g r) = property_list (h r)"
  using but_extras_fields(1) [of "g r" "h r"] by (simp add: same_but_extras_def property_list_def)

lemma same_but_extras_definitions: "same_but_extras g h \<Longrightarrow> sc_definitions (g r) = sc_definitions (h r)"
  using but_extras_fields(2) [of "g r" "h r"] by (simp add: same_but_extras_def)

lemma annotate_vars_loop_same:
  "same_but_extras (fold (\<lambda>(p, c) h. case mget ev p of None \<Rightarrow> h | Some v \<Rightarrow> h(c := annotate v (h c))) ps h) h"
proof (induction ps arbitrary: h)
  case (Cons p ps)
  obtain k c where p: "p = (k, c)" by fastforce
  have "same_but_extras (case mget ev k of None \<Rightarrow> h | Some v \<Rightarrow> h(c := annotate v (h c))) h"
    by (simp add: same_but_extras_def but_extras_def annotate_def split: option.split)
  then show ?case
    using Cons.IH same_but_extras_trans by (auto simp: p)
qed simp

lemma annotate_vars_same: "same_but_extras (annotate_vars ev r h) h"
  unfolding annotate_vars_def by (rule annotate_vars_loop_same)

definition type_vars :: "registry \<Rightarrow> string \<Rightarrow> ref \<Rightarrow> store \<Rightarrow> store" where
  "type_vars g t r h = (case mget g t of None \<Rightarrow> h | Some ev \<Rightarrow> annotate_vars ev r h)"

lemma type_vars_same: "same_but_extras (type_vars g t r h) h"
  by (simp add: type_vars_def annotate_vars_same split: option.split)

lemma process_env_vars_step:
  "process_env_vars (Suc k) g r h =
     map_option (type_vars g ''Config'' r)
       (fold (\<lambda>(t, d) s. Option.bind s (\<lambda>h. process_env_vars k g d (type_vars g t d h))) (sc_definitions (h r)) (Some h))"
  unfolding type_vars_def [abs_def] by (rule process_env_vars.simps)

declare process_env_vars.simps(2) [simp del]

lemma same_but_extras_graph: "same_but_extras g h \<Longrightarrow> same_graph g h"
  unfolding same_but_extras_def same_graph_def using but_extras_fields(6) by metis

lemma definition_child: "(t, d) \<in> set (sc_definitions n) \<Longrightarrow> Some d \<in> set (children n)"
proof -
  assume "(t, d) \<in> set (sc_definitions n)"
  then have "Some d \<in> set (map (Some \<circ> snd) (sc_definitions n))" by force
  then show ?thesis unfolding children_def set_append by blast
qed

lemma process_env_vars_ends:
  "ranked rk h \<Longrightarrow> rk r < k \<Longrightarrow> \<exists>h'. process_env_vars k g r h = Some h' \<and> same_but_extras h' h"
proof (induction k arbitrary: r h)
  case (Suc k)
  have loop: "\<exists>h'. fold (\<lambda>(t, d) s. Option.bind s (\<lambda>h. process_env_vars k g d (type_vars g t d h))) ds (Some f) = Some h' \<and>
      same_but_extras h' h"
    if "\<forall>(t, d) \<in> set ds. rk d < k" "same_but_extras f h" for ds f
    using that
  proof (induction ds arbitrary: f)
    case (Cons e ds)
    obtain t d where e: "e = (t, d)" by fastforce
    have same: "same_but_extras (type_vars g t d f) h"
      using Cons.prems(2) type_vars_same same_but_extras_trans by blast
    then obtain f' where "process_env_vars k g d (type_vars g t d f) = Some f'" "same_but_extras f' h"
      using Suc.IH [of "type_vars g t d f" d] Cons.prems(1) Suc.prems(1)
        ranked_same_graph [OF same_but_extras_graph [OF same], of rk] same_but_extras_trans
      by (fastforce simp: e)
    then show ?case
      using Cons.IH Cons.prems(1) by (simp add: e)
  qed simp
  have "\<forall>(t, d) \<in> set (sc_definitions (h r)). rk d < k"
    using Suc.prems definition_child [of _ _ "h r"] by (fastforce simp: ranked_def)
  from loop [OF this same_but_extras_refl] show ?case
    unfolding process_env_vars_step using type_vars_same same_but_extras_trans by fastforce
qed simp

text \<open>One definition after another, for schemas whose definitions have none of their own.\<close>

definition definition_vars :: "registry \<Rightarrow> string \<times> ref \<Rightarrow> store \<Rightarrow> store" where
  "definition_vars g = (\<lambda>(t, d) h. type_vars g ''Config'' d (type_vars g t d h))"

lemma process_env_vars_flat:
  assumes "\<forall>(t, d) \<in> set (sc_definitions (h r)). sc_definitions (h d) = []"
  shows "process_env_vars (Suc (Suc k)) g r h =
    Some (type_vars g ''Config'' r (fold (definition_vars g) (sc_definitions (h r)) h))"
proof -
  have leaf: "process_env_vars (Suc k) g d f = Some (type_vars g ''Config'' d f)" if "sc_definitions (f d) = []" for d f
    using that by (simp only: process_env_vars_step fold_Nil id_apply option.map)
  have "fold (\<lambda>(t, d) s. Option.bind s (\<lambda>h. process_env_vars (Suc k) g d (type_vars g t d h))) ds (Some f) =
      Some (fold (definition_vars g) ds f)"
    if "\<forall>(t, d) \<in> set ds. sc_definitions (h d) = []" "same_but_extras f h" for ds f
    using that
  proof (induction ds arbitrary: f)
    case (Cons e ds)
    obtain t d where e: "e = (t, d)" by fastforce
    have same: "same_but_extras (type_vars g t d f) h" "same_but_extras (definition_vars g (t, d) f) h"
      using Cons.prems(2) type_vars_same same_but_extras_trans by (auto simp: definition_vars_def, blast+)
    then have "sc_definitions (type_vars g t d f d) = []"
      using Cons.prems(1) same_but_extras_definitions by (simp add: e)
    then have "process_env_vars (Suc k) g d (type_vars g t d f) = Some (type_vars g ''Config'' d (type_vars g t d f))"
      by (rule leaf)
    then show ?case
      using Cons.IH [OF _ same(2)] Cons.prems(1) by (simp add: e definition_vars_def)
  qed simp
  from this [OF assms same_but_extras_refl] show ?thesis
    by (simp only: process_env_vars_step [of "Suc k"] option.map)
qed

text \<open>A property that has its schema for itself is written by its owner only.\<close>

definition env_update :: "strmap \<Rightarrow> string \<Rightarrow> string option \<Rightarrow> string option" where
  "env_update ev p old = (case mget ev p of Some v \<Rightarrow> Some v | None \<Rightarrow> old)"

lemma env_var_of_set [simp]: "env_var_of (annotate v n) = Some v"
  by (simp add: env_var_of_def annotate_def)

lemma annotate_vars_other: "c \<notin> snd ` set (property_list (h r)) \<Longrightarrow> annotate_vars ev r h c = h c"
proof -
  have "fold (\<lambda>(p, c) h. case mget ev p of None \<Rightarrow> h | Some v \<Rightarrow> h(c := annotate v (h c))) ps f c = f c"
    if "c \<notin> snd ` set ps" for ps and f :: store
    using that by (induction ps arbitrary: f) (auto split: option.split)
  then show "c \<notin> snd ` set (property_list (h r)) \<Longrightarrow> annotate_vars ev r h c = h c"
    by (simp add: annotate_vars_def)
qed

lemma annotate_vars_own:
  assumes "(p, c) \<in> set (property_list (h r))" "distinct (map snd (property_list (h r)))"
  shows "env_var_of (annotate_vars ev r h c) = env_update ev p (env_var_of (h c))"
proof -
  let ?step = "\<lambda>(p, c) h. case mget ev p of None \<Rightarrow> h | Some v \<Rightarrow> h(c := annotate v (h c))"
  have other: "fold ?step ps f c = f c" if "c \<notin> snd ` set ps" for ps and f :: store
    using that by (induction ps arbitrary: f) (auto split: option.split)
  have "env_var_of (fold ?step ps f c) = env_update ev p (env_var_of (f c))"
    if "(p, c) \<in> set ps" "distinct (map snd ps)" for ps and f :: store
    using that
  proof (induction ps arbitrary: f)
    case (Cons q ps)
    show ?case
    proof (cases "q = (p, c)")
      case True
      then have "c \<notin> snd ` set ps" using Cons.prems by auto
      then show ?thesis using other by (auto simp: True env_update_def split: option.split)
    next
      case False
      then have own: "(p, c) \<in> set ps" using Cons.prems by simp
      then have "c \<in> set (map snd ps)" by force
      then have "snd q \<noteq> c" using Cons.prems(2) by auto
      with own
      show ?thesis
        using Cons.IH Cons.prems(2) by (cases q) (auto split: option.split)
    qed
  qed simp
  from this [OF assms] show ?thesis by (simp add: annotate_vars_def)
qed

definition vars_of :: "registry \<Rightarrow> string \<Rightarrow> strmap" where
  "vars_of g t = (case mget g t of None \<Rightarrow> [] | Some ev \<Rightarrow> ev)"

definition property_refs :: "store \<Rightarrow> ref \<Rightarrow> ref list" where
  "property_refs h r =
     concat (map (\<lambda>(t, d). map snd (property_list (h d))) (sc_definitions (h r))) @ map snd (property_list (h r))"

lemma type_vars_other: "c \<notin> snd ` set (property_list (h r)) \<Longrightarrow> type_vars g t r h c = h c"
  by (simp add: type_vars_def annotate_vars_other split: option.split)

lemma type_vars_own:
  "(p, c) \<in> set (property_list (h r)) \<Longrightarrow> distinct (map snd (property_list (h r))) \<Longrightarrow>
   env_var_of (type_vars g t r h c) = env_update (vars_of g t) p (env_var_of (h c))"
  by (simp add: type_vars_def vars_of_def annotate_vars_own env_update_def [of "[]"] split: option.split)

lemma definition_vars_same: "same_but_extras (definition_vars g e h) h"
  by (cases e) (auto simp: definition_vars_def intro: same_but_extras_trans type_vars_same)

lemma definitions_vars_same: "same_but_extras (fold (definition_vars g) ds h) h"
  by (induction ds arbitrary: h) (auto intro: same_but_extras_trans definition_vars_same)

lemma definition_vars_other: "c \<notin> snd ` set (property_list (h d)) \<Longrightarrow> definition_vars g (t, d) h c = h c"
  by (simp add: definition_vars_def type_vars_other same_but_extras_list [OF type_vars_same])

lemma definitions_vars_other:
  "\<forall>(t, d) \<in> set ds. c \<notin> snd ` set (property_list (h d)) \<Longrightarrow> fold (definition_vars g) ds h c = h c"
proof (induction ds arbitrary: h)
  case (Cons e ds)
  obtain t d where e: "e = (t, d)" by fastforce
  show ?case
    using Cons.IH [of "definition_vars g e h"] Cons.prems definition_vars_other [of c h d g t]
    by (simp add: e same_but_extras_list [OF definition_vars_same])
qed simp

lemma definition_vars_own:
  assumes "(p, c) \<in> set (property_list (h d))" "distinct (map snd (property_list (h d)))"
  shows "env_var_of (definition_vars g (t, d) h c) =
    env_update (vars_of g ''Config'') p (env_update (vars_of g t) p (env_var_of (h c)))"
  using assms by (simp add: definition_vars_def type_vars_own same_but_extras_list [OF type_vars_same])

lemma distinct_concat_middle:
  assumes "distinct (concat (map f (as @ x # bs)))"
  shows "distinct (f x)" "y \<in> set as \<Longrightarrow> set (f y) \<inter> set (f x) = {}" "y \<in> set bs \<Longrightarrow> set (f y) \<inter> set (f x) = {}"
  using assms by auto

lemma property_refs_parts:
  assumes "distinct (property_refs h root)"
  shows "distinct (concat (map (\<lambda>(t, d). map snd (property_list (h d))) (sc_definitions (h root))))"
    and "distinct (map snd (property_list (h root)))"
    and "(t, d) \<in> set (sc_definitions (h root)) \<Longrightarrow>
      snd ` set (property_list (h d)) \<inter> snd ` set (property_list (h root)) = {}"
proof -
  let ?ds = "sc_definitions (h root)" and ?ps = "\<lambda>(t, d). map snd (property_list (h d))"
  show "distinct (concat (map ?ps ?ds))" "distinct (map snd (property_list (h root)))"
    using assms unfolding property_refs_def distinct_append by blast+
  have apart: "set (concat (map ?ps ?ds)) \<inter> set (map snd (property_list (h root))) = {}"
    using assms unfolding property_refs_def distinct_append by blast
  assume "(t, d) \<in> set ?ds"
  then have "map snd (property_list (h d)) \<in> set (map ?ps ?ds)"
    using imageI [of "(t, d)" "set ?ds" ?ps] by simp
  then have "set (map snd (property_list (h d))) \<inter> set (map snd (property_list (h root))) = {}"
    using apart unfolding set_concat by blast
  then show "snd ` set (property_list (h d)) \<inter> snd ` set (property_list (h root)) = {}" unfolding set_map .
qed

text \<open>What the definitions, one after another, do to a property that only one of them has.\<close>

lemma definition_property_vars:
  assumes all: "distinct (concat (map (\<lambda>(t, d). map snd (property_list (h d))) ds))"
    and td: "(t, d) \<in> set ds" and pc: "(p, c) \<in> set (property_list (h d))"
  shows "env_var_of (fold (definition_vars g) ds h c) =
    env_update (vars_of g ''Config'') p (env_update (vars_of g t) p (env_var_of (h c)))"
proof -
  obtain as bs where ds: "ds = as @ (t, d) # bs" using td split_list by fastforce
  have c: "c \<in> snd ` set (property_list (h d))" using pc by force
  note middle = distinct_concat_middle [OF all [unfolded ds]]
  have "c \<notin> snd ` set (property_list (h d'))" if "(t', d') \<in> set as" for t' d'
    using middle(2) [OF that] c by (simp, blast)
  moreover have "c \<notin> snd ` set (property_list (h d'))" if "(t', d') \<in> set bs" for t' d'
    using middle(3) [OF that] c by (simp, blast)
  ultimately have others: "\<forall>(t', d') \<in> set as. c \<notin> snd ` set (property_list (h d'))"
    "\<forall>(t', d') \<in> set bs. c \<notin> snd ` set (property_list (h d'))"
    by blast+
  let ?a = "fold (definition_vars g) as h"
  let ?b = "definition_vars g (t, d) ?a"
  have a: "same_but_extras ?a h" "same_but_extras ?b h"
    using definitions_vars_same definition_vars_same same_but_extras_trans by blast+
  have "fold (definition_vars g) ds h c = ?b c"
    using others(2) definitions_vars_other [of bs c ?b g]
    by (simp add: ds same_but_extras_list [OF definitions_vars_same]
        same_but_extras_list [OF definition_vars_same] case_prod_beta)
  moreover have "?a c = h c" by (rule definitions_vars_other [OF others(1)])
  moreover have "distinct (map snd (property_list (h d)))"
    using middle(1) by simp
  ultimately show ?thesis
    using definition_vars_own [of p c ?a d g t] pc by (simp add: same_but_extras_list [OF a(1)])
qed

text \<open>
  C32: in a schema whose definitions have no definitions of their own, and where no two
  properties share their schema, a property of a definition gets the variable of its name from
  the type of the definition, but from the type \<open>Config\<close> if that type has a field of this name;
  a property of the whole schema gets the variable from \<open>Config\<close>.
\<close>

theorem property_env_vars:
  assumes "\<forall>(t, d) \<in> set (sc_definitions (h root)). sc_definitions (h d) = []"
    and "distinct (property_refs h root)"
  shows "\<exists>h'. process_env_vars (Suc (Suc k)) g root h = Some h' \<and>
    (\<forall>(t, d) \<in> set (sc_definitions (h root)). \<forall>(p, c) \<in> set (property_list (h d)).
       env_var_of (h' c) = env_update (vars_of g ''Config'') p (env_update (vars_of g t) p (env_var_of (h c)))) \<and>
    (\<forall>(p, c) \<in> set (property_list (h root)). env_var_of (h' c) = env_update (vars_of g ''Config'') p (env_var_of (h c)))"
proof -
  let ?ds = "sc_definitions (h root)" and ?f = "\<lambda>ds. fold (definition_vars g) ds"
  let ?h = "type_vars g ''Config'' root (?f ?ds h)"
  note parts = property_refs_parts [OF assms(2)]
  note same = same_but_extras_list [OF definitions_vars_same]
  have "env_var_of (?h c) = env_update (vars_of g ''Config'') p (env_update (vars_of g t) p (env_var_of (h c)))"
    if td: "(t, d) \<in> set ?ds" and pc: "(p, c) \<in> set (property_list (h d))" for t d p c
  proof -
    have "c \<notin> snd ` set (property_list (h root))"
      using parts(3) [OF td] pc by force
    then have "?h c = ?f ?ds h c" by (simp add: type_vars_other same)
    then show ?thesis using definition_property_vars [OF parts(1) td pc, of g] by simp
  qed
  moreover have "env_var_of (?h c) = env_update (vars_of g ''Config'') p (env_var_of (h c))"
    if pc: "(p, c) \<in> set (property_list (h root))" for p c
  proof -
    have "\<forall>(t, d) \<in> set ?ds. c \<notin> snd ` set (property_list (h d))"
      using parts(3) pc by force
    from definitions_vars_other [OF this] show ?thesis
      using type_vars_own [of p c "?f ?ds h" root g "''Config''"] pc parts(2) by (simp add: same)
  qed
  ultimately show ?thesis
    using process_env_vars_flat [OF assms(1), of k g] by blast
qed

definition meta_labels_store :: store where
  "meta_labels_store = (\<lambda>_. empty_schema)
     (0 := empty_schema\<lparr>sc_definitions := [(''MetaSourceLabels'', 1)], sc_properties := Some [(''service_name'', 3)]\<rparr>,
      1 := empty_schema\<lparr>sc_properties := Some [(''service_name'', 2)]\<rparr>)"

definition meta_labels_vars :: registry where
  "meta_labels_vars = [(''Config'', [(''service_name'', ''OTEL_SERVICE_NAME'')]),
     (''MetaSourceLabels'', [(''service_name'', ''OTEL_EBPF_KUBE_META_SOURCE_LABEL_SERVICE_NAME'')])]"

lemmas meta_labels_defs = meta_labels_store_def empty_schema_def property_refs_def property_list_def

theorem property_env_vars_witness:
  "\<exists>h'. process_env_vars 2 meta_labels_vars 0 meta_labels_store = Some h' \<and>
     env_var_of (h' 2) = Some ''OTEL_SERVICE_NAME''"
proof -
  have "\<forall>(t, d) \<in> set (sc_definitions (meta_labels_store 0)). sc_definitions (meta_labels_store d) = []"
    "distinct (property_refs meta_labels_store 0)"
    by (simp_all add: meta_labels_defs)
  from property_env_vars [OF this, of 0 meta_labels_vars]
  obtain h' where h': "process_env_vars (Suc (Suc 0)) meta_labels_vars 0 meta_labels_store = Some h'"
    and own: "\<forall>(t, d) \<in> set (sc_definitions (meta_labels_store 0)). \<forall>(p, c) \<in> set (property_list (meta_labels_store d)).
       env_var_of (h' c) = env_update (vars_of meta_labels_vars ''Config'') p
         (env_update (vars_of meta_labels_vars t) p (env_var_of (meta_labels_store c)))"
    by blast
  have "env_var_of (h' 2) = Some ''OTEL_SERVICE_NAME''"
    using own by (simp add: meta_labels_defs meta_labels_vars_def vars_of_def env_update_def)
  with h' show ?thesis by (auto simp: numeral_2_eq_2)
qed

subsection \<open>All passes\<close>

text \<open>
  The passes in the order of \<open>main\<close>, after the reflector. Each walk has fuel; a schema whose
  pointers go down in a rank is done with one more than the rank of its root.
\<close>

definition publish ::
  "nat \<Rightarrow> (string \<Rightarrow> string \<Rightarrow> ref option) \<Rightarrow> (string, string list) gomap \<Rightarrow> registry \<Rightarrow> ref \<Rightarrow> store \<Rightarrow> store option" where
  "publish k custom inline vars root h =
     Option.bind (visit k process_schema_deprecation (process_inline custom inline root h) (Some root)) (\<lambda>h.
     Option.bind (process_env_vars k vars root h) (\<lambda>h.
     Option.bind (visit k normalize_description h (Some root)) (\<lambda>h.
     visit k sort_schema_node h (Some root))))"

lemma merge_inline_distinct:
  "\<forall>x. distinct_properties (h x) \<Longrightarrow> \<forall>x. distinct_properties (merge_inline d i h x)"
proof
  fix x assume ok: "\<forall>x. distinct_properties (h x)"
  then have "sc_properties (h d) = Some ps \<Longrightarrow> wf_map ps" for ps
    unfolding distinct_properties_def by (metis option.simps(5) property_list_def)
  moreover have "merge_inline d i h x = h x \<or>
      (\<exists>ips ps. sc_properties (h d) = Some ps \<and> merge_inline d i h x = (h x)\<lparr>sc_properties := Some (add_missing ips ps)\<rparr>)"
    by (auto simp: merge_inline_def split: option.split)
  ultimately show "distinct_properties (merge_inline d i h x)"
    using ok wf_add_missing by (auto simp: distinct_properties_def property_list_def)
qed

lemma process_inline_distinct:
  "\<forall>x. distinct_properties (h x) \<Longrightarrow> \<forall>x. distinct_properties (process_inline custom inline root h x)"
proof -
  have one: "\<forall>x. distinct_properties (fold (\<lambda>i h. case inline_schema custom (sc_definitions (h root)) t i of
                None \<Rightarrow> h | Some r \<Rightarrow> merge_inline d r h) is f x)"
    if "\<forall>x. distinct_properties (f x)" for "is" f t d
    using that
  proof (induction "is" arbitrary: f)
    case (Cons i "is")
    have "\<forall>x. distinct_properties ((case inline_schema custom (sc_definitions (f root)) t i of
        None \<Rightarrow> f | Some r \<Rightarrow> merge_inline d r f) x)"
      using merge_inline_distinct [OF Cons.prems] Cons.prems by (simp split: option.split)
    from Cons.IH [OF this] show ?case by simp
  qed simp
  show "\<forall>x. distinct_properties (h x) \<Longrightarrow> \<forall>x. distinct_properties (process_inline custom inline root h x)"
    unfolding process_inline_def
  proof (induction inline arbitrary: h)
    case (Cons e inline)
    obtain t "is" where e: "e = (t, is)" by fastforce
    have "\<forall>x. distinct_properties ((case mget (sc_definitions (h root)) t of None \<Rightarrow> h
        | Some d \<Rightarrow> fold (\<lambda>i h. case inline_schema custom (sc_definitions (h root)) t i of
                None \<Rightarrow> h | Some r \<Rightarrow> merge_inline d r h) is h) x)"
      using one [OF Cons.prems] Cons.prems by (simp split: option.split)
    from Cons.IH [OF this] show ?case by (simp add: e)
  qed simp
qed

text \<open>What the passes do, one after another.\<close>

lemma publish_facts:
  assumes "ranked rk (process_inline custom inline root h)" and "\<forall>x. distinct_properties (h x)" and "Suc (rk root) < k"
  shows "\<exists>h'. publish k custom inline vars root h = Some h' \<and>
    (\<forall>x. paths k (process_inline custom inline root h) (Some root) x > 0 \<longrightarrow>
       CHR 0x0A \<notin> set (sc_description (h' x)) \<and> sorted (map fst (property_list (h' x))) \<and>
       mget (property_list (h' x)) = mget (property_list (process_inline custom inline root h x)) \<and>
       sorted (sc_enum (h' x)) \<and> mset (sc_enum (h' x)) = mset (sc_enum (process_inline custom inline root h x))) \<and>
    (\<forall>x. sc_deprecated (process_inline custom inline root h x) \<longrightarrow> sc_deprecated (h' x))"
proof -
  let ?h = "process_inline custom inline root h"
  have ok: "\<forall>x. distinct_properties (?h x)" by (rule process_inline_distinct [OF assms(2)])
  define h1 where "h1 = deprecation.visited ?h (paths k ?h (Some root))"
  have v1: "visit k process_schema_deprecation ?h (Some root) = Some h1"
    unfolding h1_def using assms(1,3) ok by (intro deprecation.visit_visited) auto
  have g1: "same_graph h1 ?h" and ok1: "\<forall>x. distinct_properties (h1 x)"
    using deprecation.visited_graph [OF ok] by (simp_all add: h1_def)
  have rk1: "ranked rk h1" using assms(1) ranked_same_graph [OF g1] by blast
  obtain h2 where v2: "process_env_vars k vars root h1 = Some h2" and e2: "same_but_extras h2 h1"
    using process_env_vars_ends [OF rk1, of root k] assms(3) by auto
  have g2: "same_graph h2 ?h" using same_graph_trans [OF same_but_extras_graph [OF e2] g1] .
  have ok2: "\<forall>x. distinct_properties (h2 x)"
    using ok1 by (simp add: distinct_properties_def same_but_extras_list [OF e2])
  have rk2: "ranked rk h2" using assms(1) ranked_same_graph [OF g2] by blast
  define h3 where "h3 = (\<lambda>x. if paths k h2 (Some root) x = 0 then h2 x else normalize_description (h2 x))"
  have v3: "visit k normalize_description h2 (Some root) = Some h3"
    unfolding h3_def using normalizing.visit_once [OF rk2 ok2 assms(3)] normalize_idem by blast
  have g3: "same_graph h3 ?h" and ok3: "\<forall>x. distinct_properties (h3 x)"
    using g2 ok2 by (auto simp: same_graph_def h3_def distinct_properties_def normalize_fields property_list_def)
  have rk3: "ranked rk h3" using assms(1) ranked_same_graph [OF g3] by blast
  define h4 where "h4 = (\<lambda>x. if paths k h3 (Some root) x = 0 then h3 x else sort_schema_node (h3 x))"
  have v4: "visit k sort_schema_node h3 (Some root) = Some h4"
    unfolding h4_def using sorting.visit_once [OF rk3 ok3 assms(3)] sort_schema_idem by blast
  have same: "sc_properties (h3 x) = sc_properties (?h x)" "sc_enum (h3 x) = sc_enum (?h x)" for x
    using but_extras_fields [of "h2 x" "h1 x"] e2
    by (simp_all add: h3_def normalize_fields same_but_extras_def h1_def deprecated_visits)
  have "CHR 0x0A \<notin> set (sc_description (h4 x)) \<and> sorted (map fst (property_list (h4 x))) \<and>
       mget (property_list (h4 x)) = mget (property_list (?h x)) \<and>
       sorted (sc_enum (h4 x)) \<and> mset (sc_enum (h4 x)) = mset (sc_enum (?h x))"
    if "paths k ?h (Some root) x > 0" for x
  proof -
    have "paths k h3 (Some root) x > 0" "paths k h2 (Some root) x > 0"
      using that by (simp_all add: paths_same_graph [OF g3] paths_same_graph [OF g2])
    then have "h4 x = sort_schema_node (h3 x)" "h3 x = normalize_description (h2 x)"
      by (simp_all add: h4_def h3_def)
    moreover have "property_list (h3 x) = property_list (?h x)"
      unfolding property_list_def same ..
    ultimately show ?thesis
      using sort_schema_facts [OF spec [OF ok3, of x]] same(2) [of x] normalized_no_newline [of "h2 x"] by simp
  qed
  moreover have "sc_deprecated (h4 x)" if "sc_deprecated (?h x)" for x
  proof -
    have "sc_deprecated (h1 x)" using that by (simp add: h1_def deprecated_visits)
    then have "sc_deprecated (h2 x)" using e2 but_extras_fields(5) [of "h2 x" "h1 x"] by (simp add: same_but_extras_def)
    then show ?thesis by (simp add: h4_def h3_def normalize_fields sort_schema_node_def)
  qed
  ultimately show ?thesis by (simp add: publish_def v1 v2 v3 v4)
qed

text \<open>
  C31: when the pointers between schemas go down, the passes end; and then every schema below
  the root has a description without newlines, its properties in the order of their names and
  with the schemas they had, and its enumeration sorted and otherwise the same. Nothing takes
  back that a schema is deprecated.
\<close>

theorem published_schema:
  assumes "ranked rk (process_inline custom inline root h)" and "\<forall>x. distinct_properties (h x)" and "Suc (rk root) < k"
  shows "\<exists>h'. publish k custom inline vars root h = Some h' \<and>
    (\<forall>x. paths k (process_inline custom inline root h) (Some root) x > 0 \<longrightarrow>
       CHR 0x0A \<notin> set (sc_description (h' x)) \<and> sorted (map fst (property_list (h' x))) \<and>
       mget (property_list (h' x)) = mget (property_list (process_inline custom inline root h x)) \<and>
       sorted (sc_enum (h' x)) \<and> mset (sc_enum (h' x)) = mset (sc_enum (process_inline custom inline root h x))) \<and>
    (\<forall>x. sc_deprecated (process_inline custom inline root h x) \<longrightarrow> sc_deprecated (h' x))"
  using assms by (rule publish_facts)

definition selector_store :: store where
  "selector_store = (\<lambda>_. empty_schema)
     (0 := empty_schema\<lparr>sc_definitions := [(''GlobAttributes'', 1), (''MetadataGlobMap'', 2)]\<rparr>,
      1 := empty_schema\<lparr>sc_properties := Some [(''open_ports'', 3), (''exe_path'', 4)]\<rparr>,
      2 := empty_schema\<lparr>sc_properties := Some [(''k8s_namespace'', 5), (''exe_path'', 6)]\<rparr>,
      4 := empty_schema\<lparr>sc_description := ''Deprecated: a'' @ [CHR 0x0A] @ ''b''\<rparr>)"

definition selector_rank :: "ref \<Rightarrow> nat" where
  "selector_rank r = (if r = 0 then 2 else if r \<in> {1, 2} then 1 else 0)"

lemma selector_inlined:
  "process_inline (\<lambda>_ _. None) [(''GlobAttributes'', [''MetadataGlobMap''])] 0 selector_store =
     selector_store(1 := (selector_store 1)\<lparr>sc_properties := Some [(''open_ports'', 3), (''exe_path'', 4), (''k8s_namespace'', 5)]\<rparr>)"
  by (simp add: process_inline_def inline_schema_def merge_inline_def add_missing_def selector_store_def)

theorem published_schema_witness:
  "\<exists>h'. publish 4 (\<lambda>_ _. None) [(''GlobAttributes'', [''MetadataGlobMap''])] [] 0 selector_store = Some h' \<and>
     sorted (map fst (property_list (h' 1))) \<and> mget (property_list (h' 1)) ''k8s_namespace'' = Some 5 \<and>
     mget (property_list (h' 1)) ''exe_path'' = Some 4 \<and> CHR 0x0A \<notin> set (sc_description (h' 4))"
proof -
  let ?h = "process_inline (\<lambda>_ _. None) [(''GlobAttributes'', [''MetadataGlobMap''])] 0 selector_store"
  have "ranked selector_rank ?h"
    unfolding selector_inlined
    by (auto simp: ranked_def selector_store_def selector_rank_def children_def property_list_def empty_schema_def)
  moreover have "\<forall>x. distinct_properties (selector_store x)"
    by (simp add: selector_store_def distinct_properties_def property_list_def empty_schema_def wf_map_def)
  ultimately obtain h' where h': "publish 4 (\<lambda>_ _. None) [(''GlobAttributes'', [''MetadataGlobMap''])] [] 0 selector_store = Some h'"
    and x: "\<And>x. paths 4 ?h (Some 0) x > 0 \<Longrightarrow> CHR 0x0A \<notin> set (sc_description (h' x)) \<and>
      sorted (map fst (property_list (h' x))) \<and> mget (property_list (h' x)) = mget (property_list (?h x))"
    using published_schema [of selector_rank "\<lambda>_ _. None" "[(''GlobAttributes'', [''MetadataGlobMap''])]" 0 selector_store 4 "[]"]
    by (auto simp: selector_rank_def)
  have "paths 4 ?h (Some 0) 1 > 0" "paths 4 ?h (Some 0) 4 > 0"
    unfolding selector_inlined by (simp_all add: selector_store_def children_def property_list_def empty_schema_def numeral_eq_Suc)
  moreover have "property_list (?h 1) = [(''open_ports'', 3), (''exe_path'', 4), (''k8s_namespace'', 5)]"
    unfolding selector_inlined by (simp add: property_list_def)
  ultimately show ?thesis using x [of 1] x [of 4] h' by auto
qed

subsection \<open>What inlining adds\<close>

definition inline_into :: "(string \<Rightarrow> string \<Rightarrow> ref option) \<Rightarrow> ref \<Rightarrow> string \<Rightarrow> ref \<Rightarrow> string \<Rightarrow> store \<Rightarrow> store" where
  "inline_into custom root t d i h =
     (case inline_schema custom (sc_definitions (h root)) t i of None \<Rightarrow> h | Some r \<Rightarrow> merge_inline d r h)"

lemma process_inline_eq:
  "process_inline custom inline root h =
     fold (\<lambda>(t, is) h. case mget (sc_definitions (h root)) t of
        None \<Rightarrow> h | Some d \<Rightarrow> fold (inline_into custom root t d) is h) inline h"
  unfolding process_inline_def inline_into_def [abs_def] ..

text \<open>The first of the inline types, in their order, that has a property of a name.\<close>

fun first_property :: "store \<Rightarrow> (string \<Rightarrow> ref option) \<Rightarrow> string list \<Rightarrow> string \<Rightarrow> ref option" where
  "first_property h lookup [] p = None"
| "first_property h lookup (i # is) p =
     (case Option.bind (lookup i) (\<lambda>r. mget (property_list (h r)) p) of
        Some c \<Rightarrow> Some c
      | None \<Rightarrow> first_property h lookup is p)"

lemma merge_inline_other: "x \<noteq> d \<Longrightarrow> merge_inline d i h x = h x"
  by (simp add: merge_inline_def split: option.split)

lemma merge_inline_definitions: "sc_definitions (merge_inline d i h x) = sc_definitions (h x)"
  by (simp add: merge_inline_def split: option.split)

lemma merge_inline_properties:
  assumes "sc_properties (h d) \<noteq> None"
  shows "sc_properties (merge_inline d i h d) \<noteq> None"
    "mget (property_list (merge_inline d i h d)) p =
      (case mget (property_list (h d)) p of Some c \<Rightarrow> Some c | None \<Rightarrow> mget (property_list (h i)) p)"
  using assms by (auto simp: merge_inline_def property_list_def mget_add_missing split: option.split)

lemma first_property_cong:
  "\<forall>j \<in> set js. \<forall>r. l j = Some r \<longrightarrow> g r = h r \<Longrightarrow> first_property g l js p = first_property h l js p"
proof (induction js)
  case (Cons j js)
  have "Option.bind (l j) (\<lambda>r. mget (property_list (g r)) p) = Option.bind (l j) (\<lambda>r. mget (property_list (h r)) p)"
    using Cons.prems by (cases "l j") auto
  then show ?case using Cons by (simp split: option.split)
qed simp

lemma inline_into_facts:
  "\<forall>i \<in> set is. inline_schema custom (sc_definitions (h root)) t i \<noteq> Some d \<Longrightarrow>
   (\<forall>x. x \<noteq> d \<longrightarrow> fold (inline_into custom root t d) is h x = h x) \<and>
   (\<forall>x. sc_definitions (fold (inline_into custom root t d) is h x) = sc_definitions (h x)) \<and>
   (sc_properties (h d) \<noteq> None \<longrightarrow>
     mget (property_list (fold (inline_into custom root t d) is h d)) p =
      (case mget (property_list (h d)) p of Some c \<Rightarrow> Some c
       | None \<Rightarrow> first_property h (inline_schema custom (sc_definitions (h root)) t) is p))"
proof (induction "is" arbitrary: h)
  case (Cons i "is")
  let ?h = "inline_into custom root t d i h" and ?l = "inline_schema custom (sc_definitions (h root)) t"
  have other: "?h x = h x" if "x \<noteq> d" for x
    using that by (simp add: inline_into_def merge_inline_other split: option.split)
  have defs: "sc_definitions (?h x) = sc_definitions (h x)" for x
    by (simp add: inline_into_def merge_inline_definitions split: option.split)
  have pre: "\<forall>j \<in> set is. ?l j \<noteq> Some d" "?l i \<noteq> Some d"
    using Cons.prems by simp_all
  have own: "sc_properties (?h d) \<noteq> None \<and>
      mget (property_list (?h d)) p = (case mget (property_list (h d)) p of Some c \<Rightarrow> Some c
        | None \<Rightarrow> Option.bind (?l i) (\<lambda>r. mget (property_list (h r)) p))" if "sc_properties (h d) \<noteq> None"
    using that merge_inline_properties [of h d] by (auto simp: inline_into_def split: option.split)
  have first: "first_property ?h ?l is p = first_property h ?l is p"
    using pre(1) other by (intro first_property_cong ballI allI impI) metis
  show ?case
    using Cons.IH [of ?h] pre own other first by (auto simp: defs split: option.split)
qed (simp split: option.split)

definition inline_step ::
  "(string \<Rightarrow> string \<Rightarrow> ref option) \<Rightarrow> ref \<Rightarrow> string \<times> string list \<Rightarrow> store \<Rightarrow> store" where
  "inline_step custom root = (\<lambda>(t, is) h.
     case mget (sc_definitions (h root)) t of None \<Rightarrow> h | Some d \<Rightarrow> fold (inline_into custom root t d) is h)"

text \<open>No inline type is itself one that gets properties.\<close>

definition targets :: "(string, ref) gomap \<Rightarrow> (string, string list) gomap \<Rightarrow> ref set" where
  "targets defs inline = {d. \<exists>t \<in> set (map fst inline). mget defs t = Some d}"

definition flat_inline ::
  "(string \<Rightarrow> string \<Rightarrow> ref option) \<Rightarrow> (string, ref) gomap \<Rightarrow> ref set \<Rightarrow> (string, string list) gomap \<Rightarrow> bool" where
  "flat_inline custom defs ts inline \<longleftrightarrow>
     (\<forall>(t, is) \<in> set inline. \<forall>i \<in> set is. \<forall>r. inline_schema custom defs t i = Some r \<longrightarrow> r \<notin> ts)"

lemma inline_steps_facts:
  "flat_inline custom (sc_definitions (h root)) ts js \<Longrightarrow> targets (sc_definitions (h root)) js \<subseteq> ts \<Longrightarrow>
   (\<forall>x. x \<notin> targets (sc_definitions (h root)) js \<longrightarrow> fold (inline_step custom root) js h x = h x) \<and>
   (\<forall>x. sc_definitions (fold (inline_step custom root) js h x) = sc_definitions (h x))"
proof (induction js arbitrary: h)
  case (Cons e js)
  obtain t "is" where e: "e = (t, is)" by fastforce
  let ?defs = "sc_definitions (h root)" and ?h = "inline_step custom root e h"
  have sub: "targets ?defs js \<subseteq> targets ?defs (e # js)" by (auto simp: targets_def)
  have step: "(\<forall>x. x \<notin> targets ?defs (e # js) \<longrightarrow> ?h x = h x) \<and> (\<forall>x. sc_definitions (?h x) = sc_definitions (h x))"
  proof (cases "mget ?defs t")
    case (Some d)
    then have d: "d \<in> targets ?defs (e # js)" by (simp add: targets_def e)
    then have "\<forall>i \<in> set is. inline_schema custom ?defs t i \<noteq> Some d"
      using Cons.prems by (auto simp: flat_inline_def e)
    note facts = inline_into_facts [of "is" custom h root t d, OF this]
    have "?h = fold (inline_into custom root t d) is h" by (simp add: inline_step_def e Some)
    then show ?thesis using facts d by metis
  qed (simp add: inline_step_def e)
  then have "flat_inline custom (sc_definitions (?h root)) ts js" "targets (sc_definitions (?h root)) js \<subseteq> ts"
    using Cons.prems sub by (auto simp: flat_inline_def)
  from Cons.IH [of ?h, OF this] show ?case using step sub by auto
qed simp

lemma inline_step_Some:
  "mget (sc_definitions (h root)) t = Some d \<Longrightarrow> inline_step custom root (t, is) h = fold (inline_into custom root t d) is h"
  by (simp add: inline_step_def)

lemma inline_properties_step:
  assumes flat: "flat_inline custom (sc_definitions (h root)) (targets (sc_definitions (h root)) inline) inline"
    and "wf_map inline" "distinct (map snd (sc_definitions (h root)))"
    and t: "(t, is) \<in> set inline" "mget (sc_definitions (h root)) t = Some d" "sc_properties (h d) \<noteq> None"
  shows "mget (property_list (fold (inline_step custom root) inline h d)) p =
    (case mget (property_list (h d)) p of Some c \<Rightarrow> Some c
     | None \<Rightarrow> first_property h (inline_schema custom (sc_definitions (h root)) t) is p)"
proof -
  let ?defs = "sc_definitions (h root)" and ?f = "fold (inline_step custom root)"
  obtain as bs where ab: "inline = as @ (t, is) # bs" using t(1) split_list by fastforce
  have flats: "flat_inline custom ?defs (targets ?defs inline) as" "flat_inline custom ?defs (targets ?defs inline) bs"
    "flat_inline custom ?defs (targets ?defs inline) [(t, is)]"
    using flat by (auto simp: flat_inline_def ab)
  have subs: "targets ?defs as \<subseteq> targets ?defs inline" "targets ?defs bs \<subseteq> targets ?defs inline" "d \<in> targets ?defs inline"
    using t by (auto simp: targets_def ab)
  have once: "t' = t" if "mget ?defs t' = Some d" for t'
  proof -
    have "inj_on snd (set ?defs)" using assms(3) by (simp add: distinct_map)
    from inj_onD [OF this _ map_of_SomeD [OF that] map_of_SomeD [OF t(2)]] show ?thesis by simp
  qed
  have apart: "d \<notin> targets ?defs as" "d \<notin> targets ?defs bs"
    using assms(2) once by (auto simp: targets_def ab wf_map_def)
  have a: "?f as h d = h d" "\<And>x. x \<notin> targets ?defs inline \<Longrightarrow> ?f as h x = h x"
    "\<And>x. sc_definitions (?f as h x) = sc_definitions (h x)"
    using inline_steps_facts [of custom h root "targets ?defs inline" as, OF flats(1) subs(1)] apart(1) subs(1) by auto
  let ?b = "inline_step custom root (t, is) (?f as h)"
  have not_own: "\<forall>i \<in> set is. inline_schema custom ?defs t i \<noteq> Some d"
    using flats(3) subs(3) by (auto simp: flat_inline_def)
  have step: "?b = fold (inline_into custom root t d) is (?f as h)"
    by (rule inline_step_Some) (simp only: a(3) t(2))
  have b: "mget (property_list (?b d)) p =
      (case mget (property_list (h d)) p of Some c \<Rightarrow> Some c
       | None \<Rightarrow> first_property h (inline_schema custom ?defs t) is p)"
    "\<And>x. sc_definitions (?b x) = sc_definitions (h x)"
  proof -
    have "first_property (?f as h) (inline_schema custom ?defs t) is p = first_property h (inline_schema custom ?defs t) is p"
      using flats(3) a(2) by (intro first_property_cong) (auto simp: flat_inline_def)
    then show "mget (property_list (?b d)) p =
      (case mget (property_list (h d)) p of Some c \<Rightarrow> Some c
       | None \<Rightarrow> first_property h (inline_schema custom ?defs t) is p)" "\<And>x. sc_definitions (?b x) = sc_definitions (h x)"
      using inline_into_facts [of "is" custom "?f as h" root t d p] not_own t(3) a
      unfolding step by (auto split: option.split)
  qed
  have "?f bs ?b d = ?b d"
    using inline_steps_facts [of custom ?b root "targets ?defs inline" bs] flats(2) subs(2) apart(2) by (simp add: b(2))
  with b(1) show ?thesis by (simp add: ab)
qed

lemma without_properties_kept:
  assumes "sc_properties (h d) = None"
  shows "process_inline custom inline root h d = h d"
proof -
  have one: "merge_inline x r g d = h d" if "g d = h d" for x r g
    using that assms by (cases "x = d") (auto simp: merge_inline_def split: option.split)
  have inner: "fold (inline_into custom root t x) is g d = h d" if "g d = h d" for t x "is" g
    using that
  proof (induction "is" arbitrary: g)
    case (Cons i "is")
    then show ?case using one [of g x] by (simp add: inline_into_def split: option.split)
  qed simp
  have "fold (\<lambda>(t, is) g. case mget (sc_definitions (g root)) t of
        None \<Rightarrow> g | Some x \<Rightarrow> fold (inline_into custom root t x) is g) inline g d = h d" if "g d = h d" for g
    using that
  proof (induction inline arbitrary: g)
    case (Cons e es)
    then show ?case using inner [of g] by (cases e) (simp split: option.split)
  qed simp
  then show ?thesis by (simp add: process_inline_eq)
qed

text \<open>
  C33: what inlining does to a definition \<open>t\<close>. A definition without a list of properties stays
  as it is: nothing is inlined into it. When no inline type of any definition is itself a
  definition that gets properties (\<open>flat_inline\<close>), a definition with properties keeps them
  and gets each further property from the first of its inline types that has one of this
  name, whatever the order in which the definitions are visited. Without that condition the
  result depends on the order, which Go leaves open (\<open>inline_chain_order\<close> below).
\<close>

theorem inlined_properties:
  assumes "wf_map inline" and "distinct (map snd (sc_definitions (h root)))"
    and "mget (sc_definitions (h root)) t = Some d"
  shows "(sc_properties (h d) = None \<longrightarrow> process_inline custom inline root h d = h d) \<and>
    (flat_inline custom (sc_definitions (h root)) (targets (sc_definitions (h root)) inline) inline \<and>
       (t, is) \<in> set inline \<and> sc_properties (h d) \<noteq> None \<longrightarrow>
     mget (property_list (process_inline custom inline root h d)) p =
       (case mget (property_list (h d)) p of Some c \<Rightarrow> Some c
        | None \<Rightarrow> first_property h (inline_schema custom (sc_definitions (h root)) t) is p))"
  using assms without_properties_kept [of h d custom inline root]
    inline_properties_step [of custom h root inline t "is" d p]
  unfolding process_inline_eq inline_step_def by blast

theorem inlined_properties_witness:
  "mget (property_list (process_inline (\<lambda>_ _. None) [(''GlobAttributes'', [''MetadataGlobMap''])] 0 selector_store 1)) ''exe_path'' = Some 4 \<and>
   mget (property_list (process_inline (\<lambda>_ _. None) [(''GlobAttributes'', [''MetadataGlobMap''])] 0 selector_store 1)) ''k8s_namespace'' = Some 5"
proof -
  have flat: "flat_inline (\<lambda>_ _. None) (sc_definitions (selector_store 0)) (targets (sc_definitions (selector_store 0))
      [(''GlobAttributes'', [''MetadataGlobMap''])]) [(''GlobAttributes'', [''MetadataGlobMap''])]"
    by (simp add: flat_inline_def targets_def selector_store_def inline_schema_def)
  have pre: "wf_map [(''GlobAttributes'', [''MetadataGlobMap''])]" "distinct (map snd (sc_definitions (selector_store 0)))"
    "(''GlobAttributes'', [''MetadataGlobMap'']) \<in> set [(''GlobAttributes'', [''MetadataGlobMap''])]"
    "mget (sc_definitions (selector_store 0)) ''GlobAttributes'' = Some 1" "sc_properties (selector_store 1) \<noteq> None"
    by (simp_all add: selector_store_def wf_map_def)
  have inlined: "mget (property_list (process_inline (\<lambda>_ _. None) [(''GlobAttributes'', [''MetadataGlobMap''])] 0 selector_store 1)) p =
      (case mget (property_list (selector_store 1)) p of Some c \<Rightarrow> Some c
       | None \<Rightarrow> first_property selector_store (inline_schema (\<lambda>_ _. None) (sc_definitions (selector_store 0)) ''GlobAttributes'')
                   [''MetadataGlobMap''] p)" for p
    using inlined_properties [of "[(''GlobAttributes'', [''MetadataGlobMap''])]" selector_store 0 "''GlobAttributes''" 1
        "\<lambda>_ _. None" "[''MetadataGlobMap'']" p] flat pre by blast
  show ?thesis
    using inlined [of "''exe_path''"] inlined [of "''k8s_namespace''"]
    by (simp add: selector_store_def property_list_def inline_schema_def empty_schema_def)
qed

text \<open>
  With a chain of inline types the result depends on the order in which the types are visited,
  which Go leaves open.
\<close>

definition chain_store :: store where
  "chain_store = (\<lambda>_. empty_schema)
     (0 := empty_schema\<lparr>sc_definitions := [(''A'', 1), (''B'', 2), (''C'', 3)]\<rparr>,
      1 := empty_schema\<lparr>sc_properties := Some []\<rparr>,
      2 := empty_schema\<lparr>sc_properties := Some []\<rparr>,
      3 := empty_schema\<lparr>sc_properties := Some [(''p'', 4)]\<rparr>)"

lemma inline_chain_order:
  "property_list (process_inline (\<lambda>_ _. None) [(''A'', [''B'']), (''B'', [''C''])] 0 chain_store 1) = [] \<and>
   property_list (process_inline (\<lambda>_ _. None) [(''B'', [''C'']), (''A'', [''B''])] 0 chain_store 1) = [(''p'', 4)]"
  by (simp add: process_inline_def inline_schema_def merge_inline_def add_missing_def chain_store_def property_list_def)

end
