(* ===== verification/Schema_Scan.thy ===== *)
theory Schema_Scan
  imports Schema_Passes
begin

text \<open>
  What the schema generator reads from the sources (cmd/beyla-schema/main.go): enumerations from
  constants, variables and inline fields from struct tags, the place of the vendored module from
  go.mod, and the schemas of types that the reflector cannot process.

  The syntax trees are those of go/ast, with the constructors and fields that the scan looks at;
  parsing files and listing directories are not modelled.
\<close>

subsection \<open>Syntax trees\<close>

datatype expr =
    Ident string
  | SelectorExpr expr string
  | StringLit string
  | OtherLit string
  | CallExpr expr "expr list"
  | OtherExpr

record value_spec =
  vs_names :: "string list"
  vs_type :: "expr option"
  vs_values :: "expr list"

record ast_field =
  af_type :: expr
  af_tag :: "string option"

datatype type_spec = StructSpec string "ast_field list" | OtherTypeSpec

datatype decl = ConstDecl "value_spec list" | TypeDecl "type_spec list" | OtherDecl

text \<open>\<open>ast.IsExported\<close>, for names whose first letter is ASCII.\<close>

definition is_exported :: "string \<Rightarrow> bool" where
  "is_exported s \<longleftrightarrow> (case s of [] \<Rightarrow> False | c # _ \<Rightarrow> CHR ''A'' \<le> c \<and> c \<le> CHR ''Z'')"

fun expr_to_type_name :: "expr \<Rightarrow> string" where
  "expr_to_type_name (Ident n) = n"
| "expr_to_type_name (SelectorExpr e n) = n"
| "expr_to_type_name _ = []"

text \<open>\<open>extractConstValueAndType\<close>: a string literal, or a conversion of one.\<close>

definition const_value_and_type :: "expr \<Rightarrow> string \<Rightarrow> string \<times> string option" where
  "const_value_and_type e inherited =
     (case e of
        StringLit v \<Rightarrow> (inherited, Some (trim_set [CHR 0x22] v))
      | CallExpr f args \<Rightarrow>
          (case args of
             [StringLit v] \<Rightarrow>
               if expr_to_type_name f \<noteq> [] then (expr_to_type_name f, Some (trim_set [CHR 0x22] v)) else ([], None)
           | _ \<Rightarrow> ([], None))
      | _ \<Rightarrow> ([], None))"

record generator =
  g_enums :: "(string, string list) gomap"
  g_env_vars :: registry
  g_inline :: "(string, string list) gomap"

definition new_generator :: generator where
  "new_generator = \<lparr>g_enums = [], g_env_vars = [], g_inline = []\<rparr>"

definition mlist :: "('k, 'v list) gomap \<Rightarrow> 'k \<Rightarrow> 'v list" where
  "mlist m k = (case mget m k of None \<Rightarrow> [] | Some vs \<Rightarrow> vs)"

subsection \<open>Enumerations\<close>

text \<open>The loop over the names of a specification; a name without a value is skipped.\<close>

fun enum_names :: "string \<Rightarrow> string list \<Rightarrow> expr list \<Rightarrow> (string, string list) gomap \<Rightarrow> (string, string list) gomap" where
  "enum_names t [] vs m = m"
| "enum_names t (n # ns) [] m = m"
| "enum_names t (n # ns) (v # vs) m =
     enum_names t ns vs
       (if n = ''_'' \<or> \<not> is_exported n then m
        else case const_value_and_type v t of
               (ty, Some x) \<Rightarrow> if ty \<noteq> [] then mput m ty (mlist m ty @ [x]) else m
             | (ty, None) \<Rightarrow> m)"

text \<open>\<open>extractEnumsFromDecl\<close>: a specification without a type keeps the type of the one before.\<close>

fun extract_enums :: "string \<Rightarrow> value_spec list \<Rightarrow> (string, string list) gomap \<Rightarrow> (string, string list) gomap" where
  "extract_enums current [] m = m"
| "extract_enums current (s # ss) m =
     (let current = (case vs_type s of None \<Rightarrow> current | Some e \<Rightarrow> expr_to_type_name e)
      in extract_enums current ss (enum_names current (vs_names s) (vs_values s) m))"

subsection \<open>Struct tags\<close>

text \<open>\<open>extractTagValue\<close>: the text up to the next quote behind the first \<open>key:"\<close>.\<close>

definition extract_tag_value :: "string \<Rightarrow> string \<Rightarrow> string" where
  "extract_tag_value tag key =
     (let search = key @ CHR '':'' # [CHR 0x22]
      in case index_of tag search of
           None \<Rightarrow> []
         | Some i \<Rightarrow>
             (let rest = drop (i + length search) tag
              in if CHR 0x22 \<in> set rest then takeWhile (\<lambda>c. c \<noteq> CHR 0x22) rest else []))"

definition before_comma :: "string \<Rightarrow> string" where
  "before_comma s = takeWhile (\<lambda>c. c \<noteq> CHR '','') s"

definition extract_env_var :: "string \<Rightarrow> string \<Rightarrow> string \<Rightarrow> registry \<Rightarrow> registry" where
  "extract_env_var t tag yaml g =
     (let env = extract_tag_value tag ''env''
      in if yaml = [] \<or> env = [] then g
         else if \<not> has_prefix (before_comma env) ''${''
           then mput g t (mput (vars_of g t) (before_comma yaml) (before_comma env))
         else g)"

text \<open>\<open>extractStructMetadataFromDecl\<close>.\<close>

definition field_metadata :: "string \<Rightarrow> ast_field \<Rightarrow> generator \<Rightarrow> generator" where
  "field_metadata t f g =
     (case af_tag f of
        None \<Rightarrow> g
      | Some raw \<Rightarrow>
          (let tag = trim_set [CHR 0x60] raw; yaml = extract_tag_value tag ''yaml''
           in if contains yaml ''inline'' \<or> yaml = '',inline''
              then (if expr_to_type_name (af_type f) \<noteq> []
                    then g\<lparr>g_inline := mput (g_inline g) t (mlist (g_inline g) t @ [expr_to_type_name (af_type f)])\<rparr>
                    else g)
              else g\<lparr>g_env_vars := extract_env_var t tag yaml (g_env_vars g)\<rparr>))"

definition struct_metadata :: "type_spec \<Rightarrow> generator \<Rightarrow> generator" where
  "struct_metadata s g =
     (case s of
        OtherTypeSpec \<Rightarrow> g
      | StructSpec t fs \<Rightarrow>
          fold (field_metadata t) fs
            (if mget (g_env_vars g) t = None then g\<lparr>g_env_vars := mput (g_env_vars g) t []\<rparr> else g))"

definition extract_file_metadata :: "decl list \<Rightarrow> generator \<Rightarrow> generator" where
  "extract_file_metadata ds g =
     fold (\<lambda>d g. case d of
             ConstDecl ss \<Rightarrow> g\<lparr>g_enums := extract_enums [] ss (g_enums g)\<rparr>
           | TypeDecl ss \<Rightarrow> fold struct_metadata ss g
           | OtherDecl \<Rightarrow> g) ds g"

text \<open>
  \<open>scanPackages\<close>, after the directories have been listed and the files parsed: the packages with
  their directory entries, each with its name, whether it is a directory, and its declarations.
\<close>

definition scan_packages :: "(string \<times> bool \<times> decl list) list list \<Rightarrow> generator \<Rightarrow> generator" where
  "scan_packages packages g =
     fold (fold (\<lambda>(name, is_dir, ds) g.
        if is_dir \<or> \<not> has_suffix name ''.go'' then g
        else if has_suffix name ''_test.go'' then g
        else extract_file_metadata ds g)) packages g"

subsection \<open>Where the vendored module is\<close>

text \<open>
  \<open>findOBIModuleRoot\<close>: the path of the first replace directive, relative to the directory of
  go.mod; \<open>None\<close> stands for the empty result.
\<close>

fun replace_directive :: "string list \<Rightarrow> string option" where
  "replace_directive [] = None"
| "replace_directive (l # ls) =
     (let trimmed = trim_space l; parts = Prelude.fields trimmed
      in if has_prefix trimmed ''replace go.opentelemetry.io/obi =>'' \<and> length parts \<ge> 4
         then Some (parts ! 3) else replace_directive ls)"

definition find_obi_module_root :: "string option \<Rightarrow> string option" where
  "find_obi_module_root go_mod =
     (case go_mod of None \<Rightarrow> None | Some s \<Rightarrow> replace_directive (split_byte (CHR 0x0A) s))"

text \<open>\<open>filepath.Dir\<close> of a clean path.\<close>

definition file_dir :: "string \<Rightarrow> string" where
  "file_dir p =
     (case last_index_byte p (CHR ''/'') of
        None \<Rightarrow> ''.''
      | Some i \<Rightarrow> if i = 0 then ''/'' else take i p)"

text \<open>\<open>findModuleRoot\<close>, where \<open>has_mod\<close> says which directories hold a go.mod.\<close>

function find_module_root :: "(string \<Rightarrow> bool) \<Rightarrow> string \<Rightarrow> string" where
  "find_module_root has_mod dir =
     (if has_mod dir then dir
      else if file_dir dir = dir then []
      else find_module_root has_mod (file_dir dir))"
  by pat_completeness auto
termination
proof (relation "measure (\<lambda>(f, p). if p = ''.'' then 0 else Suc (length p))")
  fix has_mod :: "string \<Rightarrow> bool" and dir
  assume ne: "file_dir dir \<noteq> dir"
  have "file_dir ''.'' = ''.''" by code_simp
  with ne have dir: "dir \<noteq> ''.''" by metis
  show "((has_mod, file_dir dir), has_mod, dir) \<in> measure (\<lambda>(f, p). if p = ''.'' then 0 else Suc (length p))"
  proof (cases "last_index_byte dir (CHR ''/'')")
    case None
    then show ?thesis using dir by (simp add: file_dir_def)
  next
    case (Some i)
    note i = last_index_byte_Some [OF Some]
    show ?thesis
    proof (cases i)
      case 0
      then have "dir \<noteq> ''/''" using ne Some by (auto simp: file_dir_def)
      with i 0 have "1 < length dir" by (cases dir; cases "tl dir") auto
      then show ?thesis using dir by (simp add: file_dir_def Some 0)
    next
      case (Suc j)
      then show ?thesis using dir i by (auto simp: file_dir_def Some)
    qed
  qed
qed simp

declare find_module_root.simps [simp del]

lemma find_module_root_sound: "find_module_root has_mod dir \<noteq> [] \<Longrightarrow> has_mod (find_module_root has_mod dir)"
proof (induction has_mod dir rule: find_module_root.induct)
  case (1 has_mod dir)
  show ?case
  proof (cases "has_mod dir \<or> file_dir dir = dir")
    case True
    then show ?thesis using "1.prems" by (auto simp: find_module_root.simps [of has_mod dir] split: if_splits)
  next
    case False
    then have "find_module_root has_mod dir = find_module_root has_mod (file_dir dir)"
      by (simp add: find_module_root.simps [of has_mod dir])
    then show ?thesis using 1 False by simp
  qed
qed

text \<open>From the relative directory that \<open>main\<close> starts with, the search does not go up.\<close>

lemma search_from_here: "find_module_root has_mod ''.'' = (if has_mod ''.'' then ''.'' else [])"
proof -
  have "file_dir ''.'' = ''.''" by code_simp
  then show ?thesis by (simp add: find_module_root.simps [of has_mod "''.''"])
qed

subsection \<open>Types the reflector cannot process\<close>

text \<open>
  \<open>customMapper\<close>: what it reads of a type, and the schema it returns; \<open>None\<close> leaves the type to
  the reflector.
\<close>

record go_type =
  gt_name :: string
  gt_has_schema :: bool
  gt_is_func :: bool
  gt_is_duration :: bool

datatype mapped = NullSchema | DurationSchema | EnumSchema "string list"

definition custom_mapper :: "generator \<Rightarrow> go_type \<Rightarrow> mapped option" where
  "custom_mapper g t =
     (if gt_has_schema t then None
      else if gt_is_func t then Some NullSchema
      else if gt_is_duration t then Some DurationSchema
      else case mget (g_enums g) (gt_name t) of
             Some values \<Rightarrow> if length values > 0 then Some (EnumSchema values) else None
           | None \<Rightarrow> None)"

subsection \<open>Tags\<close>

text \<open>The text of a tag with a key for YAML and one for the environment.\<close>

definition tag_text :: "string \<Rightarrow> string \<Rightarrow> string" where
  "tag_text y e = ''yaml:'' @ [CHR 0x22] @ y @ [CHR 0x22] @ '' env:'' @ [CHR 0x22] @ e @ [CHR 0x22]"

definition tag_ok :: "string \<Rightarrow> bool" where
  "tag_ok s \<longleftrightarrow> CHR 0x22 \<notin> set s \<and> CHR '':'' \<notin> set s \<and> CHR 0x60 \<notin> set s"

lemma tag_prefix_value:
  "CHR 0x22 \<notin> set v \<Longrightarrow> extract_tag_value (key @ CHR '':'' # CHR 0x22 # v @ CHR 0x22 # rest) key = v"
proof -
  assume v: "CHR 0x22 \<notin> set v"
  let ?s = "key @ CHR '':'' # [CHR 0x22]"
  have "index_of (?s @ v @ CHR 0x22 # rest) ?s = Some 0"
    by (rule index_of_prefix, rule has_prefix_append)
  moreover have "takeWhile (\<lambda>c. c \<noteq> CHR 0x22) (v @ CHR 0x22 # rest) = v"
    using v by (induction v) auto
  ultimately show ?thesis by (simp add: extract_tag_value_def Let_def)
qed

lemma env_key_after_yaml:
  assumes "tag_ok y"
  shows "index_of (tag_text y e) (''env:'' @ [CHR 0x22]) = Some (8 + length y)"
proof -
  let ?key = "''env:'' @ [CHR 0x22]"
  have no_colon: "index_of (s @ CHR 0x22 # t) ?key = map_option (\<lambda>i. i + length s) (index_of (CHR 0x22 # t) ?key)"
    if "CHR '':'' \<notin> set s" "CHR 0x22 \<notin> set s" for s t
    using that
  proof (induction s)
    case (Cons c s)
    have "\<not> has_prefix (c # s @ CHR 0x22 # t) ?key"
      using Cons.prems by (cases s; cases "tl s"; cases "tl (tl s)") auto
    then show ?case using Cons by (auto simp: option.map_comp comp_def)
  qed (simp add: option.map_ident)
  show ?thesis
    using no_colon [of y "'' env:'' @ [CHR 0x22] @ e @ [CHR 0x22]"] assms by (simp add: tag_text_def tag_ok_def)
qed

lemma tag_text_values:
  assumes "tag_ok y" "tag_ok e"
  shows "extract_tag_value (tag_text y e) ''yaml'' = y" "extract_tag_value (tag_text y e) ''env'' = e"
proof -
  show "extract_tag_value (tag_text y e) ''yaml'' = y"
    using tag_prefix_value [of y "''yaml''" "'' env:'' @ [CHR 0x22] @ e @ [CHR 0x22]"] assms
    by (simp add: tag_text_def tag_ok_def)
  have "tag_text y e = (''yaml:'' @ [CHR 0x22] @ y @ [CHR 0x22] @ '' env:'' @ [CHR 0x22]) @ e @ [CHR 0x22]"
    by (simp add: tag_text_def)
  then have "drop (8 + length y + 5) (tag_text y e) = e @ [CHR 0x22]"
    by (simp only: drop_append) simp
  moreover have "takeWhile (\<lambda>c. c \<noteq> CHR 0x22) (e @ [CHR 0x22]) = e"
    using assms(2) by (induction e) (auto simp: tag_ok_def)
  ultimately show "extract_tag_value (tag_text y e) ''env'' = e"
    using env_key_after_yaml [OF assms(1), of e] by (simp add: extract_tag_value_def Let_def)
qed

lemma trim_tag: "trim_set [CHR 0x60] (CHR 0x60 # tag_text y e @ [CHR 0x60]) = tag_text y e"
  by (simp add: trim_set_def tag_text_def)

lemma vars_of_mput [simp]: "vars_of (mput g t ev) t' = (if t' = t then ev else vars_of g t')"
  by (simp add: vars_of_def)

lemma mlist_mput [simp]: "mlist (mput m k vs) k' = (if k' = k then vs else mlist m k')"
  by (simp add: mlist_def)

text \<open>
  A field with the keys \<open>yaml\<close> and \<open>env\<close> in its tag. If the YAML key speaks of \<open>inline\<close>, its
  type is added to the inline types of the struct; otherwise the name in front of the first
  comma gets the variable in front of the first comma, unless a name or a variable is missing
  or the variable is an expansion. Nothing else changes.
\<close>

lemma tagged_field:
  assumes "tag_ok y" and "tag_ok e" and "expr_to_type_name ty \<noteq> []"
  shows "field_metadata t \<lparr>af_type = ty, af_tag = Some (CHR 0x60 # tag_text y e @ [CHR 0x60])\<rparr> g =
    (if contains y ''inline''
     then g\<lparr>g_inline := mput (g_inline g) t (mlist (g_inline g) t @ [expr_to_type_name ty])\<rparr>
     else if y = [] \<or> e = [] \<or> has_prefix (before_comma e) ''${'' then g
     else g\<lparr>g_env_vars := mput (g_env_vars g) t (mput (vars_of (g_env_vars g) t) (before_comma y) (before_comma e))\<rparr>)"
proof -
  note parts = tag_text_values [OF assms(1,2)]
  have inline: "contains y ''inline'' \<or> y = '',inline'' \<longleftrightarrow> contains y ''inline''"
  proof -
    have "contains '',inline'' ''inline''" by code_simp
    then show ?thesis by blast
  qed
  have env: "extract_env_var t (tag_text y e) y m =
      (if y = [] \<or> e = [] \<or> has_prefix (before_comma e) ''${'' then m
       else mput m t (mput (vars_of m t) (before_comma y) (before_comma e)))" for m
    by (simp add: extract_env_var_def parts)
  show ?thesis
    using assms(3) by (simp add: field_metadata_def trim_tag Let_def parts inline env)
qed

lemma tagged_field_example:
  "vars_of (g_env_vars (field_metadata ''Config'' \<lparr>af_type = Ident ''string'',
     af_tag = Some (CHR 0x60 # tag_text ''log_level,omitempty'' ''BEYLA_LOG_LEVEL,expand'' @ [CHR 0x60])\<rparr> new_generator))
     ''Config'' = [(''log_level'', ''BEYLA_LOG_LEVEL'')]"
proof -
  have "tag_ok ''log_level,omitempty''" "tag_ok ''BEYLA_LOG_LEVEL,expand''" "\<not> contains ''log_level,omitempty'' ''inline''"
    by code_simp+
  then show ?thesis
    using tagged_field [of "''log_level,omitempty''" "''BEYLA_LOG_LEVEL,expand''" "Ident ''string''" "''Config''" new_generator]
    by (simp add: new_generator_def before_comma_def vars_of_def)
qed

subsection \<open>Enumerations of a type\<close>

text \<open>The specification of one string constant with its type.\<close>

definition typed_const :: "string \<times> string \<times> string \<Rightarrow> value_spec" where
  "typed_const = (\<lambda>(n, t, x). \<lparr>vs_names = [n], vs_type = Some (Ident t), vs_values = [StringLit (CHR 0x22 # x @ [CHR 0x22])]\<rparr>)"

definition values_of :: "string \<Rightarrow> (string \<times> string \<times> string) list \<Rightarrow> string list" where
  "values_of t cs = map (snd \<circ> snd) (filter (\<lambda>(n, t', x). is_exported n \<and> t' = t) cs)"

lemma trim_quoted: "CHR 0x22 \<notin> set x \<Longrightarrow> trim_set [CHR 0x22] (CHR 0x22 # x @ [CHR 0x22]) = x"
proof -
  assume x: "CHR 0x22 \<notin> set x"
  have keep: "dropWhile (\<lambda>c. c \<in> set [CHR 0x22]) y = y" if "CHR 0x22 \<notin> set y" for y
    using that by (cases y) auto
  have "dropWhile (\<lambda>c. c \<in> set [CHR 0x22]) (x @ [CHR 0x22]) = (if x = [] then [] else x @ [CHR 0x22])"
    using x by (cases x) auto
  then show ?thesis using x keep [of "rev x"] by (simp add: trim_set_def)
qed

lemma extract_typed_consts:
  "list_all (\<lambda>(n, t', x). t' \<noteq> [] \<and> CHR 0x22 \<notin> set x) cs \<Longrightarrow>
   mlist (extract_enums current (map typed_const cs) m) t = mlist m t @ values_of t cs"
proof (induction cs arbitrary: current m)
  case (Cons c cs)
  obtain n t' x where c: "c = (n, t', x)" by (metis prod.exhaust)
  have "\<not> is_exported ''_''" by code_simp
  then have "enum_names t' [n] [StringLit (CHR 0x22 # x @ [CHR 0x22])] m = (if is_exported n then mput m t' (mlist m t' @ [x]) else m)"
    using Cons.prems trim_quoted [of x] by (auto simp: c const_value_and_type_def)
  then show ?case
    using Cons by (auto simp: c typed_const_def values_of_def)
qed (simp add: values_of_def)

text \<open>
  From a file with a block of string constants, each with its type, the schema of a type
  that the reflector would not handle is the enumeration of the exported constants of this
  type, in their order; without any of them the type is left to the reflector.
\<close>

lemma enumeration_from_constants:
  "list_all (\<lambda>(n, t', x). t' \<noteq> [] \<and> CHR 0x22 \<notin> set x) cs \<Longrightarrow>
   custom_mapper (extract_file_metadata [ConstDecl (map typed_const cs)] new_generator)
     \<lparr>gt_name = t, gt_has_schema = False, gt_is_func = False, gt_is_duration = False\<rparr> =
   (if values_of t cs = [] then None else Some (EnumSchema (values_of t cs)))"
  using extract_typed_consts [of cs "[]" "[]" t]
  by (auto simp: extract_file_metadata_def custom_mapper_def new_generator_def mlist_def split: option.splits)

lemma enumeration_from_constants_example:
  "custom_mapper (extract_file_metadata [ConstDecl (map typed_const
       [(''RunModePrivileged'', ''RunMode'', ''privileged''), (''other'', ''RunMode'', ''hidden''),
        (''RunModeUnprivileged'', ''RunMode'', ''unprivileged'')])] new_generator)
     \<lparr>gt_name = ''RunMode'', gt_has_schema = False, gt_is_func = False, gt_is_duration = False\<rparr> =
   Some (EnumSchema [''privileged'', ''unprivileged''])"
  using enumeration_from_constants [of "[(''RunModePrivileged'', ''RunMode'', ''privileged''), (''other'', ''RunMode'', ''hidden''),
        (''RunModeUnprivileged'', ''RunMode'', ''unprivileged'')]" "''RunMode''"]
  by (simp add: values_of_def is_exported_def less_eq_char_def)

text \<open>
  A constant without a type gets the type of the one before it, also when it has a value of its
  own, for which Go gives it no type.
\<close>

lemma untyped_constant_joins:
  "mlist (extract_enums [] [typed_const (''A'', ''Mode'', ''a''),
      \<lparr>vs_names = [''Prefix''], vs_type = None, vs_values = [StringLit (CHR 0x22 # ''p'' @ [CHR 0x22])]\<rparr>] []) ''Mode'' = [''a'', ''p'']"
  by code_simp

end
