(* ===== verification/Inline_Types.thy ===== *)
theory Inline_Types
  imports Schema_Passes
begin

text \<open>
  How the schema generator finds the inline types that describe themselves
  (\<open>buildInlineTypeSchemas\<close> of cmd/beyla-schema/main.go): a walk over the graph of the types of
  the configuration, by reflection.

  A type is a tree whose leaves are scalars and structs; a struct is named by its package and
  its name, so types may be recursive through structs. The fields of a struct and the question
  whether a type or its pointer has a method \<open>JSONSchema\<close> are those of the program that runs.
\<close>

subsection \<open>Types\<close>

datatype rtype =
    RPtr rtype
  | RSeq string rtype
  | RMap string rtype
  | RStruct string string
  | RScalar string

record rfield =
  rf_type :: rtype
  rf_yaml :: string

type_synonym struct_id = "string \<times> string"

record type_world =
  tw_fields :: "struct_id \<Rightarrow> rfield list"
  tw_has_schema :: "rtype \<Rightarrow> bool"

text \<open>\<open>Name()\<close>: the name without the package, empty for a pointer or a type without a name.\<close>

fun rtype_name :: "rtype \<Rightarrow> string" where
  "rtype_name (RPtr t) = []"
| "rtype_name (RSeq n t) = n"
| "rtype_name (RMap n t) = n"
| "rtype_name (RStruct p n) = n"
| "rtype_name (RScalar n) = n"

fun strip_pointers :: "rtype \<Rightarrow> rtype" where
  "strip_pointers (RPtr t) = strip_pointers t"
| "strip_pointers t = t"

text \<open>The struct in which the walk from a type ends, behind pointers, slices, arrays and maps.\<close>

fun walked_struct :: "rtype \<Rightarrow> struct_id option" where
  "walked_struct (RPtr t) = walked_struct t"
| "walked_struct (RSeq n t) = walked_struct t"
| "walked_struct (RMap n t) = walked_struct t"
| "walked_struct (RStruct p n) = Some (p, n)"
| "walked_struct (RScalar n) = None"

subsection \<open>The walk\<close>

text \<open>
  What one field adds to the result. The code stores a function that calls the method on a
  zero value of the type; here the type stands for it.
\<close>

definition note_inline :: "type_world \<Rightarrow> rfield \<Rightarrow> (string, rtype) gomap \<Rightarrow> (string, rtype) gomap" where
  "note_inline w f res =
     (let t = strip_pointers (rf_type f)
      in if contains (rf_yaml f) ''inline'' \<and> tw_has_schema w t then mput res (rtype_name t) t else res)"

text \<open>
  The loop over the fields of a struct, with the walk into each. The fuel bounds the depth of
  structs; the walk ends before when it has seen every struct (\<open>walk_returns\<close>).
\<close>

fun walk_fields ::
  "type_world \<Rightarrow> nat \<Rightarrow> rfield list \<Rightarrow> struct_id list \<times> (string, rtype) gomap \<Rightarrow>
   (struct_id list \<times> (string, rtype) gomap) option" where
  "walk_fields w k [] st = Some st"
| "walk_fields w k (f # fs) (visited, res) =
     Option.bind
       (case walked_struct (rf_type f) of
          None \<Rightarrow> Some (visited, note_inline w f res)
        | Some s \<Rightarrow>
            if s \<in> set visited then Some (visited, note_inline w f res)
            else (case k of
                    0 \<Rightarrow> None
                  | Suc k \<Rightarrow> walk_fields w k (tw_fields w s) (s # visited, note_inline w f res)))
       (walk_fields w k fs)"

definition build_inline_types :: "type_world \<Rightarrow> nat \<Rightarrow> rtype \<Rightarrow> (string, rtype) gomap option" where
  "build_inline_types w k root =
     (case walked_struct root of
        None \<Rightarrow> Some []
      | Some s \<Rightarrow>
          (case k of 0 \<Rightarrow> None | Suc k \<Rightarrow> map_option snd (walk_fields w k (tw_fields w s) ([s], []))))"

declare walk_fields.simps [simp del]

lemma walk_fields_Nil [simp]: "walk_fields w k [] st = Some st"
  by (simp add: walk_fields.simps)

subsection \<open>The structs of a graph of types\<close>

definition structs_of :: "rfield list \<Rightarrow> struct_id set" where
  "structs_of fs = {s. \<exists>f\<in>set fs. walked_struct (rf_type f) = Some s}"

definition field_edges :: "type_world \<Rightarrow> (struct_id \<times> struct_id) set" where
  "field_edges w = {(x, y). y \<in> structs_of (tw_fields w x)}"

text \<open>A field that makes an inline type of a name.\<close>

definition makes_inline :: "type_world \<Rightarrow> rfield \<Rightarrow> string \<Rightarrow> rtype \<Rightarrow> bool" where
  "makes_inline w f n t \<longleftrightarrow>
     contains (rf_yaml f) ''inline'' \<and> t = strip_pointers (rf_type f) \<and> tw_has_schema w t \<and> n = rtype_name t"

lemma structs_of_simps [simp]:
  "structs_of [] = {}"
  "structs_of (f # fs) = set_option (walked_struct (rf_type f)) \<union> structs_of fs"
  by (auto simp: structs_of_def)

text \<open>One step of the loop, as a fact to eliminate.\<close>

lemma walk_fields_ConsE:
  assumes "walk_fields w k (f # fs) (seen, res) = Some st"
  obtains (leaf) "walked_struct (rf_type f) = None" "walk_fields w k fs (seen, note_inline w f res) = Some st"
  | (again) s where "walked_struct (rf_type f) = Some s" "s \<in> set seen"
      "walk_fields w k fs (seen, note_inline w f res) = Some st"
  | (new) s k' seen1 res1 where "walked_struct (rf_type f) = Some s" "s \<notin> set seen" "k = Suc k'"
      "walk_fields w k' (tw_fields w s) (s # seen, note_inline w f res) = Some (seen1, res1)"
      "walk_fields w k fs (seen1, res1) = Some st"
  using assms
  by (auto simp: walk_fields.simps(2) Option.bind_eq_Some_conv split: option.splits if_splits nat.splits)

subsection \<open>The walk ends\<close>

lemma walk_fields_returns:
  "\<lbrakk>finite U; structs_of fs \<subseteq> U; \<forall>x\<in>U. structs_of (tw_fields w x) \<subseteq> U; card (U - set (fst st)) \<le> k\<rbrakk> \<Longrightarrow>
   \<exists>st'. walk_fields w k fs st = Some st' \<and> set (fst st) \<subseteq> set (fst st')"
proof (induction w k fs st rule: walk_fields.induct)
  case (2 w k f fs seen res)
  let ?r = "note_inline w f res"
  let ?step = "case walked_struct (rf_type f) of
          None \<Rightarrow> Some (seen, ?r)
        | Some s \<Rightarrow>
            if s \<in> set seen then Some (seen, ?r)
            else (case k of
                    0 \<Rightarrow> None
                  | Suc k \<Rightarrow> walk_fields w k (tw_fields w s) (s # seen, ?r))"
  have step: "walk_fields w k (f # fs) (seen, res) = Option.bind ?step (walk_fields w k fs)"
    by (simp add: walk_fields.simps)
  have rest: ?case if "?step = Some (seen', r)" "set seen \<subseteq> set seen'" for seen' r
  proof -
    have "card (U - set seen') \<le> card (U - set seen)"
      using that 2(3) by (intro card_mono) auto
    with 2(6) have "card (U - set (fst (seen', r))) \<le> k" by simp
    moreover have "structs_of fs \<subseteq> U" using 2(4) by simp
    ultimately have "\<exists>st'. walk_fields w k fs (seen', r) = Some st' \<and> set (fst (seen', r)) \<subseteq> set (fst st')"
      using 2(5) by (intro 2(2) [OF that(1) 2(3)])
    with that(2) show ?thesis unfolding step that(1) by auto
  qed
  show ?case
  proof (cases "\<exists>s. walked_struct (rf_type f) = Some s \<and> s \<notin> set seen")
    case False
    then have "?step = Some (seen, ?r)" by (auto split: option.split)
    then show ?thesis by (rule rest) simp
  next
    case True
    then obtain s where s: "walked_struct (rf_type f) = Some s" "s \<notin> set seen" by blast
    with 2(4) have "s \<in> U" by simp
    with s have "U - set (s # seen) \<subset> U - set seen" by auto
    then have less: "card (U - set (s # seen)) < card (U - set seen)"
      using 2(3) by (intro psubset_card_mono) auto
    with 2(6) obtain k' where k: "k = Suc k'" by (cases k) auto
    have "structs_of (tw_fields w s) \<subseteq> U" using 2(5) \<open>s \<in> U\<close> by blast
    moreover have "card (U - set (fst (s # seen, ?r))) \<le> k'" using less 2(6) k by simp
    ultimately obtain st1 where st1: "walk_fields w k' (tw_fields w s) (s # seen, ?r) = Some st1"
        "set (s # seen) \<subseteq> set (fst st1)"
      using 2(1) [OF s k 2(3) _ 2(5)] by auto
    show ?thesis
      by (rule rest [of "fst st1" "snd st1"]) (use st1 s k in auto)
  qed
qed simp

subsection \<open>What the walk sees\<close>

lemma subset_chain:
  "A' \<subseteq> insert s S \<union> A \<Longrightarrow> S' \<subseteq> A' \<union> B \<Longrightarrow> insert s A \<subseteq> C \<Longrightarrow> B \<subseteq> C \<Longrightarrow> S' \<subseteq> S \<union> C"
  by blast

lemma walk_fields_seen:
  "walk_fields w k fs st = Some st' \<Longrightarrow>
   set (fst st) \<subseteq> set (fst st') \<and> structs_of fs \<subseteq> set (fst st') \<and>
   (\<forall>x\<in>set (fst st') - set (fst st). structs_of (tw_fields w x) \<subseteq> set (fst st')) \<and>
   set (fst st') \<subseteq> set (fst st) \<union> (field_edges w)\<^sup>* `` structs_of fs"
proof (induction w k fs st arbitrary: st' rule: walk_fields.induct)
  case (2 w k f fs seen res)
  from 2(3) show ?case
  proof (cases rule: walk_fields_ConsE)
    case leaf
    from 2(2) [OF _ leaf(2)] leaf(1) show ?thesis by auto
  next
    case (again s)
    from 2(2) [OF _ again(3)] again(1,2) show ?thesis by auto
  next
    case (new s k' seen1 res1)
    from 2(1) [OF new(1,2,3,4)]
    have s: "set (s # seen) \<subseteq> set seen1" "structs_of (tw_fields w s) \<subseteq> set seen1"
      "\<forall>x\<in>set seen1 - set (s # seen). structs_of (tw_fields w x) \<subseteq> set seen1"
      "set seen1 \<subseteq> set (s # seen) \<union> (field_edges w)\<^sup>* `` structs_of (tw_fields w s)"
      by simp_all
    have sub: "insert s ((field_edges w)\<^sup>* `` structs_of (tw_fields w s)) \<subseteq> (field_edges w)\<^sup>* `` insert s F" for F
      by (auto simp: field_edges_def intro: converse_rtrancl_into_rtrancl)
    from 2(2) [OF _ new(5)] new(1,2,3,4)
    have r: "set seen1 \<subseteq> set (fst st')" "structs_of fs \<subseteq> set (fst st')"
      "\<forall>x\<in>set (fst st') - set seen1. structs_of (tw_fields w x) \<subseteq> set (fst st')"
      "set (fst st') \<subseteq> set seen1 \<union> (field_edges w)\<^sup>* `` structs_of fs"
      by simp_all
    have closed: "structs_of (tw_fields w x) \<subseteq> set (fst st')" if "x \<in> set (fst st') - set seen" for x
    proof (cases "x \<in> set seen1")
      case True
      then have "structs_of (tw_fields w x) \<subseteq> set seen1" using that s(2,3) by (cases "x = s") auto
      then show ?thesis using r(1) by blast
    qed (use that r(3) in blast)
    have bound: "set (fst st') \<subseteq> set seen \<union> (field_edges w)\<^sup>* `` insert s (structs_of fs)"
    proof -
      have "(field_edges w)\<^sup>* `` structs_of fs \<subseteq> (field_edges w)\<^sup>* `` insert s (structs_of fs)" by (intro Image_mono) auto
      with s(4) r(4) sub [of "structs_of fs"] show ?thesis unfolding list.set by (rule subset_chain)
    qed
    show ?thesis using s(1) r(1,2) new(1) closed bound by auto
  qed
qed simp

text \<open>The entries of the result come from the fields that the walk has looked at.\<close>

lemma mget_note_inline:
  "mget (note_inline w f res) n =
     (if \<exists>t. makes_inline w f n t then Some (strip_pointers (rf_type f)) else mget res n)"
  by (auto simp: note_inline_def makes_inline_def Let_def)

definition looked_at :: "type_world \<Rightarrow> rfield list \<Rightarrow> struct_id set \<Rightarrow> rfield set" where
  "looked_at w fs new = set fs \<union> (\<Union>x\<in>new. set (tw_fields w x))"

lemma walk_fields_result:
  "walk_fields w k fs st = Some st' \<Longrightarrow>
   (mget (snd st') n \<noteq> None \<longleftrightarrow>
      mget (snd st) n \<noteq> None \<or> (\<exists>f\<in>looked_at w fs (set (fst st') - set (fst st)). \<exists>t. makes_inline w f n t)) \<and>
   (\<forall>t. mget (snd st') n = Some t \<longrightarrow>
      mget (snd st) n = Some t \<or> (\<exists>f\<in>looked_at w fs (set (fst st') - set (fst st)). makes_inline w f n t))"
proof (induction w k fs st arbitrary: st' rule: walk_fields.induct)
  case (2 w k f fs seen res)
  from 2(3) show ?case
  proof (cases rule: walk_fields_ConsE)
    case leaf
    from 2(2) [OF _ leaf(2)] leaf(1) show ?thesis
      by (auto simp: mget_note_inline looked_at_def makes_inline_def split: if_splits)
  next
    case (again s)
    from 2(2) [OF _ again(3)] again(1,2) show ?thesis
      by (auto simp: mget_note_inline looked_at_def makes_inline_def split: if_splits)
  next
    case (new s k' seen1 res1)
    note one = 2(1) [OF new(1,2,3,4)]
    have two: "(mget (snd st') n \<noteq> None \<longleftrightarrow>
        mget res1 n \<noteq> None \<or> (\<exists>f\<in>looked_at w fs (set (fst st') - set seen1). \<exists>t. makes_inline w f n t)) \<and>
       (\<forall>t. mget (snd st') n = Some t \<longrightarrow>
        mget res1 n = Some t \<or> (\<exists>f\<in>looked_at w fs (set (fst st') - set seen1). makes_inline w f n t))"
      using 2(2) [OF _ new(5)] new(1,2,3,4) by simp
    have seen: "set (s # seen) \<subseteq> set seen1" "set seen1 \<subseteq> set (fst st')"
      using walk_fields_seen [OF new(4)] walk_fields_seen [OF new(5)] by simp_all
    then have "set (fst st') - set seen = insert s (set seen1 - set (s # seen)) \<union> (set (fst st') - set seen1)"
      using new(2) by auto
    then have "looked_at w (f # fs) (set (fst st') - set seen) =
        insert f (looked_at w (tw_fields w s) (set seen1 - set (s # seen)) \<union> looked_at w fs (set (fst st') - set seen1))"
      by (auto simp: looked_at_def)
    with one two show ?thesis
      by (auto simp: mget_note_inline makes_inline_def split: if_splits)
  qed
qed (simp add: looked_at_def)

subsection \<open>The result\<close>

lemma closed_reachable:
  assumes "x \<in> U" and "\<forall>x\<in>U. structs_of (tw_fields w x) \<subseteq> U"
  shows "(field_edges w)\<^sup>* `` {x} \<subseteq> U"
proof -
  have "y \<in> U" if "(x, y) \<in> (field_edges w)\<^sup>*" for y
    using that assms by (induction rule: rtrancl_induct) (auto simp: field_edges_def)
  then show ?thesis by blast
qed

lemma build_inline_types_returns:
  assumes "walked_struct root = Some s" and "finite U" and "s \<in> U"
    and "\<forall>x\<in>U. structs_of (tw_fields w x) \<subseteq> U" and "card U \<le> k"
  shows "\<exists>k' seen res. k = Suc k' \<and> walk_fields w k' (tw_fields w s) ([s], []) = Some (seen, res) \<and>
    build_inline_types w k root = Some res"
proof -
  have "card (U - {s}) < card U" using assms(2,3) by (intro psubset_card_mono) auto
  with assms(5) obtain k' where k: "k = Suc k'" "card (U - set (fst ([s], [] :: (string, rtype) gomap))) \<le> k'" by (cases k) auto
  have "structs_of (tw_fields w s) \<subseteq> U" using assms(3,4) by blast
  then obtain seen res where walk: "walk_fields w k' (tw_fields w s) ([s], []) = Some (seen, res)"
    using walk_fields_returns [OF assms(2) _ assms(4) k(2), of "tw_fields w s"] by auto
  then show ?thesis by (simp add: build_inline_types_def assms(1) k)
qed

text \<open>
  C34: the search for inline types ends, also on recursive types, with a depth of structs below
  the number of structs, and finds exactly the names of the inline fields with a schema of
  their own in all structs that the root type reaches; under each name it returns the type
  of such a field, also when several types in different packages share the name.
\<close>

theorem inline_types_found:
  assumes "walked_struct root = Some s" and "finite U" and "s \<in> U"
    and "\<forall>x\<in>U. structs_of (tw_fields w x) \<subseteq> U" and "card U \<le> k"
  shows "\<exists>res. build_inline_types w k root = Some res \<and>
    (\<forall>n. mget res n \<noteq> None \<longleftrightarrow>
       (\<exists>x f t. (s, x) \<in> (field_edges w)\<^sup>* \<and> f \<in> set (tw_fields w x) \<and> makes_inline w f n t)) \<and>
    (\<forall>n t. mget res n = Some t \<longrightarrow>
       (\<exists>x f. (s, x) \<in> (field_edges w)\<^sup>* \<and> f \<in> set (tw_fields w x) \<and> makes_inline w f n t))"
proof -
  obtain k' seen res where k: "k = Suc k'" and walk: "walk_fields w k' (tw_fields w s) ([s], []) = Some (seen, res)"
      and built: "build_inline_types w k root = Some res"
    using build_inline_types_returns [OF assms] by blast
  note seen = walk_fields_seen [OF walk]
  have "set seen = (field_edges w)\<^sup>* `` {s}"
  proof
    show "(field_edges w)\<^sup>* `` {s} \<subseteq> set seen"
      by (rule closed_reachable) (use seen in auto)
    show "set seen \<subseteq> (field_edges w)\<^sup>* `` {s}"
      using seen by (auto simp: field_edges_def intro: converse_rtrancl_into_rtrancl)
  qed
  moreover have "looked_at w (tw_fields w s) (set seen - {s}) = (\<Union>x\<in>set seen. set (tw_fields w x))"
    using seen by (auto simp: looked_at_def)
  ultimately have fields: "f \<in> looked_at w (tw_fields w s) (set seen - {s}) \<longleftrightarrow>
      (\<exists>x. (s, x) \<in> (field_edges w)\<^sup>* \<and> f \<in> set (tw_fields w x))" for f
    by auto
  note built
  moreover have "(mget res n \<noteq> None \<longleftrightarrow>
       (\<exists>x f t. (s, x) \<in> (field_edges w)\<^sup>* \<and> f \<in> set (tw_fields w x) \<and> makes_inline w f n t)) \<and>
    (\<forall>t. mget res n = Some t \<longrightarrow>
       (\<exists>x f. (s, x) \<in> (field_edges w)\<^sup>* \<and> f \<in> set (tw_fields w x) \<and> makes_inline w f n t))" for n
    using walk_fields_result [OF walk, of n] by (auto simp: fields Bex_def) blast+
  ultimately show ?thesis by blast
qed

text \<open>Part of the configuration: the selectors of the discovery, with two inline types.\<close>

definition sample_types :: type_world where
  "sample_types =
     \<lparr>tw_fields = (\<lambda>s.
        if s = (''beyla'', ''Config'') then
          [\<lparr>rf_type = RStruct ''services'' ''DiscoveryConfig'', rf_yaml = ''discovery''\<rparr>,
           \<lparr>rf_type = RScalar ''int'', rf_yaml = ''channel_buffer_len''\<rparr>]
        else if s = (''services'', ''DiscoveryConfig'') then
          [\<lparr>rf_type = RSeq ''GlobDefinitionCriteria'' (RStruct ''services'' ''GlobAttributes''), rf_yaml = ''instrument''\<rparr>]
        else if s = (''services'', ''GlobAttributes'') then
          [\<lparr>rf_type = RMap ''MetadataGlobMap'' (RPtr (RStruct ''services'' ''GlobAttr'')), rf_yaml = '',inline''\<rparr>,
           \<lparr>rf_type = RPtr (RStruct ''services'' ''SamplerConfig''), rf_yaml = ''sampler''\<rparr>]
        else []),
      tw_has_schema = (\<lambda>t. rtype_name t = ''MetadataGlobMap'')\<rparr>"

theorem inline_types_found_witness:
  "\<exists>res. build_inline_types sample_types 9 (RStruct ''beyla'' ''Config'') = Some res \<and> mget res ''MetadataGlobMap'' \<noteq> None"
proof -
  let ?U = "{(''beyla'', ''Config''), (''services'', ''DiscoveryConfig''), (''services'', ''GlobAttributes''),
    (''services'', ''GlobAttr''), (''services'', ''SamplerConfig'')}"
  have closed: "\<forall>x\<in>?U. structs_of (tw_fields sample_types x) \<subseteq> ?U"
    by (simp add: sample_types_def)
  have edges: "((''beyla'', ''Config''), (''services'', ''DiscoveryConfig'')) \<in> field_edges sample_types"
    "((''services'', ''DiscoveryConfig''), (''services'', ''GlobAttributes'')) \<in> field_edges sample_types"
    by (simp_all add: field_edges_def sample_types_def)
  let ?f = "\<lparr>rf_type = RMap ''MetadataGlobMap'' (RPtr (RStruct ''services'' ''GlobAttr'')), rf_yaml = '',inline''\<rparr>"
  have "contains '',inline'' ''inline''" by code_simp
  then have "?f \<in> set (tw_fields sample_types (''services'', ''GlobAttributes''))"
    "makes_inline sample_types ?f ''MetadataGlobMap'' (rf_type ?f)"
    by (simp_all add: sample_types_def makes_inline_def)
  moreover have "((''beyla'', ''Config''), (''services'', ''GlobAttributes'')) \<in> (field_edges sample_types)\<^sup>*"
    using edges by (meson r_into_rtrancl rtrancl_into_rtrancl)
  ultimately show ?thesis
    using inline_types_found [of "RStruct ''beyla'' ''Config''", OF _ _ _ closed, of "(''beyla'', ''Config'')" 9] by auto blast
qed

text \<open>
  The result has one entry for a name: of two inline types with the same name in different
  packages only the last one keeps its properties.
\<close>

lemma inline_names_collide:
  "build_inline_types
     \<lparr>tw_fields = (\<lambda>s. if s = (''beyla'', ''Config'') then
          [\<lparr>rf_type = RStruct ''a'' ''Extra'', rf_yaml = '',inline''\<rparr>, \<lparr>rf_type = RStruct ''b'' ''Extra'', rf_yaml = '',inline''\<rparr>]
        else []), tw_has_schema = (\<lambda>t. True)\<rparr> 3 (RStruct ''beyla'' ''Config'') =
   Some [(''Extra'', RStruct ''b'' ''Extra'')]"
  by code_simp

end
