(* ===== verification/Schema_Main.thy ===== *)
theory Schema_Main
  imports Schema_Scan Inline_Types
begin

text \<open>
  The schema generator as a program (\<open>main\<close> of cmd/beyla-schema/main.go): the module roots, the
  scan of the packages, the passes on the schema that the reflector has made, and the output.
  The file system, the parser, the reflector and the encoder are arguments.
\<close>

subsection \<open>Paths\<close>

text \<open>\<open>filepath.Clean\<close>, on the segments of a path, and \<open>filepath.Join\<close> of two elements.\<close>

definition clean_step :: "bool \<Rightarrow> string list \<Rightarrow> string \<Rightarrow> string list" where
  "clean_step rooted out seg =
     (if seg = [] \<or> seg = ''.'' then out
      else if seg = ''..''
        then (if out \<noteq> [] \<and> List.last out \<noteq> ''..'' then butlast out else if rooted then out else out @ [''..''])
      else out @ [seg])"

definition clean_segments :: "bool \<Rightarrow> string list \<Rightarrow> string list" where
  "clean_segments rooted segs = foldl (clean_step rooted) [] segs"

definition clean_path :: "string \<Rightarrow> string" where
  "clean_path p =
     (let rooted = p \<noteq> [] \<and> hd p = CHR ''/'';
          text = join ''/'' (clean_segments rooted (split_byte (CHR ''/'') p))
      in if rooted then CHR ''/'' # text else if text = [] then ''.'' else text)"

definition path_join :: "string \<Rightarrow> string \<Rightarrow> string" where
  "path_join a b =
     (if a \<noteq> [] then clean_path (join ''/'' [a, b]) else if b \<noteq> [] then clean_path b else [])"

text \<open>A clean list of segments: leading \<open>..\<close> in a relative path only, then names.\<close>

definition path_name :: "string \<Rightarrow> bool" where
  "path_name s \<longleftrightarrow> s \<noteq> [] \<and> s \<noteq> ''.'' \<and> s \<noteq> ''..'' \<and> CHR ''/'' \<notin> set s"

definition clean_list :: "bool \<Rightarrow> string list \<Rightarrow> bool" where
  "clean_list rooted out \<longleftrightarrow>
     (\<exists>n names. out = replicate n ''..'' @ names \<and> (rooted \<longrightarrow> n = 0) \<and> (\<forall>s\<in>set names. path_name s))"

lemma clean_list_step:
  assumes "clean_list rooted out" and "CHR ''/'' \<notin> set seg"
  shows "clean_list rooted (clean_step rooted out seg)"
proof -
  from assms(1) obtain n names where out: "out = replicate n ''..'' @ names" "rooted \<longrightarrow> n = 0"
      "\<forall>s\<in>set names. path_name s"
    by (auto simp: clean_list_def)
  consider (skip) "seg = [] \<or> seg = ''.''" | (up) "seg = ''..''" | (name) "path_name seg"
    using assms(2) by (auto simp: path_name_def)
  then show ?thesis
  proof cases
    case skip
    then show ?thesis using assms(1) by (simp add: clean_step_def)
  next
    case name
    then have "clean_step rooted out seg = replicate n ''..'' @ (names @ [seg])"
      by (simp add: clean_step_def path_name_def out(1))
    then show ?thesis using out(2,3) name unfolding clean_list_def by (metis UnE empty_iff insert_iff list.set set_append)
  next
    case up
    show ?thesis
    proof (cases names rule: rev_cases)
      case Nil
      then have "List.last out = ''..''" if "n \<noteq> 0" using out that by simp
      then have "clean_step rooted out seg = replicate (if rooted then 0 else Suc n) ''..'' @ []"
        using up out Nil by (auto simp: clean_step_def replicate_append_same)
      then show ?thesis unfolding clean_list_def by (metis empty_iff empty_set)
    next
      case (snoc ns s)
      then have "clean_step rooted out seg = replicate n ''..'' @ ns"
        using up out by (simp add: clean_step_def path_name_def butlast_append)
      then show ?thesis using out(2,3) snoc unfolding clean_list_def by auto
    qed
  qed
qed

lemma clean_segments_clean: "\<forall>s\<in>set segs. CHR ''/'' \<notin> set s \<Longrightarrow> clean_list rooted (clean_segments rooted segs)"
proof -
  have "clean_list rooted out \<Longrightarrow> \<forall>s\<in>set segs. CHR ''/'' \<notin> set s \<Longrightarrow> clean_list rooted (foldl (clean_step rooted) out segs)" for out
    by (induction segs arbitrary: out) (simp_all add: clean_list_step)
  moreover have "clean_list rooted []" by (auto simp: clean_list_def intro: exI [of _ 0])
  ultimately show "\<forall>s\<in>set segs. CHR ''/'' \<notin> set s \<Longrightarrow> ?thesis" by (simp add: clean_segments_def)
qed

lemma clean_segments_idem:
  assumes "clean_list rooted out"
  shows "clean_segments rooted out = out"
proof -
  from assms obtain n names where out: "out = replicate n ''..'' @ names" "rooted \<longrightarrow> n = 0"
      "\<forall>s\<in>set names. path_name s"
    by (auto simp: clean_list_def)
  have ups: "foldl (clean_step rooted) (replicate m ''..'') (replicate n ''..'') = replicate (m + n) ''..''" if "rooted \<longrightarrow> n = 0" for m
    using that
  proof (induction n arbitrary: m)
    case (Suc n)
    have "clean_step rooted (replicate m ''..'') ''..'' = replicate (Suc m) ''..''"
      using Suc.prems by (cases m) (simp_all add: clean_step_def replicate_append_same)
    then show ?case using Suc.IH [of "Suc m"] Suc.prems by simp
  qed simp
  have names: "foldl (clean_step rooted) o1 names = o1 @ names" for o1
    using out(3) by (induction names arbitrary: o1) (simp_all add: clean_step_def path_name_def)
  show ?thesis using ups [of 0] out(2) names by (simp add: clean_segments_def out(1))
qed

lemma split_byte_no_sep: "\<forall>s\<in>set (split_byte b t). b \<notin> set s"
proof (induction t)
  case (Cons c t)
  obtain w ws where w: "split_byte b t = w # ws"
    using split_byte_nonempty [of b t] by (meson neq_Nil_conv)
  show ?case using Cons.IH by (simp add: w)
qed simp

lemma clean_segments_start [simp]:
  "clean_segments rooted ([] # segs) = clean_segments rooted segs" "clean_segments rooted [''.''] = []"
  by (simp_all add: clean_segments_def clean_step_def)

lemma clean_list_plain:
  assumes "clean_list rooted out"
  shows "\<forall>s\<in>set out. CHR ''/'' \<notin> set s \<and> s \<noteq> []"
proof -
  from assms obtain n names where out: "out = replicate n ''..'' @ names" "\<forall>s\<in>set names. path_name s"
    by (auto simp: clean_list_def)
  have "CHR ''/'' \<notin> set ''..''" by simp
  with out show ?thesis by (simp add: path_name_def ball_Un set_replicate_conv_if)
qed

text \<open>A clean path is clean.\<close>

lemma clean_path_idem: "clean_path (clean_path p) = clean_path p"
proof -
  let ?rooted = "p \<noteq> [] \<and> hd p = CHR ''/''"
  define segs where "segs = clean_segments ?rooted (split_byte (CHR ''/'') p)"
  have clean: "clean_list ?rooted segs"
    unfolding segs_def by (rule clean_segments_clean) (rule split_byte_no_sep)
  note plain = clean_list_plain [OF clean]
  have path: "clean_path p = (if ?rooted then CHR ''/'' # join ''/'' segs else if join ''/'' segs = [] then ''.'' else join ''/'' segs)"
    by (simp add: clean_path_def segs_def Let_def)
  have again: "clean_segments ?rooted (split_byte (CHR ''/'') (join ''/'' segs)) = segs"
  proof (cases "segs = []")
    case True
    then show ?thesis by (simp add: clean_segments_def clean_step_def)
  next
    case False
    then show ?thesis using split_byte_join [of segs "CHR ''/''"] plain clean_segments_idem [OF clean] by simp
  qed
  have head: "join ''/'' segs \<noteq> [] \<Longrightarrow> hd (join ''/'' segs) \<noteq> CHR ''/''"
    using plain by (induction "''/''" segs rule: join.induct) (auto simp: neq_Nil_conv)
  consider (rooted) "?rooted" | (here) "\<not> ?rooted" "join ''/'' segs = []" | (relative) "\<not> ?rooted" "join ''/'' segs \<noteq> []"
    by blast
  then show ?thesis
  proof cases
    case rooted
    then show ?thesis using path again by (simp add: clean_path_def Let_def)
  next
    case here
    have "clean_path ''.'' = ''.''" by code_simp
    moreover have "clean_path p = ''.''" using here path by auto
    ultimately show ?thesis by simp
  next
    case relative
    then have path: "clean_path p = join ''/'' segs" using path by auto
    have "clean_path (join ''/'' segs) = join ''/'' segs"
      using relative(2) head again relative(1) by (subst clean_path_def) (auto simp: Let_def)
    with path show ?thesis by simp
  qed
qed

subsection \<open>The packages\<close>

definition obi_packages :: "string list" where
  "obi_packages =
     [''pkg/obi'', ''pkg/config'', ''pkg/export'', ''pkg/export/debug'', ''pkg/export/imetrics'', ''pkg/export/instrumentations'',
      ''pkg/export/otel/otelcfg'', ''pkg/export/otel'', ''pkg/export/otel/perapp'', ''pkg/export/prom'',
      ''pkg/kube/kubeflags'', ''pkg/transform'', ''pkg/filter'', ''pkg/appolly/services'', ''pkg/appolly/meta'',
      ''pkg/internal/pipe/geoip'', ''pkg/internal/pipe/rdns'']"

definition beyla_packages :: "string list" where
  "beyla_packages =
     [''pkg/beyla'', ''pkg/export/otel'', ''pkg/export/otel/spanscfg'', ''pkg/internal/infraolly/process'', ''pkg/services'']"

datatype scan_failure = PackageUnreadable string | FileUnparsable string

text \<open>
  \<open>scanPackages\<close> with its failures, each of which ends the program. A directory entry is a name
  and whether it is a directory.
\<close>

primrec scan_entries ::
  "(string \<Rightarrow> string + decl list) \<Rightarrow> string \<Rightarrow> (string \<times> bool) list \<Rightarrow> generator \<Rightarrow> scan_failure + generator" where
  "scan_entries parse dir [] g = Inr g"
| "scan_entries parse dir (e # es) g =
     (if snd e \<or> \<not> has_suffix (fst e) ''.go'' then scan_entries parse dir es g
      else if has_suffix (fst e) ''_test.go'' then scan_entries parse dir es g
      else case parse (path_join dir (fst e)) of
             Inl x \<Rightarrow> Inl (FileUnparsable (path_join dir (fst e)))
           | Inr ds \<Rightarrow> scan_entries parse dir es (extract_file_metadata ds g))"

primrec scan_dirs ::
  "(string \<Rightarrow> string + (string \<times> bool) list) \<Rightarrow> (string \<Rightarrow> string + decl list) \<Rightarrow> string \<Rightarrow> string list \<Rightarrow>
   generator \<Rightarrow> scan_failure + generator" where
  "scan_dirs read_dir parse module_root [] g = Inr g"
| "scan_dirs read_dir parse module_root (pkg # pkgs) g =
     (case read_dir (path_join module_root pkg) of
        Inl x \<Rightarrow> Inl (PackageUnreadable pkg)
      | Inr es \<Rightarrow>
          (case scan_entries parse (path_join module_root pkg) es g of
             Inl e \<Rightarrow> Inl e
           | Inr g \<Rightarrow> scan_dirs read_dir parse module_root pkgs g))"

text \<open>When nothing fails, the scan is that of the files of all packages, tests left out.\<close>

definition parsed :: "(string \<Rightarrow> string + decl list) \<Rightarrow> string \<Rightarrow> string \<times> bool \<Rightarrow> string \<times> bool \<times> decl list" where
  "parsed parse dir e = (fst e, snd e, case parse (path_join dir (fst e)) of Inr ds \<Rightarrow> ds | Inl x \<Rightarrow> [])"

lemma scan_packages_Cons: "scan_packages (p # ps) g = scan_packages ps (scan_packages [p] g)"
  by (simp add: scan_packages_def)

lemma scan_entries_scan:
  "scan_entries parse dir es g = Inr g' \<Longrightarrow> g' = scan_packages [map (parsed parse dir) es] g"
  by (induction es arbitrary: g) (auto simp: scan_packages_def parsed_def split: if_splits sum.splits)

lemma scan_dirs_scan:
  "scan_dirs read_dir parse module_root pkgs g = Inr g' \<Longrightarrow>
   g' = scan_packages (map (\<lambda>pkg. case read_dir (path_join module_root pkg) of
          Inr es \<Rightarrow> map (parsed parse (path_join module_root pkg)) es | Inl x \<Rightarrow> []) pkgs) g"
proof (induction pkgs arbitrary: g)
  case (Cons pkg pkgs)
  then obtain es g1 where es: "read_dir (path_join module_root pkg) = Inr es"
      "scan_entries parse (path_join module_root pkg) es g = Inr g1" "scan_dirs read_dir parse module_root pkgs g1 = Inr g'"
    by (auto split: sum.splits)
  show ?case
    using Cons.IH [OF es(3)] scan_entries_scan [OF es(2)] unfolding list.map es(1) sum.case
    by (subst scan_packages_Cons) simp
qed (simp add: scan_packages_def)

subsection \<open>The text of the output\<close>

text \<open>\<open>strings.ReplaceAll\<close> for a text that is not empty.\<close>

function replace_all :: "string \<Rightarrow> string \<Rightarrow> string \<Rightarrow> string" where
  "replace_all old new [] = []"
| "replace_all old new (c # s) =
     (if old \<noteq> [] \<and> has_prefix (c # s) old then new @ replace_all old new (drop (length old) (c # s))
      else c # replace_all old new s)"
  by pat_completeness auto
termination
  by (relation "measure (\<lambda>(old, new, s). length s)") (auto simp: neq_Nil_conv)

definition html_unescape :: "string \<Rightarrow> string" where
  "html_unescape data =
     (let data = replace_all (CHR 0x5C # ''u003c'') ''<'' data;
          data = replace_all (CHR 0x5C # ''u003e'') ''>'' data
      in replace_all (CHR 0x5C # ''u0026'') ''&'' data)"

lemma replace_all_absent:
  assumes "b \<in> set old" and "b \<notin> set s"
  shows "replace_all old new s = s"
  using assms(2)
proof (induction s)
  case (Cons c s)
  have "\<not> has_prefix (c # s) old"
  proof
    assume "has_prefix (c # s) old"
    then obtain t where "c # s = old @ t" using has_prefix_iff by blast
    then have "b \<in> set (c # s)" using assms(1) by (metis Un_iff set_append)
    with Cons.prems show False by simp
  qed
  then show ?case using Cons by simp
qed simp

text \<open>
  The encoder does not escape HTML any more, so a text without a backslash is not changed; a
  text with a backslash in front of such a code becomes invalid: JSON writes it as two
  backslashes, of which one is taken away with the code.
\<close>

lemma html_unescape_plain: "CHR 0x5C \<notin> set s \<Longrightarrow> html_unescape s = s"
  by (simp add: html_unescape_def replace_all_absent [where b = "CHR 0x5C"])

lemma html_unescape_breaks:
  "html_unescape ([CHR 0x22, CHR 0x5C, CHR 0x5C] @ ''u003c'' @ [CHR 0x22]) = [CHR 0x22, CHR 0x5C, CHR ''<'', CHR 0x22]"
  by code_simp

subsection \<open>The program\<close>

text \<open>
  \<open>call_schema\<close> is what the method \<open>JSONSchema\<close> of an inline type returns for one parent; the
  reflector returns the root of its schema, with title and description set, and the store.
\<close>

record schema_host =
  sh_has_mod :: "string \<Rightarrow> bool"
  sh_read :: "string \<Rightarrow> string option"
  sh_read_dir :: "string \<Rightarrow> string + (string \<times> bool) list"
  sh_parse :: "string \<Rightarrow> string + decl list"
  sh_reflect :: "(go_type \<Rightarrow> mapped option) \<Rightarrow> ref \<times> store"
  sh_types :: type_world
  sh_config :: rtype
  sh_call_schema :: "string \<Rightarrow> rtype \<Rightarrow> ref option"
  sh_encode :: "ref \<Rightarrow> store \<Rightarrow> string + string"
  sh_write :: "string \<Rightarrow> string \<Rightarrow> string option"

datatype schema_end =
    NoBeylaRoot | NoObiRoot | ScanFailed scan_failure | EncodeFailed string | SchemaWriteFailed string
  | SchemaWritten string string | SchemaPrinted string

text \<open>The steps up to the passes: the roots and what the scan finds.\<close>

definition scan_modules :: "schema_host \<Rightarrow> schema_end + generator" where
  "scan_modules s =
     (let beyla_root = find_module_root (sh_has_mod s) ''.''
      in if beyla_root = [] then Inl NoBeylaRoot
         else (case find_obi_module_root (sh_read s (path_join beyla_root ''go.mod'')) of
                 None \<Rightarrow> Inl NoObiRoot
               | Some rel \<Rightarrow>
                   (case scan_dirs (sh_read_dir s) (sh_parse s) (path_join beyla_root rel) obi_packages new_generator of
                      Inl e \<Rightarrow> Inl (ScanFailed e)
                    | Inr g \<Rightarrow>
                        (case scan_dirs (sh_read_dir s) (sh_parse s) beyla_root beyla_packages g of
                           Inl e \<Rightarrow> Inl (ScanFailed e)
                         | Inr g \<Rightarrow> Inr g))))"

definition write_schema :: "schema_host \<Rightarrow> string \<Rightarrow> ref \<Rightarrow> store \<Rightarrow> schema_end" where
  "write_schema s out root h =
     (case sh_encode s root h of
        Inl e \<Rightarrow> EncodeFailed e
      | Inr buf \<Rightarrow>
          (let data = html_unescape buf
           in if out \<noteq> []
              then (case sh_write s out data of Some e \<Rightarrow> SchemaWriteFailed e | None \<Rightarrow> SchemaWritten out data)
              else SchemaPrinted data))"

text \<open>\<open>main\<close>; \<open>None\<close> stands for a walk that has run out of fuel.\<close>

definition schema_main :: "nat \<Rightarrow> schema_host \<Rightarrow> string \<Rightarrow> schema_end option" where
  "schema_main k s out =
     (case scan_modules s of
        Inl e \<Rightarrow> Some e
      | Inr g \<Rightarrow>
          (let (root, h) = sh_reflect s (custom_mapper g)
           in Option.bind (build_inline_types (sh_types s) k (sh_config s)) (\<lambda>types.
              map_option (write_schema s out root)
                (publish k (\<lambda>t i. Option.bind (mget types i) (sh_call_schema s t)) (g_inline g) (g_env_vars g) root h))))"

text \<open>The packages are read below the directory of the program, the library where go.mod says.\<close>

lemma packages_here: "map (path_join ''.'') beyla_packages = beyla_packages"
  by code_simp

lemma library_root: "path_join ''.'' ''./.obi-src'' = ''.obi-src''"
  by code_simp

text \<open>With enough fuel for the types and for the schema, the program comes to an end.\<close>

lemma schema_main_returns:
  assumes "walked_struct (sh_config s) = Some c" and "finite U" and "c \<in> U"
    and "\<forall>x\<in>U. structs_of (tw_fields (sh_types s) x) \<subseteq> U" and "card U \<le> k"
    and "\<And>g root h types. scan_modules s = Inr g \<Longrightarrow> sh_reflect s (custom_mapper g) = (root, h) \<Longrightarrow>
      (\<forall>x. distinct_properties (h x)) \<and>
      (\<exists>rk. ranked rk (process_inline (\<lambda>t i. Option.bind (mget types i) (sh_call_schema s t)) (g_inline g) root h) \<and>
        Suc (rk root) < k)"
  shows "\<exists>e. schema_main k s out = Some e"
proof (cases "scan_modules s")
  case (Inr g)
  obtain root h where h: "sh_reflect s (custom_mapper g) = (root, h)" by fastforce
  obtain types where types: "build_inline_types (sh_types s) k (sh_config s) = Some types"
    using build_inline_types_returns [OF assms(1-5)] by blast
  from assms(6) [OF Inr h, of types] show ?thesis
    using publish_facts by (fastforce simp: schema_main_def Inr h types)
qed (simp add: schema_main_def)

end
