(* ===== verification/Config_Convert.thy ===== *)
theory Config_Convert
  imports Prelude
begin

text \<open>
  Converting a configuration of one library into that of the other by reflection
  (pkg/helpers/config/convert.go).

  The Go types and values that the conversion meets are trees here. There are booleans, integers
  with a width, strings, pointers and structs; a type literal of any other kind is opaque and
  equal to itself only. Floating-point and interface types and the conversion between strings
  and slices of bytes or runes are left out. A pointer is the value it points to, as the
  conversion never looks at the identity of a pointer.

  \<open>conv_now\<close> decides for a value whether its conversion panics, \<open>conv_ok\<close> for the types and hints
  whether it does for no value.
\<close>

subsection \<open>Types and values\<close>

datatype scalar = BoolKind | IntKind bool nat | StringKind

datatype gtype =
    TScalar scalar
  | TOpaque string
  | TPtr gtype
  | TStruct "gfield list"
  | TNamed string gtype
and gfield = GField string bool string gtype

datatype gval = VBool bool | VInt int | VStr string | VOpaque nat | VPtr "gval option" | VStruct "(string \<times> gval) list"

definition int_fits :: "bool \<Rightarrow> nat \<Rightarrow> int \<Rightarrow> bool" where
  "int_fits sg w i \<longleftrightarrow> (if sg then - (2 ^ (w - 1)) \<le> i \<and> i < 2 ^ (w - 1) else 0 \<le> i \<and> i < 2 ^ w)"

fun scalar_typed :: "gval \<Rightarrow> scalar \<Rightarrow> bool" where
  "scalar_typed (VBool b) BoolKind = True"
| "scalar_typed (VInt i) (IntKind sg w) = int_fits sg w i"
| "scalar_typed (VStr s) StringKind = True"
| "scalar_typed _ _ = False"

fun typed :: "gval \<Rightarrow> gtype \<Rightarrow> bool" and typed_fields :: "(string \<times> gval) list \<Rightarrow> gfield list \<Rightarrow> bool" where
  "typed v (TNamed n t) = typed v t"
| "typed v (TScalar k) = scalar_typed v k"
| "typed v (TOpaque n) = (case v of VOpaque k \<Rightarrow> True | _ \<Rightarrow> False)"
| "typed v (TPtr t) = (case v of VPtr None \<Rightarrow> True | VPtr (Some x) \<Rightarrow> typed x t | _ \<Rightarrow> False)"
| "typed v (TStruct fs) = (case v of VStruct vs \<Rightarrow> typed_fields vs fs | _ \<Rightarrow> False)"
| "typed_fields [] [] = True"
| "typed_fields ((n, v) # vs) (GField n' e g t # fs) = (n = n' \<and> typed v t \<and> typed_fields vs fs)"
| "typed_fields _ _ = False"

fun zero_value :: "gtype \<Rightarrow> gval" and zero_fields :: "gfield list \<Rightarrow> (string \<times> gval) list" where
  "zero_value (TNamed n t) = zero_value t"
| "zero_value (TScalar BoolKind) = VBool False"
| "zero_value (TScalar (IntKind sg w)) = VInt 0"
| "zero_value (TScalar StringKind) = VStr []"
| "zero_value (TOpaque n) = VOpaque 0"
| "zero_value (TPtr t) = VPtr None"
| "zero_value (TStruct fs) = VStruct (zero_fields fs)"
| "zero_fields [] = []"
| "zero_fields (GField n e g t # fs) = (n, zero_value t) # zero_fields fs"

fun underlying :: "gtype \<Rightarrow> gtype" where
  "underlying (TNamed n t) = underlying t"
| "underlying t = t"

text \<open>The predeclared types have names; tags are part of a struct type.\<close>

fun has_name :: "gtype \<Rightarrow> bool" where
  "has_name (TNamed n t) = True"
| "has_name (TScalar k) = True"
| "has_name _ = False"

fun untag :: "gtype \<Rightarrow> gtype" and untag_fields :: "gfield list \<Rightarrow> gfield list" where
  "untag (TPtr t) = TPtr (untag t)"
| "untag (TStruct fs) = TStruct (untag_fields fs)"
| "untag t = t"
| "untag_fields [] = []"
| "untag_fields (GField n e g t # fs) = GField n e [] (untag t) # untag_fields fs"

subsection \<open>What the language assigns and converts\<close>

text \<open>\<open>AssignableTo\<close> and \<open>ConvertibleTo\<close> of package reflect.\<close>

definition assignable :: "gtype \<Rightarrow> gtype \<Rightarrow> bool" where
  "assignable s d \<longleftrightarrow> s = d \<or> (\<not> has_name s \<or> \<not> has_name d) \<and> underlying s = underlying d"

definition int_kind :: "gtype \<Rightarrow> bool" where
  "int_kind t \<longleftrightarrow> (case underlying t of TScalar k \<Rightarrow> (case k of IntKind sg w \<Rightarrow> True | _ \<Rightarrow> False) | _ \<Rightarrow> False)"

definition pointers_convertible :: "gtype \<Rightarrow> gtype \<Rightarrow> bool" where
  "pointers_convertible s d \<longleftrightarrow>
     (case s of
        TPtr s1 \<Rightarrow> (case d of TPtr d1 \<Rightarrow> untag (underlying s1) = untag (underlying d1) | _ \<Rightarrow> False)
      | _ \<Rightarrow> False)"

definition convertible :: "gtype \<Rightarrow> gtype \<Rightarrow> bool" where
  "convertible s d \<longleftrightarrow>
     int_kind s \<and> (int_kind d \<or> underlying d = TScalar StringKind) \<or>
     untag (underlying s) = untag (underlying d) \<or>
     pointers_convertible s d"

definition wrap_int :: "bool \<Rightarrow> nat \<Rightarrow> int \<Rightarrow> int" where
  "wrap_int sg w i = (if sg then (i + 2 ^ (w - 1)) mod 2 ^ w - 2 ^ (w - 1) else i mod 2 ^ w)"

text \<open>The UTF-8 encoding of a code point; of another number that of the replacement character.\<close>

definition utf8 :: "int \<Rightarrow> string" where
  "utf8 i =
     (let b = (\<lambda>n :: int. char_of (nat n)) in
      if 0 \<le> i \<and> i < 0x80 then [b i]
      else if 0x80 \<le> i \<and> i < 0x800 then [b (0xC0 + i div 64), b (0x80 + i mod 64)]
      else if 0x10000 \<le> i \<and> i \<le> 0x10FFFF
        then [b (0xF0 + i div 262144), b (0x80 + i div 4096 mod 64), b (0x80 + i div 64 mod 64), b (0x80 + i mod 64)]
      else if 0x800 \<le> i \<and> i < 0x10000 \<and> \<not> (0xD800 \<le> i \<and> i < 0xE000)
        then [b (0xE0 + i div 4096), b (0x80 + i div 64 mod 64), b (0x80 + i mod 64)]
      else [CHR 0xEF, CHR 0xBF, CHR 0xBD])"

definition convert_value :: "gval \<Rightarrow> gtype \<Rightarrow> gval" where
  "convert_value v d =
     (case (v, underlying d) of
        (VInt i, TScalar (IntKind sg w)) \<Rightarrow> VInt (wrap_int sg w i)
      | (VInt i, TScalar StringKind) \<Rightarrow> VStr (utf8 i)
      | _ \<Rightarrow> v)"

subsection \<open>The conversion\<close>

definition skip_conversion :: string where
  "skip_conversion = ''(skip)''"

datatype convert_panic =
    DestinationNotPointer string
  | DestinationNil string
  | SourceNil string
  | CannotConvert string gtype gtype
  | NoSourceField string string

text \<open>\<open>structFieldValues\<close>: the exported field of a name.\<close>

fun source_field :: "gfield list \<Rightarrow> (string \<times> gval) list \<Rightarrow> string \<Rightarrow> (gtype \<times> gval) option" where
  "source_field (GField n e g t # fs) ((m, v) # vs) x = (if e \<and> n = x then Some (t, v) else source_field fs vs x)"
| "source_field _ _ x = None"

lemma source_field_size: "source_field fs vs x = Some (t, v) \<Longrightarrow> size t < size_list size fs"
  by (induction fs vs x rule: source_field.induct) (auto split: if_splits)

lemma underlying_size: "size (underlying t) \<le> size t"
  by (induction t rule: underlying.induct) auto

lemma underlying_smaller:
  "TPtr u = underlying t \<Longrightarrow> size u < size t"
  "TStruct fs = underlying t \<Longrightarrow> size_list size fs < size t"
proof -
  show "TPtr u = underlying t \<Longrightarrow> size u < size t"
    using underlying_size [of t] by (drule_tac arg_cong [where f = size]) simp
  show "TStruct fs = underlying t \<Longrightarrow> size_list size fs < size t"
    using underlying_size [of t] by (drule_tac arg_cong [where f = size]) simp
qed

text \<open>
  \<open>handleFieldConversion\<close>, which returns the new value of the destination, and the loop of
  \<open>convertStruct\<close> over the fields of the destination. Each round writes its own field; Go goes
  through them in any order, which decides only which panic is the first.
\<close>

function (sequential) handle_field ::
    "strmap \<Rightarrow> string \<Rightarrow> gtype \<Rightarrow> gval \<Rightarrow> gtype \<Rightarrow> gval \<Rightarrow> convert_panic + gval"
  and convert_fields ::
    "strmap \<Rightarrow> string \<Rightarrow> gfield list \<Rightarrow> (string \<times> gval) list \<Rightarrow> gfield list \<Rightarrow> (string \<times> gval) list \<Rightarrow>
     convert_panic + (string \<times> gval) list" where
  "handle_field h p s v d dv =
     (if assignable s d then Inr v
      else if convertible s d then Inr (convert_value v d)
      else case (underlying s, v, underlying d, dv) of
        (TStruct fs, VStruct vs, TStruct ds, VStruct dvs) \<Rightarrow>
          and_then (convert_fields h p fs vs ds dvs) (\<lambda>dvs'. Inr (VStruct dvs'))
      | (TPtr s1, VPtr x, TPtr d1, VPtr y) \<Rightarrow>
          (case x of
             None \<Rightarrow> Inr dv
           | Some v1 \<Rightarrow>
               (let cur = (case y of None \<Rightarrow> zero_value d1 | Some c \<Rightarrow> c)
                in case (underlying s1, v1) of
                     (TPtr s2, VPtr None) \<Rightarrow> Inl (SourceNil p)
                   | (TPtr s2, VPtr (Some v2)) \<Rightarrow> and_then (handle_field h p s2 v2 d1 cur) (\<lambda>r. Inr (VPtr (Some r)))
                   | _ \<Rightarrow> and_then (handle_field h p s1 v1 d1 cur) (\<lambda>r. Inr (VPtr (Some r)))))
      | _ \<Rightarrow> Inl (CannotConvert p s d))"
| "convert_fields h p fs vs (GField n e g t # ds) ((m, dv) # dvs) =
     (if \<not> e then and_then (convert_fields h p fs vs ds dvs) (\<lambda>r. Inr ((m, dv) # r))
      else
        (let name = (case mget h (p @ n) of Some x \<Rightarrow> x | None \<Rightarrow> n)
         in case source_field fs vs name of
              Some (st, sv) \<Rightarrow>
                and_then (handle_field h (p @ n @ ''.'') st sv t dv) (\<lambda>x.
                and_then (convert_fields h p fs vs ds dvs) (\<lambda>r. Inr ((m, x) # r)))
            | None \<Rightarrow>
                if name \<noteq> skip_conversion then Inl (NoSourceField (p @ n) name)
                else and_then (convert_fields h p fs vs ds dvs) (\<lambda>r. Inr ((m, dv) # r))))"
| "convert_fields h p fs vs ds dvs = Inr dvs"
  by pat_completeness auto
termination
  apply (relation "measures [\<lambda>x. case x of Inl (h, p, s, v, d, dv) \<Rightarrow> size s | Inr (h, p, fs, vs, ds, dvs) \<Rightarrow> size_list size fs,
    \<lambda>x. case x of Inl _ \<Rightarrow> 0 | Inr (h, p, fs, vs, ds, dvs) \<Rightarrow> length ds]")
  by (auto dest: underlying_smaller source_field_size intro: less_trans)

declare handle_field.simps [simp del]

text \<open>\<open>convert\<close> and \<open>Convert\<close>: the arguments with their types.\<close>

definition convert :: "strmap \<Rightarrow> string \<Rightarrow> gtype \<Rightarrow> gval \<Rightarrow> gtype \<Rightarrow> gval \<Rightarrow> convert_panic + gval" where
  "convert h p s v d dv =
     (case (underlying d, dv) of
        (TPtr d1, VPtr None) \<Rightarrow> Inl (DestinationNil p)
      | (TPtr d1, VPtr (Some cur)) \<Rightarrow>
          (case (underlying s, v) of
             (TPtr s1, VPtr None) \<Rightarrow> Inl (SourceNil p)
           | (TPtr s1, VPtr (Some x)) \<Rightarrow> and_then (handle_field h p s1 x d1 cur) (\<lambda>r. Inr (VPtr (Some r)))
           | _ \<Rightarrow> and_then (handle_field h p s v d1 cur) (\<lambda>r. Inr (VPtr (Some r))))
      | _ \<Rightarrow> Inl (DestinationNotPointer p))"

definition convert_config :: "strmap \<Rightarrow> gtype \<Rightarrow> gval \<Rightarrow> gtype \<Rightarrow> gval \<Rightarrow> convert_panic + gval" where
  "convert_config h s v d dv = convert h ''.'' s v d dv"

subsection \<open>When it succeeds\<close>

text \<open>The types of a field of the source, and what the types alone say of a conversion.\<close>

fun source_type :: "gfield list \<Rightarrow> string \<Rightarrow> gtype option" where
  "source_type [] x = None"
| "source_type (GField n e g t # fs) x = (if e \<and> n = x then Some t else source_type fs x)"

lemma source_type_size: "source_type fs x = Some t \<Longrightarrow> size t < size_list size fs"
  by (induction fs x rule: source_type.induct) (auto split: if_splits)

definition is_pointer :: "gtype \<Rightarrow> bool" where
  "is_pointer t \<longleftrightarrow> (case underlying t of TPtr u \<Rightarrow> True | _ \<Rightarrow> False)"

function (sequential) conv_ok :: "strmap \<Rightarrow> string \<Rightarrow> gtype \<Rightarrow> gtype \<Rightarrow> bool"
  and conv_ok_fields :: "strmap \<Rightarrow> string \<Rightarrow> gfield list \<Rightarrow> gfield list \<Rightarrow> bool" where
  "conv_ok h p s d \<longleftrightarrow>
     assignable s d \<or> convertible s d \<or>
     (case (underlying s, underlying d) of
        (TStruct fs, TStruct ds) \<Rightarrow> conv_ok_fields h p fs ds
      | (TPtr s1, TPtr d1) \<Rightarrow> \<not> is_pointer s1 \<and> conv_ok h p s1 d1
      | _ \<Rightarrow> False)"
| "conv_ok_fields h p fs [] \<longleftrightarrow> True"
| "conv_ok_fields h p fs (GField n e g t # ds) \<longleftrightarrow>
     (e \<longrightarrow>
       (let name = (case mget h (p @ n) of Some x \<Rightarrow> x | None \<Rightarrow> n)
        in case source_type fs name of
             Some st \<Rightarrow> conv_ok h (p @ n @ ''.'') st t
           | None \<Rightarrow> name = skip_conversion)) \<and>
     conv_ok_fields h p fs ds"
  by pat_completeness auto
termination
  apply (relation "measures [\<lambda>x. case x of Inl (h, p, s, d) \<Rightarrow> size s | Inr (h, p, fs, ds) \<Rightarrow> size_list size fs,
    \<lambda>x. case x of Inl _ \<Rightarrow> 0 | Inr (h, p, fs, ds) \<Rightarrow> length ds]")
  by (auto dest: underlying_smaller source_type_size)

declare conv_ok.simps [simp del]

text \<open>
  What the types and a value of the source say: a mismatch behind a nil pointer does not count,
  and a pointer to a nil pointer does.
\<close>

function (sequential) conv_now :: "strmap \<Rightarrow> string \<Rightarrow> gtype \<Rightarrow> gval \<Rightarrow> gtype \<Rightarrow> bool"
  and conv_now_fields :: "strmap \<Rightarrow> string \<Rightarrow> gfield list \<Rightarrow> (string \<times> gval) list \<Rightarrow> gfield list \<Rightarrow> bool" where
  "conv_now h p s v d \<longleftrightarrow>
     assignable s d \<or> convertible s d \<or>
     (case (underlying s, v, underlying d) of
        (TStruct fs, VStruct vs, TStruct ds) \<Rightarrow> conv_now_fields h p fs vs ds
      | (TPtr s1, VPtr None, TPtr d1) \<Rightarrow> True
      | (TPtr s1, VPtr (Some x), TPtr d1) \<Rightarrow>
          (case (underlying s1, x) of
             (TPtr s2, VPtr None) \<Rightarrow> False
           | (TPtr s2, VPtr (Some y)) \<Rightarrow> conv_now h p s2 y d1
           | _ \<Rightarrow> conv_now h p s1 x d1)
      | _ \<Rightarrow> False)"
| "conv_now_fields h p fs vs [] \<longleftrightarrow> True"
| "conv_now_fields h p fs vs (GField n e g t # ds) \<longleftrightarrow>
     (e \<longrightarrow>
       (let name = (case mget h (p @ n) of Some x \<Rightarrow> x | None \<Rightarrow> n)
        in case source_field fs vs name of
             Some (st, sv) \<Rightarrow> conv_now h (p @ n @ ''.'') st sv t
           | None \<Rightarrow> name = skip_conversion)) \<and>
     conv_now_fields h p fs vs ds"
  by pat_completeness auto
termination
  apply (relation "measures [\<lambda>x. case x of Inl (h, p, s, v, d) \<Rightarrow> size s | Inr (h, p, fs, vs, ds) \<Rightarrow> size_list size fs,
    \<lambda>x. case x of Inl _ \<Rightarrow> 0 | Inr (h, p, fs, vs, ds) \<Rightarrow> length ds]")
  by (auto dest: underlying_smaller source_field_size intro: less_trans)

declare conv_now.simps [simp del]

lemma typed_underlying [simp]: "typed v (underlying t) = typed v t"
  by (induction t rule: underlying.induct) simp_all

lemma no_fields: "\<not> typed_fields [] (untag_fields (f # fs))"
  by (cases f) simp

lemma convert_value_cases:
  "convert_value v d = v \<or>
   (\<exists>sg w i. underlying d = TScalar (IntKind sg w) \<and> convert_value v d = VInt (wrap_int sg w i)) \<or>
   (underlying d = TScalar StringKind \<and> (\<exists>x. convert_value v d = VStr x))"
proof (cases "\<exists>i k. v = VInt i \<and> underlying d = TScalar k")
  case True
  then obtain i k where "v = VInt i" "underlying d = TScalar k" by blast
  then show ?thesis by (cases k) (auto simp: convert_value_def)
next
  case False
  then have "convert_value v d = v"
    by (cases v; cases "underlying d") (simp_all add: convert_value_def)
  then show ?thesis ..
qed

lemma typed_untag:
  "typed v (untag t) = typed v t"
  "typed_fields vs (untag_fields fs) = typed_fields vs fs"
proof (induction v t and vs fs rule: typed_typed_fields.induct)
  case (4 v t)
  then show ?case by (auto split: gval.splits option.splits)
next
  case (5 v fs)
  then show ?case by (auto split: gval.splits)
qed (auto split: gval.splits simp: no_fields)

lemma untag_typed: "untag s = untag d \<Longrightarrow> typed v s = typed v d"
  by (metis typed_untag(1))

lemma zero_typed: "typed (zero_value t) t" "typed_fields (zero_fields fs) fs"
  by (induction t and fs rule: zero_value_zero_fields.induct) (auto simp: int_fits_def)

lemma assignable_typed: "assignable s d \<Longrightarrow> typed v s \<Longrightarrow> typed v d"
  by (metis assignable_def typed_underlying)

lemma wrap_int_fits: "int_fits sg w (wrap_int sg w i)"
proof (cases sg)
  case True
  have "(i + 2 ^ (w - 1)) mod 2 ^ w < 2 ^ w" by simp
  moreover have "2 ^ w \<le> 2 * (2 :: int) ^ (w - 1)" by (cases w) auto
  ultimately have "(i + 2 ^ (w - 1)) mod 2 ^ w - 2 ^ (w - 1) < 2 ^ (w - 1)" by linarith
  then show ?thesis by (simp add: True int_fits_def wrap_int_def)
qed (simp add: int_fits_def wrap_int_def)

lemma int_kindE: "int_kind t \<Longrightarrow> \<exists>sg w. underlying t = TScalar (IntKind sg w)"
  by (auto simp: int_kind_def split: gtype.splits scalar.splits)

lemma pointers_convertibleE:
  "pointers_convertible s d \<Longrightarrow> \<exists>s1 d1. s = TPtr s1 \<and> d = TPtr d1 \<and> untag (underlying s1) = untag (underlying d1)"
  by (auto simp: pointers_convertible_def split: gtype.splits)

lemma convertible_typed:
  assumes "convertible s d" "typed v s"
  shows "typed (convert_value v d) d"
proof -
  have v: "typed v (underlying s)" using assms(2) by simp
  have goal: "typed (convert_value v d) (underlying d) \<Longrightarrow> ?thesis" by simp
  consider (int) sg w sg' w' where "underlying s = TScalar (IntKind sg w)" "underlying d = TScalar (IntKind sg' w')"
    | (str) sg w where "underlying s = TScalar (IntKind sg w)" "underlying d = TScalar StringKind"
    | (same) "untag (underlying s) = untag (underlying d)"
    | (ptr) s1 d1 where "s = TPtr s1" "d = TPtr d1" "untag (underlying s1) = untag (underlying d1)"
    using assms(1) int_kindE pointers_convertibleE unfolding convertible_def by metis
  then show ?thesis
  proof cases
    case int
    then obtain i where "v = VInt i" using v by (cases v) auto
    then have "typed (convert_value v d) (underlying d)"
      using int wrap_int_fits by (simp add: convert_value_def)
    then show ?thesis by simp
  next
    case str
    then obtain i where "v = VInt i" using v by (cases v) auto
    then have "typed (convert_value v d) (underlying d)"
      using str by (simp add: convert_value_def)
    then show ?thesis by simp
  next
    case same
    have d: "typed v (underlying d)" using v untag_typed [OF same, of v] by simp
    have "typed (convert_value v d) (underlying d)"
      using convert_value_cases [of v d] d wrap_int_fits by (elim disjE exE conjE) simp_all
    then show ?thesis by simp
  next
    case ptr
    have "typed x s1 = typed x d1" for x
      using untag_typed [OF ptr(3), of x] by simp
    then show ?thesis
      using assms(2) by (auto simp: ptr convert_value_def split: gval.splits option.splits)
  qed
qed

lemma typed_structE:
  assumes "typed v t" "underlying t = TStruct fs"
  obtains vs where "v = VStruct vs" "typed_fields vs fs"
proof -
  have "typed v (TStruct fs)" using assms typed_underlying [of v t] by simp
  then show ?thesis using that by (auto split: gval.splits)
qed

lemma typed_ptrE:
  assumes "typed v t" "underlying t = TPtr u"
  obtains "v = VPtr None" | x where "v = VPtr (Some x)" "typed x u"
proof -
  have "typed v (TPtr u)" using assms typed_underlying [of v t] by simp
  then show ?thesis using that by (auto split: gval.splits option.splits)
qed

lemma typed_structI: "underlying t = TStruct fs \<Longrightarrow> typed (VStruct vs) t = typed_fields vs fs"
  using typed_underlying [of "VStruct vs" t] by simp

lemma typed_ptrI: "underlying t = TPtr u \<Longrightarrow> typed (VPtr x) t = (case x of None \<Rightarrow> True | Some y \<Rightarrow> typed y u)"
  using typed_underlying [of "VPtr x" t] by (simp split: option.split)

lemma source_field_type:
  "typed_fields vs fs \<Longrightarrow>
   (source_type fs x = None \<longrightarrow> source_field fs vs x = None) \<and>
   (\<forall>t. source_type fs x = Some t \<longrightarrow> (\<exists>v. source_field fs vs x = Some (t, v) \<and> typed v t))"
proof (induction fs arbitrary: vs)
  case (Cons f fs)
  obtain n e g t where f: "f = GField n e g t" by (cases f)
  with Cons.prems obtain v vs' where vs: "vs = (n, v) # vs'" "typed v t" "typed_fields vs' fs"
    by (cases vs) auto
  show ?case using Cons.IH [OF vs(3)] vs by (auto simp: f)
qed simp

lemma convert_fields_step:
  "convert_fields h p fs vs (GField n e g t # ds) ((m, dv) # dvs) =
     and_then (if e
        then (case source_field fs vs (case mget h (p @ n) of Some x \<Rightarrow> x | None \<Rightarrow> n) of
                Some (st, sv) \<Rightarrow> handle_field h (p @ n @ ''.'') st sv t dv
              | None \<Rightarrow>
                  if (case mget h (p @ n) of Some x \<Rightarrow> x | None \<Rightarrow> n) \<noteq> skip_conversion
                  then Inl (NoSourceField (p @ n) (case mget h (p @ n) of Some x \<Rightarrow> x | None \<Rightarrow> n)) else Inr dv)
        else Inr dv)
      (\<lambda>x. and_then (convert_fields h p fs vs ds dvs) (\<lambda>r. Inr ((m, x) # r)))"
  by (simp add: Let_def split: option.split)

lemma handle_struct:
  assumes "\<not> assignable s d" "\<not> convertible s d" "underlying s = TStruct fs" "underlying d = TStruct ds"
  shows "handle_field h p s (VStruct vs) d (VStruct dvs) =
    and_then (convert_fields h p fs vs ds dvs) (\<lambda>r. Inr (VStruct r))"
  using assms by (simp add: handle_field.simps [of h p s])

lemma handle_pointer:
  assumes "\<not> assignable s d" "\<not> convertible s d" "underlying s = TPtr s1" "underlying d = TPtr d1"
  shows "handle_field h p s (VPtr None) d dv = (case dv of VPtr y \<Rightarrow> Inr dv | _ \<Rightarrow> Inl (CannotConvert p s d))"
    "\<not> is_pointer s1 \<Longrightarrow> handle_field h p s (VPtr (Some x)) d (VPtr y) =
      and_then (handle_field h p s1 x d1 (case y of None \<Rightarrow> zero_value d1 | Some c \<Rightarrow> c)) (\<lambda>r. Inr (VPtr (Some r)))"
  using assms by (auto simp: handle_field.simps [of h p s] is_pointer_def Let_def split: gtype.splits gval.splits)

lemma handle_pointer_to_pointer:
  assumes "\<not> assignable s d" "\<not> convertible s d" "underlying s = TPtr s1" "underlying d = TPtr d1" "underlying s1 = TPtr s2"
  shows "handle_field h p s (VPtr (Some (VPtr None))) d (VPtr y) = Inl (SourceNil p)"
    "handle_field h p s (VPtr (Some (VPtr (Some x)))) d (VPtr y) =
      and_then (handle_field h p s2 x d1 (case y of None \<Rightarrow> zero_value d1 | Some c \<Rightarrow> c)) (\<lambda>r. Inr (VPtr (Some r)))"
  using assms by (simp_all add: handle_field.simps [of h p s] Let_def)

lemma handle_other:
  assumes "\<not> assignable s d" "\<not> convertible s d"
    and "\<nexists>fs ds. underlying s = TStruct fs \<and> underlying d = TStruct ds"
    and "\<nexists>s1 d1. underlying s = TPtr s1 \<and> underlying d = TPtr d1"
  shows "\<exists>e. handle_field h p s v d dv = Inl e" "\<not> conv_now h p s v d"
proof -
  show "\<exists>e. handle_field h p s v d dv = Inl e"
    using assms by (cases "underlying s"; cases "underlying d") (simp_all add: handle_field.simps [of h p s] split: gval.split)
  show "\<not> conv_now h p s v d"
    using assms by (cases "underlying s"; cases "underlying d") (simp_all add: conv_now.simps [of h p s v d] split: gval.split option.split)
qed

text \<open>The conversion of a value does what \<open>conv_now\<close> says.\<close>

abbreviation outcome :: "bool \<Rightarrow> ('b \<Rightarrow> bool) \<Rightarrow> 'a + 'b \<Rightarrow> bool" where
  "outcome ok good r \<equiv> (case r of Inl e \<Rightarrow> \<not> ok | Inr x \<Rightarrow> ok \<and> good x)"

lemma convert_fields_outcome:
  assumes "\<And>st sv t dv h p. size st < size_list size fs \<Longrightarrow> typed sv st \<Longrightarrow> typed dv t \<Longrightarrow>
      outcome (conv_now h p st sv t) (\<lambda>r. typed r t) (handle_field h p st sv t dv)"
    and "typed_fields vs fs"
  shows "typed_fields dvs ds \<Longrightarrow>
    outcome (conv_now_fields h p fs vs ds) (\<lambda>r. typed_fields r ds) (convert_fields h p fs vs ds dvs)"
proof (induction ds arbitrary: dvs)
  case Nil
  then show ?case by (cases dvs) auto
next
  case (Cons f ds)
  obtain n e g t where f: "f = GField n e g t" by (cases f)
  with Cons.prems obtain dv dvs' where dvs: "dvs = (n, dv) # dvs'" "typed dv t" "typed_fields dvs' ds"
    by (cases dvs) auto
  let ?name = "case mget h (p @ n) of Some x \<Rightarrow> x | None \<Rightarrow> n"
  let ?first = "if e
        then (case source_field fs vs ?name of
                Some (st, sv) \<Rightarrow> handle_field h (p @ n @ ''.'') st sv t dv
              | None \<Rightarrow> if ?name \<noteq> skip_conversion then Inl (NoSourceField (p @ n) ?name) else Inr dv)
        else Inr dv"
  let ?now = "e \<longrightarrow> (case source_field fs vs ?name of
             Some (st, sv) \<Rightarrow> conv_now h (p @ n @ ''.'') st sv t | None \<Rightarrow> ?name = skip_conversion)"
  have first: "outcome ?now (\<lambda>x. typed x t) ?first"
  proof (cases "e \<and> source_field fs vs ?name \<noteq> None")
    case True
    then obtain st sv where sv: "source_field fs vs ?name = Some (st, sv)" by auto
    have "typed sv st"
      using source_field_type [OF assms(2), of ?name] sv by (cases "source_type fs ?name") auto
    from assms(1) [OF source_field_size [OF sv] this dvs(2), of h "p @ n @ ''.''"] True sv show ?thesis
      by (cases "handle_field h (p @ n @ ''.'') st sv t dv") auto
  next
    case False
    then have "e \<Longrightarrow> source_field fs vs ?name = None" by (cases "source_field fs vs ?name") auto
    then show ?thesis using dvs(2) by (cases e; cases "?name = skip_conversion") simp_all
  qed
  have now: "conv_now_fields h p fs vs (GField n e g t # ds) \<longleftrightarrow> ?now \<and> conv_now_fields h p fs vs ds"
    by (simp add: Let_def)
  show ?case
    unfolding f dvs(1) convert_fields_step now using first Cons.IH [OF dvs(3)]
    by (cases ?first; cases "convert_fields h p fs vs ds dvs'") (auto simp: and_then_def)
qed

lemma handle_field_outcome:
  "typed v s \<Longrightarrow> typed dv d \<Longrightarrow> outcome (conv_now h p s v d) (\<lambda>r. typed r d) (handle_field h p s v d dv)"
proof (induction s arbitrary: h p v d dv rule: measure_induct_rule [where f = size])
  case (less s)
  show ?case
  proof (cases "assignable s d \<or> convertible s d")
    case True
    then show ?thesis
      using less.prems assignable_typed convertible_typed
      by (auto simp: handle_field.simps [of h p s] conv_now.simps [of h p s])
  next
    case False
    then have not: "\<not> assignable s d" "\<not> convertible s d" by simp_all
    consider (str) fs ds where "underlying s = TStruct fs" "underlying d = TStruct ds"
      | (ptr) s1 d1 where "underlying s = TPtr s1" "underlying d = TPtr d1"
      | (other) "\<nexists>fs ds. underlying s = TStruct fs \<and> underlying d = TStruct ds"
          "\<nexists>s1 d1. underlying s = TPtr s1 \<and> underlying d = TPtr d1"
      by blast
    then show ?thesis
    proof cases
      case str
      obtain vs dvs where v: "v = VStruct vs" "typed_fields vs fs" "dv = VStruct dvs" "typed_fields dvs ds"
        using less.prems(1,2) str(1,2) by (metis typed_structE)
      have "outcome (conv_now_fields h p fs vs ds) (\<lambda>r. typed_fields r ds) (convert_fields h p fs vs ds dvs)"
        using less.IH underlying_smaller(2) [of fs s] str(1) v(2,4) by (intro convert_fields_outcome) auto
      then show ?thesis
        using not str by (auto simp: v(1,3) handle_struct [OF not str] typed_structI [OF str(2)] conv_now.simps [of h p s]
            and_then_def split: sum.splits)
    next
      case ptr
      obtain y where y: "dv = VPtr y" "typed (case y of None \<Rightarrow> zero_value d1 | Some c \<Rightarrow> c) d1"
        using typed_ptrE [OF less.prems(2) ptr(2)] zero_typed(1) by (metis option.simps(4,5))
      let ?cur = "case y of None \<Rightarrow> zero_value d1 | Some c \<Rightarrow> c"
      have s1: "size s1 < size s" using underlying_smaller(1) [of s1 s] ptr(1) by simp
      show ?thesis
      proof (rule typed_ptrE [OF less.prems(1) ptr(1)])
        assume "v = VPtr None"
        then show ?thesis
          using less.prems(2) y(1) not ptr by (simp add: handle_pointer(1) [OF not ptr] conv_now.simps [of h p s])
      next
        fix x assume x: "v = VPtr (Some x)" "typed x s1"
        show ?thesis
        proof (cases "is_pointer s1")
          case False
          have "conv_now h p s v d = conv_now h p s1 x d1"
            using False not ptr x(1) by (auto simp: conv_now.simps [of h p s] is_pointer_def split: gtype.splits)
          with less.IH [OF s1 x(2) y(2), of h p] show ?thesis
            using x(1) y(1) by (auto simp: handle_pointer(2) [OF not ptr False] typed_ptrI [OF ptr(2)] and_then_def split: sum.splits)
        next
          case True
          then obtain s2 where s2: "underlying s1 = TPtr s2" by (auto simp: is_pointer_def split: gtype.splits)
          then have smaller: "size s2 < size s" using underlying_smaller(1) [of s2 s1] s1 by simp
          show ?thesis
          proof (rule typed_ptrE [OF x(2) s2])
            assume "x = VPtr None"
            then show ?thesis
              using not ptr x(1) y(1) s2 by (simp add: handle_pointer_to_pointer(1) [OF not ptr s2] conv_now.simps [of h p s])
          next
            fix z assume z: "x = VPtr (Some z)" "typed z s2"
            have "conv_now h p s v d = conv_now h p s2 z d1"
              using not ptr x(1) z(1) s2 by (simp add: conv_now.simps [of h p s])
            with less.IH [OF smaller z(2) y(2), of h p] show ?thesis
              using x(1) y(1) z(1) by (auto simp: handle_pointer_to_pointer(2) [OF not ptr s2] typed_ptrI [OF ptr(2)]
                  and_then_def split: sum.splits)
          qed
        qed
      qed
    next
      case other
      then obtain e where "handle_field h p s v d dv = Inl e" using handle_other(1) [OF not] by blast
      then show ?thesis using handle_other(2) [OF not other] by simp
    qed
  qed
qed

lemma conv_ok_now:
  "conv_ok h p s d \<Longrightarrow> typed v s \<Longrightarrow> conv_now h p s v d"
  "conv_ok_fields h p fs ds \<Longrightarrow> typed_fields vs fs \<Longrightarrow> conv_now_fields h p fs vs ds"
proof (induction h p s d and h p fs ds arbitrary: v and vs rule: conv_ok_conv_ok_fields.induct)
  case (1 h p s d)
  show ?case
  proof (cases "assignable s d \<or> convertible s d")
    case False
    then have not: "\<not> assignable s d" "\<not> convertible s d" by simp_all
    consider (str) fs ds where "underlying s = TStruct fs" "underlying d = TStruct ds" "conv_ok_fields h p fs ds"
      | (ptr) s1 d1 where "underlying s = TPtr s1" "underlying d = TPtr d1" "\<not> is_pointer s1" "conv_ok h p s1 d1"
      using "1.prems"(1) not by (auto simp: conv_ok.simps [of h p s d] split: gtype.splits)
    then show ?thesis
    proof cases
      case str
      then obtain vs where v: "v = VStruct vs" "typed_fields vs fs" using "1.prems"(2) typed_structE by metis
      from "1.IH"(2) [OF refl str(1,2) str(3) v(2)] show ?thesis by (simp add: conv_now.simps [of h p s] str v(1))
    next
      case ptr
      show ?thesis
      proof (rule typed_ptrE [OF "1.prems"(2) ptr(1)])
        fix x assume x: "v = VPtr (Some x)" "typed x s1"
        from "1.IH"(1) [OF refl ptr(1,2,4) x(2)] ptr(3) show ?thesis
          by (auto simp: conv_now.simps [of h p s] ptr x(1) is_pointer_def split: gtype.splits)
      qed (simp add: conv_now.simps [of h p s] ptr)
    qed
  qed (auto simp: conv_now.simps [of h p s])
next
  case (3 h p fs n e g t ds)
  let ?name = "case mget h (p @ n) of Some x \<Rightarrow> x | None \<Rightarrow> n"
  note source = source_field_type [OF "3.prems"(2), of ?name]
  have rest: "conv_now_fields h p fs vs ds" using "3.IH"(2) "3.prems" by (simp add: Let_def)
  show ?case
  proof (cases "e \<and> source_type fs ?name \<noteq> None")
    case True
    then obtain st sv where st: "source_type fs ?name = Some st" "source_field fs vs ?name = Some (st, sv)" "typed sv st"
      using source by blast
    have "conv_ok h (p @ n @ ''.'') st t" using "3.prems"(1) True st(1) by (simp add: Let_def)
    with "3.IH"(1) [OF _ refl st(1) _ st(3)] True st(2) rest show ?thesis by (simp add: Let_def)
  next
    case False
    then show ?thesis using "3.prems"(1) source rest by (auto simp: Let_def)
  qed
qed simp

text \<open>
  The value on which a conversion fails if its types let it fail: no pointer is nil, but for
  the inner one of a pointer to a pointer.
\<close>

fun worst_value :: "gtype \<Rightarrow> gval" and worst_fields :: "gfield list \<Rightarrow> (string \<times> gval) list" where
  "worst_value (TNamed n t) = worst_value t"
| "worst_value (TPtr t) = VPtr (Some (if is_pointer t then VPtr None else worst_value t))"
| "worst_value (TStruct fs) = VStruct (worst_fields fs)"
| "worst_value (TScalar k) = zero_value (TScalar k)"
| "worst_value (TOpaque n) = VOpaque 0"
| "worst_fields [] = []"
| "worst_fields (GField n e g t # fs) = (n, worst_value t) # worst_fields fs"

lemma nil_typed: "is_pointer t \<Longrightarrow> typed (VPtr None) t"
  by (auto simp: is_pointer_def typed_ptrI split: gtype.splits)

lemma worst_typed: "typed (worst_value t) t" "typed_fields (worst_fields fs) fs"
proof (induction t and fs rule: worst_value_worst_fields.induct)
  case (4 k)
  then show ?case using zero_typed(1) [of "TScalar k"] by simp
qed (simp_all add: nil_typed)

lemma worst_underlying: "worst_value (underlying t) = worst_value t"
  by (induction t rule: underlying.induct) simp_all

lemma source_field_worst: "source_field fs (worst_fields fs) x = map_option (\<lambda>t. (t, worst_value t)) (source_type fs x)"
  by (induction fs x rule: source_type.induct) simp_all

lemma worst_not_now:
  "\<not> conv_ok h p s d \<Longrightarrow> \<not> conv_now h p s (worst_value s) d"
  "\<not> conv_ok_fields h p fs ds \<Longrightarrow> \<not> conv_now_fields h p fs (worst_fields fs) ds"
proof (induction h p s d and h p fs ds rule: conv_ok_conv_ok_fields.induct)
  case (1 h p s d)
  then have not: "\<not> assignable s d" "\<not> convertible s d"
    by (auto simp: conv_ok.simps [of h p s d])
  consider (str) fs ds where "underlying s = TStruct fs" "underlying d = TStruct ds"
    | (ptr) s1 d1 where "underlying s = TPtr s1" "underlying d = TPtr d1"
    | (other) "\<nexists>fs ds. underlying s = TStruct fs \<and> underlying d = TStruct ds"
        "\<nexists>s1 d1. underlying s = TPtr s1 \<and> underlying d = TPtr d1"
    by blast
  then show ?case
  proof cases
    case str
    have w: "worst_value s = VStruct (worst_fields fs)" using worst_underlying [of s] str(1) by simp
    have "\<not> conv_ok_fields h p fs ds" using "1.prems" not by (simp add: conv_ok.simps [of h p s d] str)
    with "1.IH"(2) [OF refl str] not show ?thesis by (simp add: conv_now.simps [of h p s] w str)
  next
    case ptr
    have w: "worst_value s = VPtr (Some (if is_pointer s1 then VPtr None else worst_value s1))"
      using worst_underlying [of s] ptr(1) by simp
    show ?thesis
    proof (cases "is_pointer s1")
      case True
      then obtain s2 where "underlying s1 = TPtr s2" by (auto simp: is_pointer_def split: gtype.splits)
      then show ?thesis using not True by (simp add: conv_now.simps [of h p s] w ptr)
    next
      case False
      then have "\<not> conv_ok h p s1 d1" using "1.prems" not by (simp add: conv_ok.simps [of h p s d] ptr)
      with "1.IH"(1) [OF refl ptr] not False show ?thesis
        by (auto simp: conv_now.simps [of h p s] w ptr is_pointer_def split: gtype.splits)
    qed
  qed (rule handle_other(2) [OF not])
next
  case (3 h p fs n e g t ds)
  let ?name = "case mget h (p @ n) of Some x \<Rightarrow> x | None \<Rightarrow> n"
  show ?case
  proof (cases "conv_ok_fields h p fs ds")
    case True
    then have e: e and bad: "case source_type fs ?name of
        Some st \<Rightarrow> \<not> conv_ok h (p @ n @ ''.'') st t | None \<Rightarrow> ?name \<noteq> skip_conversion"
      using "3.prems" by (auto simp: Let_def split: option.splits)
    show ?thesis
    proof (cases "source_type fs ?name")
      case None
      then show ?thesis using e bad by (simp add: Let_def source_field_worst)
    next
      case (Some st)
      with "3.IH"(1) [OF e refl Some] e bad show ?thesis by (simp add: Let_def source_field_worst)
    qed
  qed (use "3.IH"(2) in simp)
qed simp

text \<open>
  C38: when the conversion of one configuration into the other panics. For a value of the
  source and of the destination, it returns a value of the type of the destination exactly where
  every exported field of the destination that it reaches is skipped or has, under its name or
  its hint, an exported field of the source that is assignable, convertible, or a struct or
  pointer of which the same holds; it does not go behind a nil pointer of the source, and
  the inner pointer of a pointer to a pointer must not be nil (\<open>conv_now\<close>). In every other
  case it panics. The types and the hints alone (\<open>conv_ok\<close>) decide whether a value exists on
  which it panics.
\<close>

theorem conversion_outcome:
  assumes "typed v s" and "typed cur d"
  shows "(if conv_now h ''.'' s v d
      then \<exists>r. convert_config h (TPtr s) (VPtr (Some v)) (TPtr d) (VPtr (Some cur)) = Inr (VPtr (Some r)) \<and> typed r d
      else \<exists>e. convert_config h (TPtr s) (VPtr (Some v)) (TPtr d) (VPtr (Some cur)) = Inl e) \<and>
    (conv_ok h ''.'' s d \<longleftrightarrow>
      (\<forall>x. typed x s \<longrightarrow>
        (\<exists>r. convert_config h (TPtr s) (VPtr (Some x)) (TPtr d) (VPtr (Some cur)) = Inr (VPtr (Some r)))))"
proof -
  have run: "if conv_now h ''.'' s x d
      then \<exists>r. convert_config h (TPtr s) (VPtr (Some x)) (TPtr d) (VPtr (Some cur)) = Inr (VPtr (Some r)) \<and> typed r d
      else \<exists>e. convert_config h (TPtr s) (VPtr (Some x)) (TPtr d) (VPtr (Some cur)) = Inl e" if "typed x s" for x
    using handle_field_outcome [OF that assms(2), of h "''.''"]
    by (cases "handle_field h ''.'' s x d cur") (auto simp: convert_config_def convert_def)
  have "conv_ok h ''.'' s d \<longleftrightarrow> (\<forall>x. typed x s \<longrightarrow> conv_now h ''.'' s x d)"
    using conv_ok_now(1) worst_not_now(1) worst_typed(1) by blast
  moreover have "conv_now h ''.'' s x d \<longleftrightarrow>
      (\<exists>r. convert_config h (TPtr s) (VPtr (Some x)) (TPtr d) (VPtr (Some cur)) = Inr (VPtr (Some r)))" if "typed x s" for x
    using run [OF that] by (auto split: if_splits)
  ultimately show ?thesis using run [OF assms(1)] by blast
qed

text \<open>Two configurations in the style of the program, and values of them.\<close>

definition obi_type :: gtype where
  "obi_type = TNamed ''obi.Config'' (TStruct
     [GField ''EBPF'' True ''yaml:ebpf'' (TNamed ''config.EBPFTracer'' (TStruct [GField ''BatchLength'' True [] (TScalar (IntKind True 64))])),
      GField ''LogFormat'' True [] (TNamed ''obi.LogFormat'' (TScalar StringKind)),
      GField ''Stats'' True [] (TPtr (TNamed ''obi.Stats'' (TStruct [GField ''Port'' True [] (TScalar (IntKind True 64))])))])"

definition beyla_type :: gtype where
  "beyla_type = TNamed ''beyla.Config'' (TStruct
     [GField ''EBPF'' True [] (TNamed ''config.EBPFTracer'' (TStruct [GField ''BatchLength'' True [] (TScalar (IntKind True 64))])),
      GField ''LogFormat'' True [] (TNamed ''beyla.LogFormat'' (TScalar StringKind)),
      GField ''Stats'' True [] (TPtr (TNamed ''beyla.Stats'' (TStruct [GField ''Port'' True [] (TScalar (IntKind True 32))]))),
      GField ''Injector'' True [] (TOpaque ''SDKInject''),
      GField ''obi'' False [] (TPtr (TOpaque ''Config''))])"

definition obi_value :: gval where
  "obi_value = VStruct [(''EBPF'', VStruct [(''BatchLength'', VInt 100)]), (''LogFormat'', VStr ''text''),
     (''Stats'', VPtr (Some (VStruct [(''Port'', VInt 4294967297)])))]"

text \<open>Types that do not match, behind a pointer.\<close>

definition nested_source :: gtype where
  "nested_source = TStruct [GField ''Stats'' True [] (TPtr (TStruct [GField ''Port'' True [] (TScalar StringKind)]))]"

definition nested_destination :: gtype where
  "nested_destination = TStruct [GField ''Nested'' True [] (TPtr (TStruct [GField ''Port'' True [] (TScalar BoolKind)]))]"

lemmas conversion_types = obi_type_def beyla_type_def obi_value_def

theorem conversion_outcome_witness:
  "(\<exists>r. convert_config [(''.Injector'', ''(skip)'')] (TPtr obi_type) (VPtr (Some obi_value)) (TPtr beyla_type)
      (VPtr (Some (zero_value beyla_type))) = Inr (VPtr (Some r)) \<and> typed r beyla_type) \<and>
   (\<exists>e. convert_config [] (TPtr obi_type) (VPtr (Some obi_value)) (TPtr beyla_type)
      (VPtr (Some (zero_value beyla_type))) = Inl e) \<and>
   (\<exists>r. convert_config [(''.Nested'', ''Stats'')] (TPtr nested_source) (VPtr (Some (VStruct [(''Stats'', VPtr None)])))
      (TPtr nested_destination) (VPtr (Some (zero_value nested_destination))) = Inr (VPtr (Some r)) \<and> typed r nested_destination)"
proof -
  have v: "typed obi_value obi_type" "typed (VStruct [(''Stats'', VPtr None)]) nested_source" by code_simp+
  have "conv_now [(''.Injector'', ''(skip)'')] ''.'' obi_type obi_value beyla_type" "\<not> conv_now [] ''.'' obi_type obi_value beyla_type"
    "conv_now [(''.Nested'', ''Stats'')] ''.'' nested_source (VStruct [(''Stats'', VPtr None)]) nested_destination"
    by code_simp+
  then show ?thesis
    using conversion_outcome [OF v(1) zero_typed(1), of "[(''.Injector'', ''(skip)'')]" beyla_type]
      conversion_outcome [OF v(1) zero_typed(1), of "[]" beyla_type]
      conversion_outcome [OF v(2) zero_typed(1), of "[(''.Nested'', ''Stats'')]" nested_destination] by presburger
qed

text \<open>A number that does not fit is wrapped without a word.\<close>

lemma narrowed_port:
  "convert_config [] (TPtr (TStruct [GField ''Port'' True [] (TScalar (IntKind True 64))])) (VPtr (Some (VStruct [(''Port'', VInt 4294967297)])))
     (TPtr (TStruct [GField ''Port'' True [] (TScalar (IntKind True 32))])) (VPtr (Some (VStruct [(''Port'', VInt 0)]))) =
   Inr (VPtr (Some (VStruct [(''Port'', VInt 1)])))"
  by code_simp

end
