(* ===== verification/Proc_Snapshot.thy ===== *)
theory Proc_Snapshot
  imports Prelude
begin

text \<open>
  What the process harvester reads from the /proc file system
  (pkg/internal/infraolly/process/snapshot.go): the stat file, the table of network devices
  and the command line.

  A float64 is a value of a type parameter with the operations that the code applies to it,
  so that what is shown holds for any floating-point semantics. The page size, the clock
  ticks and the number of processors of the machine are kept with them.
\<close>

subsection \<open>Machine\<close>

record 'f machine =
  f_of_int :: "int \<Rightarrow> 'f"
  f_add :: "'f \<Rightarrow> 'f \<Rightarrow> 'f"
  f_sub :: "'f \<Rightarrow> 'f \<Rightarrow> 'f"
  f_mul :: "'f \<Rightarrow> 'f \<Rightarrow> 'f"
  f_div :: "'f \<Rightarrow> 'f \<Rightarrow> 'f"
  f_eq :: "'f \<Rightarrow> 'f \<Rightarrow> bool"
  f_seconds :: "int \<Rightarrow> 'f"
  page_size :: int
  clocks_per_sec :: int
  num_cpu :: int

record 'f cpu_info =
  user_time :: 'f
  system_time :: 'f
  wait_time :: 'f

definition zero_cpu :: "'f machine \<Rightarrow> 'f cpu_info" where
  "zero_cpu m = \<lparr>user_time = f_of_int m 0, system_time = f_of_int m 0, wait_time = f_of_int m 0\<rparr>"

definition cpu_eq :: "'f machine \<Rightarrow> 'f cpu_info \<Rightarrow> 'f cpu_info \<Rightarrow> bool" where
  "cpu_eq m a b \<longleftrightarrow> f_eq m (user_time a) (user_time b) \<and> f_eq m (system_time a) (system_time b) \<and>
     f_eq m (wait_time a) (wait_time b)"

subsection \<open>/proc/<pid>/stat\<close>

record 'f proc_stats =
  st_command :: string
  st_ppid :: int
  st_num_threads :: int
  st_state :: string
  st_vm_rss :: int
  st_vm_size :: int
  st_cpu :: "'f cpu_info"

datatype proc_error =
    NoCommandStart string | NoCommandEnd string | BadStatNumber string
  | IndexOutOfRange \<comment> \<open>a panic\<close>
  | StatRead string | ProcessGone string

text \<open>An index expression on the fields, and a field read as an integer of a width.\<close>

definition stat_field :: "string list \<Rightarrow> nat \<Rightarrow> proc_error + string" where
  "stat_field fs i = (if i < length fs then Inr (fs ! i) else Inl IndexOutOfRange)"

definition stat_int :: "string \<Rightarrow> string list \<Rightarrow> nat \<Rightarrow> nat \<Rightarrow> proc_error + int" where
  "stat_int content fs i bits =
     (case stat_field fs i of
        Inl e \<Rightarrow> Inl e
      | Inr s \<Rightarrow> (case parse_int bits s of NumOk n \<Rightarrow> Inr n | _ \<Rightarrow> Inl (BadStatNumber content)))"

definition seconds_of_ticks :: "'f machine \<Rightarrow> int \<Rightarrow> 'f" where
  "seconds_of_ticks m t = f_div m (f_of_int m t) (f_of_int m (clocks_per_sec m))"

text \<open>
  The fields after the command, in the order in which they are read. A PID is an unsigned
  32-bit number, to which the signed result of the parser is converted.
\<close>

definition parse_stat_fields :: "'f machine \<Rightarrow> string \<Rightarrow> string \<Rightarrow> string list \<Rightarrow> proc_error + 'f proc_stats" where
  "parse_stat_fields m content command fs =
     and_then (stat_field fs 0) (\<lambda>state.
     and_then (stat_int content fs 1 32) (\<lambda>ppid.
     and_then (stat_int content fs 11 64) (\<lambda>utime.
     and_then (stat_int content fs 12 64) (\<lambda>stime.
     and_then (stat_int content fs 13 64) (\<lambda>cutime.
     and_then (stat_int content fs 14 64) (\<lambda>cstime.
     and_then (stat_int content fs 17 32) (\<lambda>nthreads.
     and_then (stat_int content fs 20 64) (\<lambda>vsize.
     and_then (stat_int content fs 21 64) (\<lambda>rss.
       Inr \<lparr>st_command = command, st_ppid = ppid mod 2 ^ 32, st_num_threads = nthreads, st_state = state,
            st_vm_rss = wrap64 (rss * page_size m), st_vm_size = vsize,
            st_cpu = \<lparr>user_time = seconds_of_ticks m utime, system_time = seconds_of_ticks m stime,
                      wait_time = seconds_of_ticks m (wrap64 (cutime + cstime))\<rparr>\<rparr>)))))))))"

definition parse_proc_stat :: "'f machine \<Rightarrow> string \<Rightarrow> proc_error + 'f proc_stats" where
  "parse_proc_stat m content =
     (case index_of content ''('' of
        None \<Rightarrow> Inl (NoCommandStart content)
      | Some i \<Rightarrow>
          let content = drop (i + 1) content in
          case index_of content '')'' of
            None \<Rightarrow> Inl (NoCommandEnd content)
          | Some j \<Rightarrow> parse_stat_fields m content (take j content) (Prelude.fields (drop (j + 1) content)))"

definition read_proc_stat :: "'f machine \<Rightarrow> string + string \<Rightarrow> proc_error + 'f proc_stats" where
  "read_proc_stat m content =
     (case content of Inl e \<Rightarrow> Inl (StatRead e) | Inr c \<Rightarrow> parse_proc_stat m c)"

subsection \<open>/proc/<pid>/net/dev\<close>

text \<open>
  The expression \<open>netLineRegexp\<close>. After the line feed that starts it, every class in it is
  disjoint from what follows, so that the greedy choice is the only one: white space, a
  name up to a colon, and nine numbers, of which the first and the ninth are groups; the
  rest of the line belongs to the match.
\<close>

definition re_space :: "char \<Rightarrow> bool" where
  "re_space c \<longleftrightarrow> c \<in> {CHR 0x09, CHR 0x0A, CHR 0x0C, CHR 0x0D, CHR '' ''}"

text \<open>One number with the white space before it; \<open>None\<close> where it does not match.\<close>

definition net_number :: "string \<Rightarrow> (string \<times> string) option" where
  "net_number s =
     (let t = dropWhile re_space s; d = takeWhile is_digit t
      in if s = [] \<or> \<not> re_space (hd s) \<or> d = [] then None else Some (d, dropWhile is_digit t))"

fun net_skip :: "nat \<Rightarrow> string \<Rightarrow> string option" where
  "net_skip 0 s = Some s"
| "net_skip (Suc n) s = (case net_number s of None \<Rightarrow> None | Some (_, s') \<Rightarrow> net_skip n s')"

definition net_line :: "string \<Rightarrow> (string \<times> string \<times> string) option" where
  "net_line s =
     (let name = dropWhile (\<lambda>c. c \<noteq> CHR 0x0A \<and> c \<noteq> CHR '':'') (dropWhile re_space s) in
      if name = [] \<or> hd name \<noteq> CHR '':'' then None
      else let t = dropWhile re_space (tl name); rx = takeWhile is_digit t in
        if rx = [] then None
        else case net_skip 7 (dropWhile is_digit t) of None \<Rightarrow> None | Some t' \<Rightarrow>
        case net_number t' of None \<Rightarrow> None | Some (tx, t'') \<Rightarrow>
        Some (rx, tx, dropWhile (\<lambda>c. c \<noteq> CHR 0x0A) t''))"

lemma net_number_length: "net_number s = Some (d, t) \<Longrightarrow> length t \<le> length s"
  by (auto simp: net_number_def Let_def split: if_splits intro: order_trans [OF length_dropWhile_le])

lemma net_skip_length: "net_skip n s = Some t \<Longrightarrow> length t \<le> length s"
proof (induction n arbitrary: s)
  case (Suc n)
  then obtain d s' where "net_number s = Some (d, s')" "net_skip n s' = Some t"
    by (auto split: option.splits)
  with Suc.IH net_number_length show ?case by (meson order_trans)
qed simp

lemma net_line_length: "net_line s = Some (rx, tx, t) \<Longrightarrow> length t \<le> length s"
proof -
  assume line: "net_line s = Some (rx, tx, t)"
  define name where "name = dropWhile (\<lambda>c. c \<noteq> CHR 0x0A \<and> c \<noteq> CHR '':'') (dropWhile re_space s)"
  define u where "u = dropWhile is_digit (dropWhile re_space (tl name))"
  obtain v w where v: "net_skip 7 u = Some v" and w: "net_number v = Some (tx, w)"
    and t: "t = dropWhile (\<lambda>c. c \<noteq> CHR 0x0A) w"
    using line by (auto simp: net_line_def Let_def name_def [symmetric] u_def [symmetric]
        split: if_splits option.splits)
  have "length name \<le> length (dropWhile re_space s)" unfolding name_def by (rule length_dropWhile_le)
  also have "\<dots> \<le> length s" by (rule length_dropWhile_le)
  finally have name: "length name \<le> length s" .
  have "length t \<le> length w" unfolding t by (rule length_dropWhile_le)
  also have "\<dots> \<le> length v" using w by (rule net_number_length)
  also have "\<dots> \<le> length u" using v by (rule net_skip_length)
  also have "\<dots> \<le> length (dropWhile re_space (tl name))" unfolding u_def by (rule length_dropWhile_le)
  also have "\<dots> \<le> length (tl name)" by (rule length_dropWhile_le)
  also have "\<dots> \<le> length name" by simp
  finally show ?thesis using name by simp
qed

text \<open>\<open>FindAllSubmatch\<close>: the matches from left to right, each search after the last match.\<close>

function net_matches :: "string \<Rightarrow> (string \<times> string) list" where
  "net_matches [] = []"
| "net_matches (c # s) =
     (if c \<noteq> CHR 0x0A then net_matches s
      else case net_line s of
        None \<Rightarrow> net_matches s
      | Some (rx, tx, t) \<Rightarrow> (rx, tx) # net_matches t)"
  by pat_completeness auto
termination
  by (relation "measure length") (auto dest: net_line_length)

fun net_sum :: "(string \<times> string) list \<Rightarrow> int \<times> int \<Rightarrow> int \<times> int" where
  "net_sum [] acc = acc"
| "net_sum ((r, t) # es) (rx, tx) =
     net_sum es (wrap64 (rx + int_value (parse_int 64 r)), wrap64 (tx + int_value (parse_int 64 t)))"

definition parse_proc_net_dev :: "string \<Rightarrow> int \<times> int" where
  "parse_proc_net_dev content = net_sum (net_matches content) (0, 0)"

subsection \<open>/proc/<pid>/cmdline\<close>

text \<open>\<open>getNextArg\<close>: what remains and the argument; \<open>None\<close> where there is none.\<close>

definition get_next_arg :: "string \<Rightarrow> (string \<times> string) option" where
  "get_next_arg s =
     (if s = [] then None
      else Some (tl (dropWhile (\<lambda>c. c \<noteq> CHR 0x00) s), takeWhile (\<lambda>c. c \<noteq> CHR 0x00) s))"

lemma get_next_arg_length: "get_next_arg s = Some (t, a) \<Longrightarrow> length t < length s"
  using length_dropWhile_le [of "\<lambda>c. c \<noteq> CHR 0x00" s]
  by (cases s) (auto simp: get_next_arg_def split: if_splits)

function get_args :: "string \<Rightarrow> string list" where
  "get_args s = (case get_next_arg s of None \<Rightarrow> [] | Some (t, a) \<Rightarrow> a # get_args t)"
  by pat_completeness auto
termination
  by (relation "measure length") (auto dest: get_next_arg_length)

declare get_args.simps [simp del]

definition sanitize_command_line :: "string \<Rightarrow> string" where
  "sanitize_command_line cmd =
     trim_set [CHR '' '', CHR 0x09, CHR 0x0A, CHR 0x0B, CHR 0x0C, CHR 0x0D, CHR 0x22, CHR 0x27, CHR 0x60] cmd"

text \<open>\<open>path.Base\<close>.\<close>

definition path_base :: "string \<Rightarrow> string" where
  "path_base p =
     (if p = [] then ''.''
      else let q = trim_right ''/'' p;
               r = (case last_index_byte q (CHR ''/'') of Some i \<Rightarrow> drop (i + 1) q | None \<Rightarrow> q)
           in if r = [] then ''/'' else r)"

record command_info =
  ci_args :: "string list"
  ci_line :: string
  ci_exec_path :: string
  ci_exec_name :: string

definition no_command :: command_info where
  "no_command = \<lparr>ci_args = [], ci_line = [], ci_exec_path = [], ci_exec_name = []\<rparr>"

text \<open>
  The body of \<open>fetchCommandInfo\<close> on the content of the file, empty where it cannot be read.
\<close>

definition command_info_of :: "string \<Rightarrow> command_info" where
  "command_info_of cmdline =
     (if cmdline = [] then no_command
      else
        let s = (if hd cmdline = CHR ''-'' then tl cmdline else cmdline);
            s = sanitize_command_line s;
            (rest, exec_path) = (case get_next_arg s of Some (t, a) \<Rightarrow> (t, a) | None \<Rightarrow> ([], []));
            args = get_args rest
        in \<lparr>ci_args = args,
            ci_line = exec_path @ concat (map (\<lambda>a. CHR '' '' # a) args),
            ci_exec_path = exec_path, ci_exec_name = path_base exec_path\<rparr>)"

subsection \<open>The user of a process\<close>

datatype user_error = UidsFailed string | InvalidUids | GetentFailed string | MalformedGetent

definition username_from_getent :: "string + string \<Rightarrow> user_error + string" where
  "username_from_getent out =
     (case out of Inl e \<Rightarrow> Inl (GetentFailed e)
      | Inr s \<Rightarrow> (case index_of s '':'' of
          Some i \<Rightarrow> if i > 0 then Inr (take i s) else Inl MalformedGetent
        | None \<Rightarrow> Inl MalformedGetent))"

definition first_uid :: "string + int list \<Rightarrow> user_error + int" where
  "first_uid uids =
     (case uids of Inl e \<Rightarrow> Inl (UidsFailed e) | Inr [] \<Rightarrow> Inl InvalidUids | Inr (u # us) \<Rightarrow> Inr u)"

text \<open>
  \<open>Username\<close> with the cached name: the name it returns, which it also caches. Its error is
  only logged by the caller, that reads the name it returned.
\<close>

definition username :: "string \<Rightarrow> string + string \<Rightarrow> string + int list \<Rightarrow> (int \<Rightarrow> string + string) \<Rightarrow> string" where
  "username cached gops uids getent =
     (if cached \<noteq> [] then cached
      else case gops of
        Inr name \<Rightarrow> if name = [] then ''-'' else name
      | Inl _ \<Rightarrow>
          (case first_uid uids of Inl _ \<Rightarrow> ''-''
           | Inr uid \<Rightarrow> (case username_from_getent (getent uid) of Inl _ \<Rightarrow> ''-'' | Inr name \<Rightarrow> name)))"

subsection \<open>The stat file\<close>

lemma index_of_char: "c \<notin> set a \<Longrightarrow> index_of (a @ c # b) [c] = Some (length a)"
  by (induction a) auto

lemma index_of_char_None: "c \<notin> set a \<Longrightarrow> index_of a [c] = None"
  by (induction a) auto

lemma lead_seq_newline: "lead_seq space_seqs (CHR 0x0A # cs) = Some 1"
  by (simp add: lead_seq_def space_seqs_def)

lemma fields_go_join_nl:
  "\<forall>w \<in> set ws. plain_word w \<Longrightarrow> fields_go [] (join '' '' ws @ [CHR 0x0A]) = ws"
proof (induction "'' ''" ws rule: join.induct)
  case (2 s)
  then show ?case
    using fields_go_plain [of s "[]" "[CHR 0x0A]"] by (simp add: plain_word_def lead_seq_newline)
next
  case (3 s t ss)
  have "fields_go [] (join '' '' (s # t # ss) @ [CHR 0x0A]) =
      fields_go s ('' '' @ join '' '' (t # ss) @ [CHR 0x0A])"
    using 3 fields_go_plain [of s "[]" "'' '' @ join '' '' (t # ss) @ [CHR 0x0A]"]
    by (simp add: plain_word_def)
  also have "\<dots> = s # fields_go [] (join '' '' (t # ss) @ [CHR 0x0A])"
    using 3 by (simp add: lead_seq_blank plain_word_def)
  finally show ?case using 3 by simp
qed (simp add: lead_seq_newline)

text \<open>The line that the kernel writes for a process.\<close>

definition stat_line :: "string \<Rightarrow> string \<Rightarrow> string list \<Rightarrow> string" where
  "stat_line pid comm fs = pid @ '' ('' @ comm @ '') '' @ join '' '' fs @ [CHR 0x0A]"

lemma parse_stat_line:
  assumes "CHR ''('' \<notin> set pid" and "CHR '')'' \<notin> set comm" and "\<forall>w \<in> set fs. plain_word w"
  shows "\<exists>content. parse_proc_stat m (stat_line pid comm fs) = parse_stat_fields m content comm fs"
proof -
  have i: "index_of (stat_line pid comm fs) ''('' = Some (length pid + 1)"
    using index_of_char [of "CHR ''(''" "pid @ '' ''"] assms(1) by (simp add: stat_line_def)
  have d: "drop (length pid + 1 + 1) (stat_line pid comm fs) = comm @ '') '' @ join '' '' fs @ [CHR 0x0A]"
    by (simp add: stat_line_def)
  have j: "index_of (comm @ '') '' @ join '' '' fs @ [CHR 0x0A]) '')'' = Some (length comm)"
    using index_of_char [OF assms(2)] by simp
  have f: "Prelude.fields ('' '' @ join '' '' fs @ [CHR 0x0A]) = fs"
    using fields_go_join_nl [OF assms(3)] by (simp add: Prelude.fields_def lead_seq_blank)
  show ?thesis
    by (intro exI [of _ "comm @ '') '' @ join '' '' fs @ [CHR 0x0A]"])
       (use i d j f in \<open>simp add: parse_proc_stat_def Let_def\<close>)
qed

lemma stat_int_ok:
  "i < length fs \<Longrightarrow> fs ! i = itoa n \<Longrightarrow> - (2 ^ (b - 1)) \<le> n \<Longrightarrow> n < 2 ^ (b - 1) \<Longrightarrow> stat_int c fs i b = Inr n"
  by (simp add: stat_int_def stat_field_def parse_int_itoa)

lemma parse_stat_fields_ok:
  assumes "22 \<le> length fs" and "fs ! 1 = itoa ppid" "fs ! 11 = itoa ut" "fs ! 12 = itoa st" "fs ! 13 = itoa cu"
    "fs ! 14 = itoa cs" "fs ! 17 = itoa thr" "fs ! 20 = itoa vsz" "fs ! 21 = itoa rss"
    and "0 \<le> ppid" "ppid < 2 ^ 31" "- (2 ^ 31) \<le> thr" "thr < 2 ^ 31"
    and "\<forall>n \<in> {ut, st, cu, cs, vsz, rss}. - (2 ^ 63) \<le> n \<and> n < 2 ^ 63"
  shows "parse_stat_fields m content comm fs =
    Inr \<lparr>st_command = comm, st_ppid = ppid, st_num_threads = thr, st_state = fs ! 0,
         st_vm_rss = wrap64 (rss * page_size m), st_vm_size = vsz,
         st_cpu = \<lparr>user_time = seconds_of_ticks m ut, system_time = seconds_of_ticks m st,
                   wait_time = seconds_of_ticks m (wrap64 (cu + cs))\<rparr>\<rparr>"
proof -
  have "stat_field fs 0 = Inr (fs ! 0)" using assms(1) by (auto simp: stat_field_def)
  moreover have "stat_int content fs 1 32 = Inr ppid" "stat_int content fs 17 32 = Inr thr"
    "stat_int content fs 11 64 = Inr ut" "stat_int content fs 12 64 = Inr st" "stat_int content fs 13 64 = Inr cu"
    "stat_int content fs 14 64 = Inr cs" "stat_int content fs 20 64 = Inr vsz" "stat_int content fs 21 64 = Inr rss"
    using assms by (auto intro!: stat_int_ok)
  ultimately show ?thesis
    using assms(10,11) unfolding parse_stat_fields_def by simp
qed

subsection \<open>The command line\<close>

lemma get_next_arg_zero: "CHR 0x00 \<notin> set a \<Longrightarrow> get_next_arg (a @ CHR 0x00 # t) = Some (t, a)"
  by (induction a) (auto simp: get_next_arg_def)

lemma get_args_join: "\<forall>a \<in> set as. CHR 0x00 \<notin> set a \<Longrightarrow> get_args (concat (map (\<lambda>a. a @ [CHR 0x00]) as)) = as"
proof (induction as)
  case Nil
  show ?case by (simp add: get_args.simps [of "[]"] get_next_arg_def)
next
  case (Cons a as)
  have "get_next_arg (a @ CHR 0x00 # concat (map (\<lambda>a. a @ [CHR 0x00]) as)) =
      Some (concat (map (\<lambda>a. a @ [CHR 0x00]) as), a)"
    using Cons.prems by (intro get_next_arg_zero) simp
  with Cons show ?case by (subst get_args.simps) simp
qed

text \<open>
  A command name with a closing parenthesis hides the process. Where the name has a
  closing parenthesis that is not followed by white space within the name, the rest of the
  name is taken for the state and the state for the parent's PID, so that parsing fails for
  every such process (whose state is not a number).
\<close>

lemma parenthesis_in_command_rejected:
  assumes "CHR ''('' \<notin> set pid" and "CHR '')'' \<notin> set a" and "\<forall>c \<in> set b. plain_char c"
    and "\<forall>w \<in> set fs. plain_word w" and "fs \<noteq> []" and "\<not> list_all is_digit (fs ! 0)"
    and "hd (fs ! 0) \<notin> {CHR ''-'', CHR ''+''}"
  shows "\<exists>content. parse_proc_stat m (stat_line pid (a @ '')'' @ b) fs) = Inl (BadStatNumber content)"
proof -
  have i: "index_of (stat_line pid (a @ '')'' @ b) fs) ''('' = Some (length pid + 1)"
    using index_of_char [of "CHR ''(''" "pid @ '' ''"] assms(1) by (simp add: stat_line_def)
  define rest where "rest = a @ '')'' @ b @ '') '' @ join '' '' fs @ [CHR 0x0A]"
  have d: "drop (length pid + 1 + 1) (stat_line pid (a @ '')'' @ b) fs) = rest"
    by (simp add: stat_line_def rest_def)
  have j: "index_of rest '')'' = Some (length a)"
    using index_of_char [OF assms(2)] by (simp add: rest_def)
  have b: "plain_word (b @ '')'')" using assms(3) by (auto simp: plain_word_def plain_char_def)
  then have ws: "\<forall>w \<in> set ((b @ '')'') # fs). plain_word w" using assms(4) by simp
  have "join '' '' ((b @ '')'') # fs) = b @ '') '' @ join '' '' fs"
    using assms(5) by (cases fs) simp_all
  then have "drop (length a + 1) rest = join '' '' ((b @ '')'') # fs) @ [CHR 0x0A]"
    by (simp add: rest_def)
  then have f: "Prelude.fields (drop (length a + 1) rest) = (b @ '')'') # fs"
    using fields_go_join_nl [OF ws] by (simp add: Prelude.fields_def)
  have "parse_proc_stat m (stat_line pid (a @ '')'' @ b) fs) = parse_stat_fields m rest a ((b @ '')'') # fs)"
    unfolding parse_proc_stat_def i option.case Let_def d j f by (simp add: rest_def)
  moreover have "fs ! 0 \<noteq> []" using assms(4,5) by (cases fs) (auto simp: plain_word_def)
  then have "parse_int 32 (fs ! 0) = NumSyntax"
    using assms(6,7) by (auto simp: parse_int_def Let_def)
  ultimately show ?thesis
    using assms(5) by (auto simp: parse_stat_fields_def stat_field_def stat_int_def)
qed

subsection \<open>Properties\<close>

text \<open>
  C20: what is read of the kernel's stat line. For numbers within their widths and a command
  without a closing parenthesis, parsing yields the command, the state, the parent and the
  thread count as they were written, the memory size, the resident pages times the page size
  (modulo 2^64), and the times in ticks divided by the clock rate. A command with a closing
  parenthesis is not read back: the code ends the command at the first one, so that, where no
  white space follows it within the command and the state is a letter, every such line is
  rejected, and the process is never harvested.
\<close>

theorem stat_line_read_back:
  assumes "CHR ''('' \<notin> set pid" and "\<forall>w \<in> set fs. plain_word w"
    and "22 \<le> length fs" and "fs ! 1 = itoa ppid" "fs ! 11 = itoa ut" "fs ! 12 = itoa st" "fs ! 13 = itoa cu"
    "fs ! 14 = itoa cs" "fs ! 17 = itoa thr" "fs ! 20 = itoa vsz" "fs ! 21 = itoa rss"
    and "0 \<le> ppid" "ppid < 2 ^ 31" "- (2 ^ 31) \<le> thr" "thr < 2 ^ 31"
    and "\<forall>n \<in> {ut, st, cu, cs, vsz, rss}. - (2 ^ 63) \<le> n \<and> n < 2 ^ 63"
  shows "(CHR '')'' \<notin> set comm \<longrightarrow> parse_proc_stat m (stat_line pid comm fs) =
      Inr \<lparr>st_command = comm, st_ppid = ppid, st_num_threads = thr, st_state = fs ! 0,
           st_vm_rss = wrap64 (rss * page_size m), st_vm_size = vsz,
           st_cpu = \<lparr>user_time = seconds_of_ticks m ut, system_time = seconds_of_ticks m st,
                     wait_time = seconds_of_ticks m (wrap64 (cu + cs))\<rparr>\<rparr>)
    \<and> (CHR '')'' \<in> set comm \<and> list_all plain_char (dropWhile (\<lambda>c. c \<noteq> CHR '')'') comm) \<and> fs ! 0 = [state_letter] \<and>
         \<not> is_digit state_letter \<and> state_letter \<notin> {CHR ''-'', CHR ''+''} \<longrightarrow>
       (\<exists>content. parse_proc_stat m (stat_line pid comm fs) = Inl (BadStatNumber content)))"
proof (intro conjI impI)
  assume "CHR '')'' \<notin> set comm"
  then obtain content where "parse_proc_stat m (stat_line pid comm fs) = parse_stat_fields m content comm fs"
    using parse_stat_line [OF assms(1) _ assms(2)] by blast
  with parse_stat_fields_ok [OF assms(3-16)] show "parse_proc_stat m (stat_line pid comm fs) =
      Inr \<lparr>st_command = comm, st_ppid = ppid, st_num_threads = thr, st_state = fs ! 0,
           st_vm_rss = wrap64 (rss * page_size m), st_vm_size = vsz,
           st_cpu = \<lparr>user_time = seconds_of_ticks m ut, system_time = seconds_of_ticks m st,
                     wait_time = seconds_of_ticks m (wrap64 (cu + cs))\<rparr>\<rparr>" by simp
next
  assume p: "CHR '')'' \<in> set comm \<and> list_all plain_char (dropWhile (\<lambda>c. c \<noteq> CHR '')'') comm) \<and> fs ! 0 = [state_letter] \<and>
      \<not> is_digit state_letter \<and> state_letter \<notin> {CHR ''-'', CHR ''+''}"
  let ?a = "takeWhile (\<lambda>c. c \<noteq> CHR '')'') comm" and ?d = "dropWhile (\<lambda>c. c \<noteq> CHR '')'') comm"
  have d: "?d = CHR '')'' # tl ?d"
    using p hd_dropWhile [of "\<lambda>c. c \<noteq> CHR '')''" comm] by (cases ?d) (auto simp: dropWhile_eq_Nil_conv)
  then have comm: "comm = ?a @ '')'' @ tl ?d"
    using takeWhile_dropWhile_id [of "\<lambda>c. c \<noteq> CHR '')''" comm] by simp
  have plain: "\<forall>c \<in> set (tl ?d). plain_char c"
    using p d by (metis list.set_intros(2) list_all_iff)
  have a: "CHR '')'' \<notin> set ?a" by (auto dest: set_takeWhileD)
  have "fs \<noteq> []" using assms(3) by auto
  from parenthesis_in_command_rejected [OF assms(1) a plain assms(2) this, of m] p
  show "\<exists>content. parse_proc_stat m (stat_line pid comm fs) = Inl (BadStatNumber content)"
    by (subst comm) simp
qed

text \<open>A machine whose arithmetic is the one of the integers.\<close>

definition sample_machine :: "int machine" where
  "sample_machine =
     \<lparr>f_of_int = (\<lambda>n. n), f_add = (+), f_sub = (-), f_mul = (*), f_div = (div), f_eq = (=), f_seconds = (\<lambda>d. d div 1000000000),
      page_size = 4096, clocks_per_sec = 100, num_cpu = 2\<rparr>"

definition sample_fields :: "string list" where
  "sample_fields =
     [''S'', ''1'', ''7'', ''7'', ''0'', ''-1'', ''4194560'', ''10'', ''0'', ''0'', ''0'', ''250'', ''50'', ''0'', ''0'',
      ''20'', ''0'', ''3'', ''0'', ''12345'', ''1048576'', ''9'']"

lemma digit_chars:
  "char_of (48::nat) = CHR ''0''" "char_of (49::nat) = CHR ''1''" "char_of (50::nat) = CHR ''2''"
  "char_of (51::nat) = CHR ''3''" "char_of (52::nat) = CHR ''4''" "char_of (53::nat) = CHR ''5''"
  "char_of (54::nat) = CHR ''6''" "char_of (55::nat) = CHR ''7''" "char_of (56::nat) = CHR ''8''"
  "char_of (57::nat) = CHR ''9''"
  by code_simp+

lemma sample_numbers:
  "itoa 1 = ''1''" "itoa 250 = ''250''" "itoa 50 = ''50''" "itoa 0 = ''0''" "itoa 3 = ''3''"
  "itoa 1048576 = ''1048576''" "itoa 9 = ''9''"
  by (simp_all add: itoa_def digits_of.simps digit_chars)

theorem stat_line_read_back_witness:
  "parse_proc_stat sample_machine (stat_line ''7'' ''my app'' sample_fields) =
    Inr \<lparr>st_command = ''my app'', st_ppid = 1, st_num_threads = 3, st_state = ''S'',
         st_vm_rss = wrap64 (9 * 4096), st_vm_size = 1048576,
         st_cpu = \<lparr>user_time = 2, system_time = 0, wait_time = seconds_of_ticks sample_machine (wrap64 (0 + 0))\<rparr>\<rparr>
    \<and> (\<exists>content. parse_proc_stat sample_machine (stat_line ''7'' ''(sd-pam)'' sample_fields) = Inl (BadStatNumber content))"
proof -
  have "parse_proc_stat sample_machine (stat_line ''7'' ''my app'' sample_fields) =
    Inr \<lparr>st_command = ''my app'', st_ppid = 1, st_num_threads = 3, st_state = sample_fields ! 0,
         st_vm_rss = wrap64 (9 * page_size sample_machine), st_vm_size = 1048576,
         st_cpu = \<lparr>user_time = seconds_of_ticks sample_machine 250, system_time = seconds_of_ticks sample_machine 50,
                   wait_time = seconds_of_ticks sample_machine (wrap64 (0 + 0))\<rparr>\<rparr>"
    by (rule stat_line_read_back [THEN conjunct1, THEN mp])
       (simp_all add: sample_fields_def sample_numbers plain_word_def plain_char_def)
  moreover have "\<exists>content. parse_proc_stat sample_machine (stat_line ''7'' ''(sd-pam)'' sample_fields) = Inl (BadStatNumber content)"
    by (rule stat_line_read_back [where state_letter = "CHR ''S''" and ppid = 1 and ut = 250
          and st = 50 and cu = 0 and cs = 0 and thr = 3 and vsz = 1048576 and rss = 9, THEN conjunct2, THEN mp])
       (simp_all add: sample_fields_def sample_numbers plain_word_def plain_char_def is_digit_def)
  ultimately show ?thesis
    by (simp add: sample_machine_def sample_fields_def seconds_of_ticks_def)
qed

text \<open>
  A truncated stat file crashes the harvester: where the line ends before its 22nd field,
  and the fields that are there are numbers, an index expression is out of range and the
  code panics instead of returning an error.
\<close>

lemma truncated_stat_line_panics:
  assumes "CHR ''('' \<notin> set pid" and "CHR '')'' \<notin> set comm" and "\<forall>w \<in> set fs. plain_word w"
    and "length fs < 22"
    and "\<forall>i \<in> {1, 17}. i < length fs \<longrightarrow> (\<exists>n. fs ! i = itoa n \<and> - (2 ^ 31) \<le> n \<and> n < 2 ^ 31)"
    and "\<forall>i \<in> {11, 12, 13, 14, 20, 21}. i < length fs \<longrightarrow> (\<exists>n. fs ! i = itoa n \<and> - (2 ^ 63) \<le> n \<and> n < 2 ^ 63)"
  shows "parse_proc_stat m (stat_line pid comm fs) = Inl IndexOutOfRange"
proof -
  obtain content where c: "parse_proc_stat m (stat_line pid comm fs) = parse_stat_fields m content comm fs"
    using parse_stat_line [OF assms(1-3)] by blast
  have field: "(\<exists>n. stat_int content fs i b = Inr n) \<or> stat_int content fs i b = Inl IndexOutOfRange"
    if ib: "(i, b) \<in> {(1, 32), (17, 32), (11, 64), (12, 64), (13, 64), (14, 64), (20, 64)}" for i b
  proof (cases "i < length fs")
    case True
    have "b = 32 \<and> i \<in> {1, 17} \<or> b = 64 \<and> i \<in> {11, 12, 13, 14, 20, 21}" using ib by auto
    then obtain n where "fs ! i = itoa n" "- (2 ^ (b - 1)) \<le> n" "n < 2 ^ (b - 1)"
    proof (elim disjE conjE)
      assume "b = 32" and i: "i \<in> {1, 17}"
      with assms(5) [THEN bspec, OF i, THEN mp, OF True] that show thesis by force
    next
      assume "b = 64" and i: "i \<in> {11, 12, 13, 14, 20, 21}"
      with assms(6) [THEN bspec, OF i, THEN mp, OF True] that show thesis by force
    qed
    with True stat_int_ok show ?thesis by blast
  qed (simp add: stat_int_def stat_field_def)
  have last: "stat_int content fs 21 64 = Inl IndexOutOfRange"
    using assms(4) by (simp add: stat_int_def stat_field_def)
  have chain: "and_then x f = Inl IndexOutOfRange"
    if "(\<exists>n. x = Inr n) \<or> x = Inl IndexOutOfRange" "\<And>n. f n = Inl IndexOutOfRange"
    for x :: "proc_error + 'c" and f :: "'c \<Rightarrow> proc_error + 'b"
    using that by auto
  have first: "(\<exists>n. stat_field fs 0 = Inr n) \<or> stat_field fs 0 = Inl IndexOutOfRange"
    by (simp add: stat_field_def)
  show ?thesis
    unfolding c parse_stat_fields_def
    by (rule chain [OF first], (rule chain [OF field], (simp; fail))+, simp add: last)
qed

text \<open>
  The command line is split as the kernel joined it. Where no argument holds a zero byte
  and the first one starts with none of the wrapping characters, the executable path and the
  arguments (empty ones too) are read back, and the command line is their text joined by
  blanks.
\<close>

lemma command_line_split:
  assumes "\<forall>a \<in> set (path # args). CHR 0x00 \<notin> set a" and "path \<noteq> []"
    and "hd path \<notin> set (''- '' @ [CHR 0x09, CHR 0x0A, CHR 0x0B, CHR 0x0C, CHR 0x0D, CHR 0x22, CHR 0x27, CHR 0x60])"
  shows "command_info_of (concat (map (\<lambda>a. a @ [CHR 0x00]) (path # args))) =
    \<lparr>ci_args = args, ci_line = join '' '' (path # args), ci_exec_path = path, ci_exec_name = path_base path\<rparr>"
proof -
  define s where "s = concat (map (\<lambda>a. a @ [CHR 0x00]) (path # args))"
  define zeroed where "zeroed = concat (map (\<lambda>a. a @ [CHR 0x00]) args)"
  have s: "s = path @ CHR 0x00 # zeroed" by (simp add: s_def zeroed_def)
  obtain p ps where p: "path = p # ps" using assms(2) by (cases path) auto
  have last: "last s = CHR 0x00"
    by (cases args rule: rev_cases) (simp_all add: s_def)
  have ne: "s \<noteq> []" using s p by simp
  let ?trim = "[CHR '' '', CHR 0x09, CHR 0x0A, CHR 0x0B, CHR 0x0C, CHR 0x0D, CHR 0x22, CHR 0x27, CHR 0x60]"
  have "dropWhile (\<lambda>c. c \<in> set ?trim) s = s" using assms(3) s p by simp
  moreover have "hd (rev s) = CHR 0x00" "rev s \<noteq> []" using last ne by (simp_all add: hd_rev)
  then have "dropWhile (\<lambda>c. c \<in> set ?trim) (rev s) = rev s" by (cases "rev s") auto
  ultimately have san: "sanitize_command_line s = s"
    unfolding sanitize_command_line_def trim_set_def by (simp only: rev_rev_ident)
  have nxt: "get_next_arg s = Some (zeroed, path)"
    unfolding s by (rule get_next_arg_zero) (use assms(1) in simp)
  have "get_args zeroed = args" using assms(1) get_args_join [of args] by (simp add: zeroed_def)
  moreover have "path @ concat (map (\<lambda>a. CHR '' '' # a) args) = join '' '' (path # args)"
    by (induction args arbitrary: path) (simp_all, metis append.assoc append_Cons)
  moreover have "hd s \<noteq> CHR ''-''" using assms(3) s p by simp
  ultimately show ?thesis
    unfolding s_def [symmetric] by (simp add: command_info_of_def ne san nxt Let_def)
qed

end
