(* ===== verification/Lru_Cache.thy ===== *)
theory Lru_Cache
  imports Prelude
begin

text \<open>
  The LRU cache that the process harvester uses
  (vendor/github.com/hashicorp/golang-lru/v2/simplelru/lru.go), and the contract on which
  the harvester relies: which keys are present, in the order of their last use, and what a
  key holds.

  The doubly linked list and the map that indexes it are one association list, the entry
  used last in front. The eviction callback is nil in this program.
\<close>

record ('k, 'v) lru =
  lru_size :: int
  lru_items :: "('k \<times> 'v) list"

definition new_lru :: "int \<Rightarrow> string + ('k, 'v) lru" where
  "new_lru sz = (if sz \<le> 0 then Inl ''must provide a positive size''
                   else Inr \<lparr>lru_size = sz, lru_items = []\<rparr>)"

definition lru_len :: "('k, 'v) lru \<Rightarrow> nat" where
  "lru_len c = length (lru_items c)"

definition move_to_front :: "'k \<Rightarrow> 'v \<Rightarrow> ('k \<times> 'v) list \<Rightarrow> ('k \<times> 'v) list" where
  "move_to_front k v xs = (k, v) # filter (\<lambda>e. fst e \<noteq> k) xs"

definition lru_remove_oldest :: "('k, 'v) lru \<Rightarrow> ('k, 'v) lru" where
  "lru_remove_oldest c = c\<lparr>lru_items := butlast (lru_items c)\<rparr>"

definition lru_add :: "'k \<Rightarrow> 'v \<Rightarrow> ('k, 'v) lru \<Rightarrow> ('k, 'v) lru" where
  "lru_add k v c =
     (case map_of (lru_items c) k of
        Some _ \<Rightarrow> c\<lparr>lru_items := move_to_front k v (lru_items c)\<rparr>
      | None \<Rightarrow>
          let c = c\<lparr>lru_items := (k, v) # lru_items c\<rparr>
          in if int (lru_len c) > lru_size c then lru_remove_oldest c else c)"

definition lru_get :: "'k \<Rightarrow> ('k, 'v) lru \<Rightarrow> ('k, 'v) lru \<times> 'v option" where
  "lru_get k c =
     (case map_of (lru_items c) k of
        Some v \<Rightarrow> (c\<lparr>lru_items := move_to_front k v (lru_items c)\<rparr>, Some v)
      | None \<Rightarrow> (c, None))"

definition lru_remove :: "'k \<Rightarrow> ('k, 'v) lru \<Rightarrow> ('k, 'v) lru" where
  "lru_remove k c = c\<lparr>lru_items := filter (\<lambda>e. fst e \<noteq> k) (lru_items c)\<rparr>"

text \<open>
  A write through the pointer that a lookup returned: the entry changes where it is. The
  harvester stores pointers, so its updates of a process are such writes.
\<close>

definition lru_write :: "'k \<Rightarrow> 'v \<Rightarrow> ('k, 'v) lru \<Rightarrow> ('k, 'v) lru" where
  "lru_write k v c = c\<lparr>lru_items := map (\<lambda>e. if fst e = k then (k, v) else e) (lru_items c)\<rparr>"

definition lru_keys :: "('k, 'v) lru \<Rightarrow> 'k list" where
  "lru_keys c = map fst (lru_items c)"

definition lru_lookup :: "('k, 'v) lru \<Rightarrow> 'k \<Rightarrow> 'v option" where
  "lru_lookup c k = map_of (lru_items c) k"

definition lru_inv :: "('k, 'v) lru \<Rightarrow> bool" where
  "lru_inv c \<longleftrightarrow> distinct (map fst (lru_items c)) \<and> int (length (lru_items c)) \<le> lru_size c"

text \<open>The loop \<open>for cache.Len() > n { cache.RemoveOldest() }\<close>.\<close>

function lru_purge :: "nat \<Rightarrow> ('k, 'v) lru \<Rightarrow> ('k, 'v) lru" where
  "lru_purge n c = (if lru_len c > n then lru_purge n (lru_remove_oldest c) else c)"
  by pat_completeness auto
termination
  by (relation "measure (\<lambda>(n, c). lru_len c)") (auto simp: lru_len_def lru_remove_oldest_def)

declare lru_purge.simps [simp del]

lemma lru_purge_pow: "lru_purge n c = (lru_remove_oldest ^^ (lru_len c - n)) c"
proof (induction n c rule: lru_purge.induct)
  case (1 n c)
  show ?case
  proof (cases "lru_len c > n")
    case True
    then have "lru_len c - n = Suc (lru_len (lru_remove_oldest c) - n)"
      by (auto simp: lru_len_def lru_remove_oldest_def)
    with True 1 show ?thesis by (simp add: lru_purge.simps [of n c] funpow_swap1)
  qed (simp add: lru_purge.simps [of n c])
qed

subsection \<open>The contract\<close>

text \<open>\<open>keys\<close> lists the keys, the one used last in front.\<close>

locale lru_cache =
  fixes lookup :: "'c \<Rightarrow> 'k \<Rightarrow> 'v option" and keys :: "'c \<Rightarrow> 'k list" and inv :: "'c \<Rightarrow> bool"
    and room :: "'c \<Rightarrow> nat" and len :: "'c \<Rightarrow> nat"
    and get :: "'k \<Rightarrow> 'c \<Rightarrow> 'c \<times> 'v option" and add :: "'k \<Rightarrow> 'v \<Rightarrow> 'c \<Rightarrow> 'c"
    and remove :: "'k \<Rightarrow> 'c \<Rightarrow> 'c" and remove_oldest :: "'c \<Rightarrow> 'c" and overwrite :: "'k \<Rightarrow> 'v \<Rightarrow> 'c \<Rightarrow> 'c"
  assumes keys_distinct: "inv c \<Longrightarrow> distinct (keys c)"
    and lookup_keys: "inv c \<Longrightarrow> lookup c k = None \<longleftrightarrow> k \<notin> set (keys c)"
    and len_keys: "len c = length (keys c)"
    and get_value: "snd (get k c) = lookup c k"
    and get_keys: "keys (fst (get k c)) = (if lookup c k = None then keys c else k # filter (\<lambda>x. x \<noteq> k) (keys c))"
    and get_lookup: "inv c \<Longrightarrow> lookup (fst (get k c)) = lookup c"
    and get_inv: "inv c \<Longrightarrow> inv (fst (get k c)) \<and> room (fst (get k c)) = room c"
    and add_keys: "inv c \<Longrightarrow> length (keys c) < room c \<Longrightarrow> keys (add k v c) = k # filter (\<lambda>x. x \<noteq> k) (keys c)"
    and add_lookup: "inv c \<Longrightarrow> length (keys c) < room c \<Longrightarrow> lookup (add k v c) = (lookup c)(k \<mapsto> v)"
    and add_inv: "inv c \<Longrightarrow> inv (add k v c) \<and> room (add k v c) = room c"
    and remove_keys: "keys (remove k c) = filter (\<lambda>x. x \<noteq> k) (keys c)"
    and remove_lookup: "inv c \<Longrightarrow> lookup (remove k c) = (lookup c)(k := None)"
    and remove_inv: "inv c \<Longrightarrow> inv (remove k c) \<and> room (remove k c) = room c"
    and oldest_keys: "keys (remove_oldest c) = butlast (keys c)"
    and oldest_lookup: "inv c \<Longrightarrow> lookup (remove_oldest c) = (lookup c) |` set (butlast (keys c))"
    and oldest_inv: "inv c \<Longrightarrow> inv (remove_oldest c) \<and> room (remove_oldest c) = room c"
    and overwrite_keys: "keys (overwrite k v c) = keys c"
    and overwrite_lookup: "inv c \<Longrightarrow> lookup (overwrite k v c) = (if lookup c k = None then lookup c else (lookup c)(k \<mapsto> v))"
    and overwrite_inv: "inv c \<Longrightarrow> inv (overwrite k v c) \<and> room (overwrite k v c) = room c"
begin

text \<open>
  The purge loop of a client, \<open>for Len() > n { RemoveOldest() }\<close>, makes \<open>len c - n\<close>
  removals.
\<close>

lemma butlast_pow: "(butlast ^^ m) xs = take (length xs - m) xs"
  by (induction m arbitrary: xs) (auto simp: funpow_swap1 butlast_conv_take)

lemma oldest_pow:
  assumes "inv c"
  shows "inv ((remove_oldest ^^ m) c)" and "room ((remove_oldest ^^ m) c) = room c"
    and "keys ((remove_oldest ^^ m) c) = (butlast ^^ m) (keys c)"
    and "lookup ((remove_oldest ^^ m) c) = (lookup c) |` set ((butlast ^^ m) (keys c))"
proof (induction m)
  case 0
  show "lookup ((remove_oldest ^^ 0) c) = (lookup c) |` set ((butlast ^^ 0) (keys c))"
    using lookup_keys [OF assms] by (auto simp: restrict_map_def fun_eq_iff)
next
  case (Suc m)
  {
    case 4
    from Suc show ?case
      by (auto simp: oldest_lookup restrict_map_def fun_eq_iff dest: in_set_butlastD)
  }
qed (use assms in \<open>simp_all add: oldest_inv oldest_keys\<close>)

lemma take_diff: "take (length xs - (length xs - n)) xs = take n xs"
  by (cases "n \<le> length xs") simp_all

lemma purge_keys: "inv c \<Longrightarrow> keys ((remove_oldest ^^ (len c - n)) c) = take n (keys c)"
  by (simp add: oldest_pow(3) butlast_pow len_keys take_diff)

lemma purge_lookup: "inv c \<Longrightarrow> lookup ((remove_oldest ^^ (len c - n)) c) = (lookup c) |` set (take n (keys c))"
  by (simp add: oldest_pow(4) butlast_pow len_keys take_diff)

end

subsection \<open>The cache keeps the contract\<close>

lemma map_of_filter_ne: "map_of (filter (\<lambda>e. fst e \<noteq> k) xs) = (map_of xs)(k := None)"
  by (induction xs) (auto simp: fun_eq_iff)

lemma map_fst_filter: "map fst (filter (\<lambda>e. fst e \<noteq> k) xs) = filter (\<lambda>x. x \<noteq> k) (map fst xs)"
  by (induction xs) auto

lemma length_filter_key:
  "distinct (map fst xs) \<Longrightarrow> map_of xs k = Some v \<Longrightarrow> Suc (length (filter (\<lambda>e. fst e \<noteq> k) xs)) = length xs"
proof (induction xs)
  case (Cons x xs)
  then show ?case by (auto simp: filter_id_conv split: if_splits) (metis (mono_tags, lifting) filter_True image_eqI)
qed simp

lemma map_of_butlast:
  "distinct (map fst xs) \<Longrightarrow> map_of (butlast xs) = (map_of xs) |` set (butlast (map fst xs))"
proof (induction xs)
  case (Cons x xs)
  then show ?case
    by (auto simp: restrict_map_def fun_eq_iff map_butlast dest: in_set_butlastD)
qed simp

lemma map_of_write:
  "map_of (map (\<lambda>e. if fst e = k then (k, v) else e) xs) =
     (if map_of xs k = None then map_of xs else (map_of xs)(k \<mapsto> v))"
  by (induction xs) (auto simp: fun_eq_iff)

lemma fst_write: "map fst (map (\<lambda>e. if fst e = k then (k, v) else e) xs) = map fst xs"
  by (induction xs) auto

lemma lru_lookup_eq: "lru_lookup c = map_of (lru_items c)"
  by (simp add: lru_lookup_def fun_eq_iff)

lemmas lru_defs = lru_len_def move_to_front_def lru_remove_oldest_def lru_add_def lru_get_def lru_remove_def
  lru_write_def lru_keys_def lru_lookup_def lru_inv_def

interpretation lru: lru_cache lru_lookup lru_keys lru_inv "\<lambda>c. nat (lru_size c)" lru_len
  lru_get lru_add lru_remove lru_remove_oldest lru_write
proof (unfold_locales, goal_cases)
  case (1 c) then show ?case by (simp add: lru_defs)
next
  case (2 c k) then show ?case by (simp add: lru_defs map_of_eq_None_iff)
next
  case (3 c) then show ?case by (simp add: lru_defs)
next
  case (4 k c) then show ?case by (simp add: lru_defs split: option.split)
next
  case (5 k c) then show ?case by (auto simp: lru_defs map_fst_filter split: option.split)
next
  case (6 c k) then show ?case by (auto simp: lru_defs map_of_filter_ne fun_eq_iff split: option.split)
next
  case (7 c k)
  then show ?case
    using length_filter_key by (fastforce simp: lru_defs map_fst_filter split: option.split)
next
  case (8 c k v)
  then show ?case
    by (auto simp: lru_defs map_fst_filter Let_def map_of_eq_None_iff split: option.split
        intro!: filter_True [symmetric])
next
  case (9 c k v)
  then show ?case by (auto simp: lru_defs map_of_filter_ne fun_eq_iff Let_def split: option.split)
next
  case (10 c k v)
  show ?case
  proof (cases "map_of (lru_items c) k")
    case None
    then have "k \<notin> set (map fst (lru_items c))" by (simp add: map_of_eq_None_iff)
    then have "distinct (map fst ((k, v) # lru_items c))" using 10 by (simp add: lru_defs)
    then have "distinct (butlast (map fst ((k, v) # lru_items c)))" by (rule distinct_butlast)
    with 10 None \<open>k \<notin> _\<close> show ?thesis by (auto simp: lru_defs Let_def map_butlast)
  next
    case (Some w)
    with 10 length_filter_key [of "lru_items c" k w] show ?thesis
      by (auto simp: lru_defs map_fst_filter)
  qed
next
  case (11 k c) then show ?case by (simp add: lru_defs map_fst_filter)
next
  case (12 c k) then show ?case by (simp add: lru_defs map_of_filter_ne fun_eq_iff)
next
  case (13 c k)
  have "int (length (filter (\<lambda>e. fst e \<noteq> k) (lru_items c))) \<le> int (length (lru_items c))"
    by (simp only: of_nat_le_iff length_filter_le)
  moreover from 13 have "int (length (lru_items c)) \<le> lru_size c" by (simp add: lru_inv_def)
  ultimately have "int (length (filter (\<lambda>e. fst e \<noteq> k) (lru_items c))) \<le> lru_size c"
    by (rule order_trans)
  with 13 show ?case by (simp add: lru_inv_def lru_remove_def map_fst_filter)
next
  case (14 c) then show ?case by (simp add: lru_defs map_butlast)
next
  case (15 c) then show ?case by (simp add: lru_defs map_of_butlast fun_eq_iff restrict_map_def)
next
  case (16 c) then show ?case by (auto simp: lru_defs map_butlast distinct_butlast)
next
  case (17 k v c) then show ?case by (simp only: lru_defs lru.simps fst_write lru.surjective) (simp add: fst_write del: map_map)
next
  case (18 c k v) then show ?case by (simp add: lru_lookup_eq lru_write_def map_of_write)
next
  case (19 c k v) then show ?case by (simp add: lru_defs fst_write del: map_map)
qed

end
