(* ===== verification/Proc_Harvest.thy ===== *)
theory Proc_Harvest
  imports Proc_Snapshot Lru_Cache
begin

text \<open>
  The process harvester and its collector (pkg/internal/infraolly/process: harvest.go,
  collect.go, status.go; pkg/export/otel/bexport/features.go).

  A process snapshot lives on the heap and the cache of the harvester holds pointers to
  snapshots: a harvest that reuses the cached snapshot updates it in place, which is an
  \<^const>\<open>lru_write\<close>. What the operating system answers about a process at one moment is a
  \<open>proc_view\<close>, and what it answers about all of them a function from PIDs to views.
\<close>

subsection \<open>Services and features\<close>

text \<open>\<open>svc.UID\<close> and the part of \<open>svc.Attrs\<close> that the process pipeline reads.\<close>

record service_uid =
  u_name :: string
  u_namespace :: string
  u_instance :: string

record service_attrs =
  sa_uid :: service_uid
  sa_pid :: int
  sa_host :: string
  sa_features :: "64 word"
  sa_metadata :: strmap

definition service_job :: "'a service_attrs_scheme \<Rightarrow> string" where
  "service_job s =
     (if u_namespace (sa_uid s) \<noteq> [] then u_namespace (sa_uid s) @ ''/'' @ u_name (sa_uid s)
      else u_name (sa_uid s))"

definition feature_process :: "64 word" where
  "feature_process = drop_bit 0 (push_bit 63 1)"

definition features_has :: "64 word \<Rightarrow> 64 word \<Rightarrow> bool" where
  "features_has src flags \<longleftrightarrow> and src flags = flags"

definition features_any :: "64 word \<Rightarrow> 64 word \<Rightarrow> bool" where
  "features_any src flags \<longleftrightarrow> and src flags \<noteq> 0"

subsection \<open>Status\<close>

record process_id =
  id_service :: service_attrs
  id_uid :: service_uid
  id_pid :: int
  id_ppid :: int
  id_user :: string
  id_command :: string
  id_args :: "string list"
  id_line :: string
  id_exec_name :: string
  id_exec_path :: string

record 'f status =
  s_id :: process_id
  s_cpu_delta :: "'f cpu_info"
  s_cpu_utilisation :: "'f cpu_info"
  s_rss :: int
  s_vms :: int
  s_rss_delta :: int
  s_vms_delta :: int
  s_status :: string
  s_threads :: int
  s_fds :: int
  s_read_count :: "64 word"
  s_write_count :: "64 word"
  s_read_delta :: "64 word"
  s_write_delta :: "64 word"
  s_tx_delta :: int
  s_rx_delta :: int

definition new_status :: "'f machine \<Rightarrow> int \<Rightarrow> service_attrs \<Rightarrow> 'f status" where
  "new_status m pid s =
     \<lparr>s_id = \<lparr>id_service = s,
              id_uid = \<lparr>u_name = u_name (sa_uid s), u_namespace = u_namespace (sa_uid s),
                        u_instance = u_instance (sa_uid s) @ '':'' @ itoa pid\<rparr>,
              id_pid = pid, id_ppid = 0, id_user = [], id_command = [], id_args = [], id_line = [],
              id_exec_name = [], id_exec_path = []\<rparr>,
      s_cpu_delta = zero_cpu m, s_cpu_utilisation = zero_cpu m, s_rss = 0, s_vms = 0, s_rss_delta = 0,
      s_vms_delta = 0, s_status = [], s_threads = 0, s_fds = 0, s_read_count = 0, s_write_count = 0,
      s_read_delta = 0, s_write_delta = 0, s_tx_delta = 0, s_rx_delta = 0\<rparr>"

text \<open>The attribute getters; the OTEL ones are a placeholder that knows no attribute.\<close>

definition otel_getter :: "string \<Rightarrow> ('f status \<Rightarrow> string) option" where
  "otel_getter name = None"

definition prom_getter :: "string \<Rightarrow> ('f status \<Rightarrow> string) option" where
  "prom_getter name =
     (if name = ''host.name'' then Some (\<lambda>s. sa_host (id_service (s_id s)))
      else if name = ''process.command'' then Some (\<lambda>s. id_command (s_id s))
      else if name = ''process.command_line'' then Some (\<lambda>s. id_line (s_id s))
      else if name = ''process.executable.name'' then Some (\<lambda>s. id_exec_name (s_id s))
      else if name = ''process.executable.path'' then Some (\<lambda>s. id_exec_path (s_id s))
      else if name = ''process.command_args'' then Some (\<lambda>s. join '','' (id_args (s_id s)))
      else if name = ''process.owner'' then Some (\<lambda>s. id_user (s_id s))
      else if name = ''process.parent_pid'' then Some (\<lambda>s. itoa (id_ppid (s_id s)))
      else if name = ''process.pid'' then Some (\<lambda>s. itoa (id_pid (s_id s)))
      else if name \<in> {''cpu.mode'', ''disk.io.direction'', ''network.io.direction''} then None
      else if name = ''instance'' then Some (\<lambda>s. u_instance (id_uid (s_id s)))
      else if name = ''job'' then Some (\<lambda>s. service_job (id_service (s_id s)))
      else Some (\<lambda>s. mstr (sa_metadata (id_service (s_id s))) name))"

subsection \<open>A process snapshot\<close>

record io_counters =
  read_count :: "64 word"
  write_count :: "64 word"
  read_bytes :: "64 word"
  write_bytes :: "64 word"

record 'f linux_process =
  lp_privileged :: bool
  lp_pid :: int
  lp_stats :: "'f proc_stats"
  lp_prev_stats :: "'f proc_stats"
  lp_time :: int
  lp_prev_time :: int
  lp_prev_io :: "io_counters option"
  lp_prev_rx :: int
  lp_prev_tx :: int
  lp_user :: string
  lp_fetched :: bool
  lp_command :: command_info

record proc_view =
  pv_now :: int
  pv_stat :: "string + string"
  pv_process :: "string + unit"
  pv_cmdline :: "string + string"
  pv_user :: "string + string"
  pv_uids :: "string + int list"
  pv_getent :: "int \<Rightarrow> string + string"
  pv_fd_dir :: "string + nat \<times> string option"
  pv_io :: "string + io_counters"
  pv_net_dev :: "string + string"

definition zero_stats :: "'f machine \<Rightarrow> 'f proc_stats" where
  "zero_stats m = \<lparr>st_command = [], st_ppid = 0, st_num_threads = 0, st_state = [], st_vm_rss = 0,
                   st_vm_size = 0, st_cpu = zero_cpu m\<rparr>"

definition new_process :: "'f machine \<Rightarrow> 'f proc_stats \<Rightarrow> int \<Rightarrow> bool \<Rightarrow> int \<Rightarrow> 'f linux_process" where
  "new_process m current pid privileged now =
     \<lparr>lp_privileged = privileged, lp_pid = pid, lp_stats = current, lp_prev_stats = zero_stats m,
      lp_time = now, lp_prev_time = now, lp_prev_io = None, lp_prev_rx = 0, lp_prev_tx = 0,
      lp_user = [], lp_fetched = False, lp_command = no_command\<rparr>"

text \<open>
  \<open>getLinuxProcess\<close>: the snapshot, and whether it is the cached one (the pointer that was
  passed in). A snapshot is reused where neither the command nor the parent changed.
\<close>

definition same_process :: "'f proc_stats \<Rightarrow> 'f linux_process \<Rightarrow> bool" where
  "same_process current p \<longleftrightarrow>
     \<not> (st_command current \<noteq> st_command (lp_stats p) \<or> st_ppid current \<noteq> st_ppid (lp_stats p))"

definition get_linux_process ::
    "'f machine \<Rightarrow> 'f linux_process option \<Rightarrow> int \<Rightarrow> bool \<Rightarrow> proc_view \<Rightarrow> proc_error + bool \<times> 'f linux_process" where
  "get_linux_process m cached pid privileged v =
     (case read_proc_stat m (pv_stat v) of
        Inl e \<Rightarrow> Inl e
      | Inr current \<Rightarrow>
          (case (case cached of None \<Rightarrow> None | Some p \<Rightarrow> if same_process current p then Some p else None) of
             None \<Rightarrow> (case pv_process v of
                 Inl e \<Rightarrow> Inl (ProcessGone e)
               | Inr _ \<Rightarrow> Inr (False, new_process m current pid privileged (pv_now v)))
           | Some p \<Rightarrow> Inr (True, p\<lparr>lp_prev_time := lp_time p, lp_stats := current, lp_time := pv_now v\<rparr>)))"

text \<open>\<open>fetchCommandInfo\<close>, \<open>IOCounters\<close> and \<open>NumFDs\<close>.\<close>

definition fetch_command_info :: "proc_view \<Rightarrow> 'f linux_process \<Rightarrow> 'f linux_process" where
  "fetch_command_info v p =
     (if lp_fetched p then p
      else p\<lparr>lp_fetched := True,
             lp_command := command_info_of (case pv_cmdline v of Inl _ \<Rightarrow> [] | Inr c \<Rightarrow> c)\<rparr>)"

definition io_counters_of :: "proc_view \<Rightarrow> 'f linux_process \<Rightarrow> string + io_counters option" where
  "io_counters_of v p =
     (if \<not> lp_privileged p then Inr None else case pv_io v of Inl e \<Rightarrow> Inl e | Inr c \<Rightarrow> Inr (Some c))"

definition num_fds :: "proc_view \<Rightarrow> 'f linux_process \<Rightarrow> int" where
  "num_fds v p =
     (if \<not> lp_privileged p then -1
      else case pv_fd_dir v of Inl e \<Rightarrow> 0 | Inr (n, _) \<Rightarrow> sint (word_of_nat n :: 32 word))"

subsection \<open>Harvesting a process\<close>

definition populate_static_data ::
    "proc_view \<Rightarrow> 'f linux_process \<Rightarrow> 'f status \<Rightarrow> 'f linux_process \<times> 'f status" where
  "populate_static_data v p s =
     (let p = fetch_command_info v p;
          user = username (lp_user p) (pv_user v) (pv_uids v) (pv_getent v);
          p = p\<lparr>lp_user := user\<rparr>;
          i = s_id s
      in (p, s\<lparr>s_id := i\<lparr>id_command := st_command (lp_stats p), id_args := ci_args (lp_command p),
                         id_line := ci_line (lp_command p), id_exec_path := ci_exec_path (lp_command p),
                         id_exec_name := ci_exec_name (lp_command p), id_pid := lp_pid p, id_user := user,
                         id_ppid := st_ppid (lp_stats p)\<rparr>\<rparr>))"

definition cpu_combine :: "('f \<Rightarrow> 'f \<Rightarrow> 'f) \<Rightarrow> 'f cpu_info \<Rightarrow> 'f cpu_info \<Rightarrow> 'f cpu_info" where
  "cpu_combine f a b = \<lparr>user_time = f (user_time a) (user_time b), system_time = f (system_time a) (system_time b),
                       wait_time = f (wait_time a) (wait_time b)\<rparr>"

definition populate_gauges ::
    "'f machine \<Rightarrow> bool \<Rightarrow> proc_view \<Rightarrow> 'f linux_process \<Rightarrow> 'f status \<Rightarrow> 'f status" where
  "populate_gauges m privileged v p s =
     (let cur = lp_stats p; prev = lp_prev_stats p;
          s = (if cpu_eq m (st_cpu prev) (zero_cpu m) then s
               else let d = cpu_combine (f_sub m) (st_cpu cur) (st_cpu prev);
                        delta = f_mul m (f_seconds m (lp_time p - lp_prev_time p)) (f_of_int m (num_cpu m))
                    in s\<lparr>s_cpu_delta := d,
                        s_cpu_utilisation := \<lparr>user_time = f_div m (user_time d) delta,
                          system_time = f_div m (system_time d) delta, wait_time = f_div m (wait_time d) delta\<rparr>\<rparr>);
          s = (if privileged then s\<lparr>s_fds := num_fds v p\<rparr> else s)
      in s\<lparr>s_status := st_state cur, s_threads := st_num_threads cur,
           s_vms := st_vm_size cur, s_vms_delta := wrap64 (st_vm_size cur - st_vm_size prev),
           s_rss := st_vm_rss cur, s_rss_delta := wrap64 (st_vm_rss cur - st_vm_rss prev)\<rparr>)"

definition populate_io_counters ::
    "proc_view \<Rightarrow> 'f linux_process \<Rightarrow> 'f status \<Rightarrow> 'f linux_process \<times> 'f status" where
  "populate_io_counters v p s =
     (let previous = (case lp_prev_io p of
            None \<Rightarrow> \<lparr>read_count = 0, write_count = 0, read_bytes = 0, write_bytes = 0\<rparr>
          | Some c \<Rightarrow> c)
      in case io_counters_of v p of
           Inl e \<Rightarrow> (p, s)
         | Inr io \<Rightarrow>
             (p\<lparr>lp_prev_io := io\<rparr>,
              case io of None \<Rightarrow> s
              | Some c \<Rightarrow> s\<lparr>s_read_count := read_count c, s_write_count := write_count c,
                          s_read_delta := read_bytes c - read_bytes previous,
                          s_write_delta := write_bytes c - write_bytes previous\<rparr>))"

definition populate_network_info ::
    "proc_view \<Rightarrow> 'f linux_process \<Rightarrow> 'f status \<Rightarrow> 'f linux_process \<times> 'f status" where
  "populate_network_info v p s =
     (case pv_net_dev v of
        Inl e \<Rightarrow> (p, s)
      | Inr content \<Rightarrow>
          (let (rx, tx) = parse_proc_net_dev content;
               s = (if rx \<le> lp_prev_rx p \<or> tx \<le> lp_prev_tx p
                    then s\<lparr>s_rx_delta := 0, s_tx_delta := 0\<rparr>
                    else s\<lparr>s_rx_delta := wrap64 (rx - lp_prev_rx p), s_tx_delta := wrap64 (tx - lp_prev_tx p)\<rparr>)
           in (p\<lparr>lp_prev_rx := rx, lp_prev_tx := tx\<rparr>, s)))"

text \<open>
  What \<open>Harvest\<close> does with a snapshot that it got: the status, and the snapshot as the next
  harvest finds it.
\<close>

definition sample_process ::
    "'f machine \<Rightarrow> bool \<Rightarrow> proc_view \<Rightarrow> service_attrs \<Rightarrow> 'f linux_process \<Rightarrow> 'f linux_process \<times> 'f status" where
  "sample_process m privileged v svc p =
     (let (p, s) = populate_static_data v p (new_status m (sa_pid svc) svc);
          s = populate_gauges m privileged v p s;
          (p, s) = populate_io_counters v p s;
          (p, s) = populate_network_info v p s
      in (p\<lparr>lp_prev_stats := lp_stats p\<rparr>, s))"

text \<open>
  \<open>Harvest\<close>. The errors of the steps after the first one are only logged. A new snapshot is
  added to the cache where the cache had no entry; what is written to the snapshot
  afterwards is in the cache where the cache holds this very snapshot.
\<close>

type_synonym 'f proc_cache = "(int, 'f linux_process) lru"

definition harvest ::
    "'f machine \<Rightarrow> bool \<Rightarrow> (int \<Rightarrow> proc_view) \<Rightarrow> service_attrs \<Rightarrow> 'f proc_cache \<Rightarrow> 'f proc_cache \<times> (proc_error + 'f status)" where
  "harvest m privileged world svc cache =
     (let pid = sa_pid svc; v = world pid; (cache, cached) = lru_get pid cache
      in case get_linux_process m cached pid privileged v of
           Inl e \<Rightarrow> (cache, Inl e)
         | Inr (reused, p) \<Rightarrow>
             let (p', s) = sample_process m privileged v svc p
             in (if cached = None then lru_write pid p' (lru_add pid p cache)
                 else if reused then lru_write pid p' cache
                 else cache, Inr s))"

subsection \<open>The collector\<close>

type_synonym pid_map = "(int, service_attrs) gomap"

fun collect_loop ::
    "'f machine \<Rightarrow> bool \<Rightarrow> (int \<Rightarrow> proc_view) \<Rightarrow> pid_map \<Rightarrow> 'f proc_cache \<Rightarrow> 'f status list \<Rightarrow> int list
     \<Rightarrow> 'f proc_cache \<times> 'f status list \<times> int list" where
  "collect_loop m priv world [] cache results removed = (cache, results, removed)"
| "collect_loop m priv world ((pid, svc) # pids) cache results removed =
     (case harvest m priv world svc cache of
        (cache, Inl e) \<Rightarrow> collect_loop m priv world pids (lru_remove pid cache) results (removed @ [pid])
      | (cache, Inr s) \<Rightarrow> collect_loop m priv world pids cache (results @ [s]) removed)"

definition collect ::
    "'f machine \<Rightarrow> bool \<Rightarrow> (int \<Rightarrow> proc_view) \<Rightarrow> pid_map \<Rightarrow> 'f proc_cache \<Rightarrow> 'f proc_cache \<times> 'f status list \<times> int list" where
  "collect m priv world pids cache =
     (case collect_loop m priv world pids cache [] [] of
        (cache, results, removed) \<Rightarrow> (lru_purge (length results) cache, results, removed))"

text \<open>
  \<open>Run\<close>: what it receives in one turn of its loop, and what the turn does to the PIDs, the
  cache and the queue of the collected processes. Of a span the collector reads the service.
\<close>

datatype collector_event = Spans "service_attrs list" | Tick "int \<Rightarrow> proc_view"

record 'f collector =
  c_pids :: pid_map
  c_cache :: "'f proc_cache"
  c_sent :: "'f status list list"

fun note_spans :: "pid_map \<Rightarrow> service_attrs list \<Rightarrow> pid_map" where
  "note_spans pids [] = pids"
| "note_spans pids (s # spans) =
     note_spans (if \<not> features_any (sa_features s) feature_process then pids else mput pids (sa_pid s) s) spans"

fun collector_turn :: "'f machine \<Rightarrow> bool \<Rightarrow> collector_event \<Rightarrow> 'f collector \<Rightarrow> 'f collector" where
  "collector_turn m priv (Spans spans) c = c\<lparr>c_pids := note_spans (c_pids c) spans\<rparr>"
| "collector_turn m priv (Tick world) c =
     (case collect m priv world (c_pids c) (c_cache c) of
        (cache, procs, removed) \<Rightarrow>
          c\<lparr>c_pids := fold (\<lambda>pid pids. mdel pids pid) removed (c_pids c), c_cache := cache,
            c_sent := c_sent c @ [procs]\<rparr>)"

definition new_collector :: "'f proc_cache \<Rightarrow> 'f collector" where
  "new_collector cache = \<lparr>c_pids = [], c_cache = cache, c_sent = []\<rparr>"

text \<open>A cache as \<open>NewCollectorProvider\<close> makes it, of the size \<open>math.MaxInt\<close>.\<close>

definition empty_proc_cache :: "'f proc_cache" where
  "empty_proc_cache = \<lparr>lru_size = 2 ^ 63 - 1, lru_items = []\<rparr>"

subsection \<open>What a harvest yields\<close>

text \<open>
  The specification of a harvest over what the cache holds for the process: an error, or the
  snapshot that the cache holds afterwards and the status.
\<close>

definition harvest_outcome ::
    "'f machine \<Rightarrow> bool \<Rightarrow> proc_view \<Rightarrow> service_attrs \<Rightarrow> 'f linux_process option
     \<Rightarrow> proc_error + 'f linux_process \<times> 'f status" where
  "harvest_outcome m priv v svc cached =
     (case get_linux_process m cached (sa_pid svc) priv v of
        Inl e \<Rightarrow> Inl e
      | Inr (reused, p) \<Rightarrow>
          (case sample_process m priv v svc p of
             (p', s) \<Rightarrow> Inr (case cached of None \<Rightarrow> p' | Some old \<Rightarrow> if reused then p' else old, s)))"

lemma reused_cached:
  "get_linux_process m cached pid priv v = Inr (True, p) \<Longrightarrow> \<exists>old. cached = Some old"
  by (auto simp: get_linux_process_def split: sum.splits option.splits if_splits)

lemma harvest_spec:
  assumes inv: "lru_inv c" and room: "length (lru_keys c) < nat (lru_size c)"
  obtains c' where
    "harvest m priv world svc c = (c', map_sum id snd (harvest_outcome m priv (world (sa_pid svc)) svc (lru_lookup c (sa_pid svc))))"
    "lru_inv c'" "nat (lru_size c') = nat (lru_size c)"
    "lru_lookup c' = (case harvest_outcome m priv (world (sa_pid svc)) svc (lru_lookup c (sa_pid svc)) of
        Inl e \<Rightarrow> lru_lookup c | Inr (p, s) \<Rightarrow> (lru_lookup c)(sa_pid svc \<mapsto> p))"
    "filter (\<lambda>k. k \<noteq> sa_pid svc) (lru_keys c') = filter (\<lambda>k. k \<noteq> sa_pid svc) (lru_keys c)"
    "\<And>p s. harvest_outcome m priv (world (sa_pid svc)) svc (lru_lookup c (sa_pid svc)) = Inr (p, s) \<Longrightarrow>
      lru_keys c' = sa_pid svc # filter (\<lambda>k. k \<noteq> sa_pid svc) (lru_keys c)"
proof -
  let ?pid = "sa_pid svc" and ?v = "world (sa_pid svc)"
  obtain g cached where g: "lru_get ?pid c = (g, cached)" by (cases "lru_get ?pid c")
  have cached: "cached = lru_lookup c ?pid" using lru.get_value [of ?pid c] g by simp
  have gi: "lru_inv g" "nat (lru_size g) = nat (lru_size c)" using lru.get_inv [OF inv, of ?pid] g by simp_all
  have gl: "lru_lookup g = lru_lookup c" using lru.get_lookup [OF inv, of ?pid] g by simp
  have gk: "lru_keys g = (if lru_lookup c ?pid = None then lru_keys c else ?pid # filter (\<lambda>k. k \<noteq> ?pid) (lru_keys c))"
    using lru.get_keys [of ?pid c] g by simp
  show ?thesis
  proof (cases "get_linux_process m cached ?pid priv ?v")
    case (Inl e)
    show ?thesis
      by (rule that [of g])
         (use Inl gi gl gk g cached in \<open>auto simp: harvest_def harvest_outcome_def Let_def filter_id_conv\<close>)
  next
    case (Inr r)
    obtain reused p where r: "r = (reused, p)" by (cases r)
    obtain p' s where ps: "sample_process m priv ?v svc p = (p', s)" by (cases "sample_process m priv ?v svc p")
    show ?thesis
    proof (cases cached)
      case None
      then have notin: "?pid \<notin> set (lru_keys c)" and room': "length (lru_keys g) < nat (lru_size g)"
        using lru.lookup_keys [OF inv, of ?pid] cached gk gi room by simp_all
      define a where "a = lru_add ?pid p g"
      have a: "lru_keys a = ?pid # filter (\<lambda>k. k \<noteq> ?pid) (lru_keys g)" "lru_lookup a = (lru_lookup g)(?pid \<mapsto> p)"
        "lru_inv a" "nat (lru_size a) = nat (lru_size g)"
        unfolding a_def using lru.add_keys [OF gi(1) room'] lru.add_lookup [OF gi(1) room'] lru.add_inv [OF gi(1)] by auto
      show ?thesis
        by (rule that [of "lru_write ?pid p' a"])
           (use Inr r ps None g cached gl gk gi a lru.overwrite_keys [of ?pid p' a] lru.overwrite_lookup [OF a(3), of ?pid p']
             lru.overwrite_inv [OF a(3), of ?pid p'] in
             \<open>simp_all add: harvest_def harvest_outcome_def a_def [symmetric]\<close>)
    next
      case (Some old)
      show ?thesis
      proof (cases reused)
        case True
        show ?thesis
          by (rule that [of "lru_write ?pid p' g"])
             (use Inr r ps Some True g cached gl gk gi lru.overwrite_keys [of ?pid p' g] lru.overwrite_lookup [OF gi(1), of ?pid p']
               lru.overwrite_inv [OF gi(1), of ?pid p'] in
               \<open>simp_all add: harvest_def harvest_outcome_def\<close>)
      next
        case False
        show ?thesis
          by (rule that [of g])
             (use Inr r ps Some False g cached gl gk gi in
               \<open>simp_all add: harvest_def harvest_outcome_def fun_upd_idem\<close>)
      qed
    qed
  qed
qed

subsection \<open>What a collection yields\<close>

text \<open>
  The specification of a collection, where the cache is a partial map \<open>f\<close>: every process is
  harvested from the entry that the cache had for it.
\<close>

definition harvested :: "'f machine \<Rightarrow> bool \<Rightarrow> (int \<Rightarrow> proc_view) \<Rightarrow> (int \<rightharpoonup> 'f linux_process) \<Rightarrow> service_attrs
     \<Rightarrow> ('f linux_process \<times> 'f status) option" where
  "harvested m priv world f svc =
     (case harvest_outcome m priv (world (sa_pid svc)) svc (f (sa_pid svc)) of Inl e \<Rightarrow> None | Inr r \<Rightarrow> Some r)"

definition statuses_of ::
    "'f machine \<Rightarrow> bool \<Rightarrow> (int \<Rightarrow> proc_view) \<Rightarrow> (int \<rightharpoonup> 'f linux_process) \<Rightarrow> pid_map \<Rightarrow> 'f status list" where
  "statuses_of m priv world f pids =
     concat (map (\<lambda>(pid, svc). case harvested m priv world f svc of None \<Rightarrow> [] | Some (p, s) \<Rightarrow> [s]) pids)"

definition alive ::
    "'f machine \<Rightarrow> bool \<Rightarrow> (int \<Rightarrow> proc_view) \<Rightarrow> (int \<rightharpoonup> 'f linux_process) \<Rightarrow> pid_map \<Rightarrow> int list" where
  "alive m priv world f pids = map fst (filter (\<lambda>(pid, svc). harvested m priv world f svc \<noteq> None) pids)"

definition gone ::
    "'f machine \<Rightarrow> bool \<Rightarrow> (int \<Rightarrow> proc_view) \<Rightarrow> (int \<rightharpoonup> 'f linux_process) \<Rightarrow> pid_map \<Rightarrow> int list" where
  "gone m priv world f pids = map fst (filter (\<lambda>(pid, svc). harvested m priv world f svc = None) pids)"

definition snapshots_of ::
    "'f machine \<Rightarrow> bool \<Rightarrow> (int \<Rightarrow> proc_view) \<Rightarrow> (int \<rightharpoonup> 'f linux_process) \<Rightarrow> pid_map \<Rightarrow> (int \<rightharpoonup> 'f linux_process)" where
  "snapshots_of m priv world f pids =
     (\<lambda>k. case mget pids k of None \<Rightarrow> None | Some svc \<Rightarrow> map_option fst (harvested m priv world f svc))"

lemmas collection_defs = statuses_of_def alive_def gone_def snapshots_of_def

lemma collection_Cons:
  "statuses_of m priv world f ((pid, svc) # pids) =
     (case harvested m priv world f svc of None \<Rightarrow> [] | Some r \<Rightarrow> [snd r]) @ statuses_of m priv world f pids"
  "gone m priv world f ((pid, svc) # pids) =
     (if harvested m priv world f svc = None then [pid] else []) @ gone m priv world f pids"
  by (simp_all add: statuses_of_def gone_def split: option.split)

lemma length_statuses: "length (statuses_of m priv world f pids) = length (alive m priv world f pids)"
  by (induction pids) (auto simp: collection_defs split: option.split)

lemma collection_cong:
  assumes "\<And>pid svc. (pid, svc) \<in> set pids \<Longrightarrow> f (sa_pid svc) = g (sa_pid svc)"
  shows "statuses_of m priv world f pids = statuses_of m priv world g pids"
    and "alive m priv world f pids = alive m priv world g pids"
    and "gone m priv world f pids = gone m priv world g pids"
proof -
  have h: "harvested m priv world f svc = harvested m priv world g svc" if "(pid, svc) \<in> set pids" for pid svc
    using assms [OF that] by (simp add: harvested_def)
  show "statuses_of m priv world f pids = statuses_of m priv world g pids"
    unfolding statuses_of_def by (rule arg_cong [OF map_cong [OF refl]]) (use h in auto)
  show "alive m priv world f pids = alive m priv world g pids"
    unfolding alive_def by (rule arg_cong [OF filter_cong [OF refl]]) (use h in auto)
  show "gone m priv world f pids = gone m priv world g pids"
    unfolding gone_def by (rule arg_cong [OF filter_cong [OF refl]]) (use h in auto)
qed

definition keyed :: "pid_map \<Rightarrow> bool" where
  "keyed pids \<longleftrightarrow> wf_map pids \<and> (\<forall>(pid, svc) \<in> set pids. sa_pid svc = pid)"

lemma keyed_Cons: "keyed ((pid, svc) # pids) \<longleftrightarrow> pid \<notin> fst ` set pids \<and> sa_pid svc = pid \<and> keyed pids"
  by (auto simp: keyed_def wf_map_Cons)

lemma collect_loop_spec:
  assumes "lru_inv c" and "keyed pids" and "length (lru_keys c) + length pids < nat (lru_size c)"
  shows "\<exists>c'. collect_loop m priv world pids c rs rm =
      (c', rs @ statuses_of m priv world (lru_lookup c) pids, rm @ gone m priv world (lru_lookup c) pids) \<and>
    lru_inv c' \<and> nat (lru_size c') = nat (lru_size c) \<and>
    lru_lookup c' = (\<lambda>k. if k \<in> fst ` set pids then snapshots_of m priv world (lru_lookup c) pids k else lru_lookup c k) \<and>
    lru_keys c' = rev (alive m priv world (lru_lookup c) pids) @ filter (\<lambda>k. k \<notin> fst ` set pids) (lru_keys c)"
  using assms
proof (induction pids arbitrary: c rs rm)
  case Nil
  then show ?case by (auto simp: collection_defs)
next
  case (Cons e pids)
  obtain pid svc where e: "e = (pid, svc)" by (cases e)
  have pid: "sa_pid svc = pid" "pid \<notin> fst ` set pids" and keyed: "keyed pids"
    using Cons.prems(2) by (auto simp: e keyed_Cons)
  let ?o = "harvest_outcome m priv (world pid) svc (lru_lookup c pid)"
  have "length (lru_keys c) < nat (lru_size c)" using Cons.prems(3) by simp
  from harvest_spec [OF Cons.prems(1) this, of m priv world svc, unfolded pid(1)]
  obtain h where h: "harvest m priv world svc c = (h, map_sum id snd ?o)" "lru_inv h"
    "nat (lru_size h) = nat (lru_size c)"
    "lru_lookup h = (case ?o of Inl e \<Rightarrow> lru_lookup c | Inr (p, s) \<Rightarrow> (lru_lookup c)(pid \<mapsto> p))"
    "filter (\<lambda>k. k \<noteq> pid) (lru_keys h) = filter (\<lambda>k. k \<noteq> pid) (lru_keys c)"
    and hk: "\<And>p s. ?o = Inr (p, s) \<Longrightarrow> lru_keys h = pid # filter (\<lambda>k. k \<noteq> pid) (lru_keys c)"
    by metis
  define d where "d = (case ?o of Inl e \<Rightarrow> lru_remove pid h | Inr r \<Rightarrow> h)"
  have d: "lru_inv d" "nat (lru_size d) = nat (lru_size c)"
    "lru_lookup d = (lru_lookup c)(pid := map_option fst (harvested m priv world (lru_lookup c) svc))"
    "lru_keys d = (if harvested m priv world (lru_lookup c) svc = None then [] else [pid]) @ filter (\<lambda>k. k \<noteq> pid) (lru_keys c)"
    using h hk lru.remove_inv [OF h(2), of pid] lru.remove_lookup [OF h(2), of pid] lru.remove_keys [of pid h]
    by (auto simp: d_def harvested_def pid(1) split: sum.splits prod.splits)
  have same: "lru_lookup d (sa_pid s) = lru_lookup c (sa_pid s)" if "(k, s) \<in> set pids" for k s
    using that keyed pid(2) d(3) by (force simp: keyed_def)
  have room: "length (lru_keys d) + length pids < nat (lru_size d)"
  proof -
    have "length (lru_keys d) \<le> Suc (length (filter (\<lambda>k. k \<noteq> pid) (lru_keys c)))" using d(4) by simp
    also have "\<dots> \<le> Suc (length (lru_keys c))" by (simp only: Suc_le_mono length_filter_le)
    finally show ?thesis using Cons.prems(3) d(2) by simp
  qed
  have cong: "statuses_of m priv world (lru_lookup d) pids = statuses_of m priv world (lru_lookup c) pids"
    "alive m priv world (lru_lookup d) pids = alive m priv world (lru_lookup c) pids"
    "gone m priv world (lru_lookup d) pids = gone m priv world (lru_lookup c) pids"
    by (rule collection_cong(1), rule same, assumption)
       (rule collection_cong(2), rule same, assumption, rule collection_cong(3), rule same, assumption)
  have snap: "snapshots_of m priv world (lru_lookup d) pids k = snapshots_of m priv world (lru_lookup c) pids k" for k
  proof (cases "mget pids k")
    case (Some svc)
    then show ?thesis using same [OF map_of_SomeD [OF Some]] by (simp add: snapshots_of_def harvested_def)
  qed (simp add: snapshots_of_def)
  have lookup: "(\<lambda>k. if k \<in> fst ` set pids then snapshots_of m priv world (lru_lookup c) pids k else lru_lookup d k) =
      (\<lambda>k. if k \<in> fst ` set (e # pids) then snapshots_of m priv world (lru_lookup c) (e # pids) k else lru_lookup c k)"
    using pid(2) d(3) by (auto simp: e fun_eq_iff snapshots_of_def map_of_eq_None_iff)
  have keys: "rev (alive m priv world (lru_lookup c) pids) @ filter (\<lambda>k. k \<notin> fst ` set pids) (lru_keys d) =
      rev (alive m priv world (lru_lookup c) (e # pids)) @ filter (\<lambda>k. k \<notin> fst ` set (e # pids)) (lru_keys c)"
    using pid(2) d(4) by (auto simp: e alive_def intro!: filter_cong)
  note IH = Cons.IH [OF d(1) keyed room, unfolded cong snap lookup keys d(2)]
  show ?case
  proof (cases ?o)
    case (Inl x)
    then have "harvested m priv world (lru_lookup c) svc = None" by (simp add: harvested_def pid(1))
    moreover from Inl h have "collect_loop m priv world (e # pids) c rs rm = collect_loop m priv world pids d rs (rm @ [pid])"
      by (simp add: e d_def)
    ultimately show ?thesis using IH [of rs "rm @ [pid]"] by (simp add: e collection_Cons del: list.set)
  next
    case (Inr r)
    then have "harvested m priv world (lru_lookup c) svc = Some r" by (simp add: harvested_def pid(1))
    moreover from Inr h have "collect_loop m priv world (e # pids) c rs rm = collect_loop m priv world pids d (rs @ [snd r]) rm"
      by (simp add: e d_def)
    ultimately show ?thesis using IH [of "rs @ [snd r]" rm] by (simp add: e collection_Cons del: list.set)
  qed
qed

lemma mem_alive: "keyed pids \<Longrightarrow> k \<in> set (alive m priv world f pids) \<longleftrightarrow> snapshots_of m priv world f pids k \<noteq> None"
proof -
  assume "keyed pids"
  then have "distinct (map fst pids)" by (simp add: keyed_def wf_map_def)
  have "k \<in> set (alive m priv world f pids) \<longleftrightarrow> (\<exists>svc. (k, svc) \<in> set pids \<and> harvested m priv world f svc \<noteq> None)"
    by (force simp: alive_def)
  also have "\<dots> \<longleftrightarrow> (\<exists>svc. mget pids k = Some svc \<and> harvested m priv world f svc \<noteq> None)"
    by (simp only: map_of_eq_Some_iff [OF \<open>distinct (map fst pids)\<close>])
  also have "\<dots> \<longleftrightarrow> snapshots_of m priv world f pids k \<noteq> None"
    by (auto simp: snapshots_of_def split: option.split)
  finally show ?thesis .
qed

lemma alive_subset: "set (alive m priv world f pids) \<subseteq> fst ` set pids"
  by (auto simp: alive_def)

lemma collect_spec:
  assumes "lru_inv c" and "keyed pids" and "length (lru_keys c) + length pids < nat (lru_size c)"
  obtains c' where
    "collect m priv world pids c =
      (c', statuses_of m priv world (lru_lookup c) pids, gone m priv world (lru_lookup c) pids)"
    "lru_inv c'" "nat (lru_size c') = nat (lru_size c)"
    "lru_lookup c' = snapshots_of m priv world (lru_lookup c) pids"
    "lru_keys c' = rev (alive m priv world (lru_lookup c) pids)"
proof -
  let ?alive = "alive m priv world (lru_lookup c) pids" and ?n = "length (alive m priv world (lru_lookup c) pids)"
  from collect_loop_spec [OF assms, of m priv world "[]" "[]"] obtain d where
    d: "collect_loop m priv world pids c [] [] =
        (d, statuses_of m priv world (lru_lookup c) pids, gone m priv world (lru_lookup c) pids)"
    "lru_inv d" "nat (lru_size d) = nat (lru_size c)"
    and l: "lru_lookup d = (\<lambda>k. if k \<in> fst ` set pids then snapshots_of m priv world (lru_lookup c) pids k else lru_lookup c k)"
    and k: "lru_keys d = rev ?alive @ filter (\<lambda>k. k \<notin> fst ` set pids) (lru_keys c)"
    by auto
  have keys: "lru_keys (lru_purge ?n d) = rev ?alive"
    using lru.purge_keys [OF d(2), of ?n] by (simp add: lru_purge_pow k)
  have "lru_lookup (lru_purge ?n d) = lru_lookup d |` set (rev ?alive)"
    using lru.purge_lookup [OF d(2), of ?n] by (simp add: lru_purge_pow k)
  also have "\<dots> = snapshots_of m priv world (lru_lookup c) pids"
    using mem_alive [OF assms(2), of _ m priv world "lru_lookup c"] alive_subset [of m priv world "lru_lookup c" pids]
    by (auto simp: restrict_map_def l fun_eq_iff)
  finally have look: "lru_lookup (lru_purge ?n d) = snapshots_of m priv world (lru_lookup c) pids" .
  have "lru_inv (lru_purge ?n d)" "nat (lru_size (lru_purge ?n d)) = nat (lru_size c)"
    using lru.oldest_pow(1,2) [OF d(2)] by (simp_all add: lru_purge_pow d(3))
  then show ?thesis
    by (intro that [of "lru_purge ?n d"]) (simp_all add: collect_def d(1) length_statuses keys look)
qed

subsection \<open>The runs of the collector\<close>

definition pid_ok :: "int \<Rightarrow> bool" where
  "pid_ok pid \<longleftrightarrow> 0 \<le> pid \<and> pid < 2 ^ 32"

fun event_ok :: "collector_event \<Rightarrow> bool" where
  "event_ok (Spans spans) = (\<forall>s \<in> set spans. pid_ok (sa_pid s))"
| "event_ok (Tick world) = True"

text \<open>The states that \<open>Run\<close> reaches; a PID is an unsigned 32-bit number.\<close>

inductive collector_run :: "'f machine \<Rightarrow> bool \<Rightarrow> 'f collector \<Rightarrow> bool" for m priv where
  start: "collector_run m priv (new_collector empty_proc_cache)"
| turn: "collector_run m priv c \<Longrightarrow> event_ok e \<Longrightarrow> collector_run m priv (collector_turn m priv e c)"

definition wants_process :: "service_attrs \<Rightarrow> bool" where
  "wants_process s \<longleftrightarrow> features_any (sa_features s) feature_process"

definition pids_ok :: "pid_map \<Rightarrow> bool" where
  "pids_ok pids \<longleftrightarrow> keyed pids \<and> (\<forall>(pid, svc) \<in> set pids. pid_ok pid \<and> wants_process svc)"

definition collector_inv :: "'f collector \<Rightarrow> bool" where
  "collector_inv c \<longleftrightarrow> pids_ok (c_pids c) \<and> lru_inv (c_cache c) \<and> nat (lru_size (c_cache c)) = 2 ^ 63 - 1 \<and>
     set (lru_keys (c_cache c)) \<subseteq> fst ` set (c_pids c) \<and>
     (\<forall>procs \<in> set (c_sent c). \<forall>s \<in> set procs. wants_process (id_service (s_id s)))"

lemma set_mput: "set (mput m k v) \<subseteq> insert (k, v) (set m)"
  by (induction m) auto

lemma keyed_mput: "keyed pids \<Longrightarrow> keyed (mput pids (sa_pid s) s)"
  using set_mput [of "sa_pid s" s pids] by (auto simp: keyed_def wf_map_mput)

lemma pids_ok_note: "pids_ok pids \<Longrightarrow> \<forall>s \<in> set spans. pid_ok (sa_pid s) \<Longrightarrow> pids_ok (note_spans pids spans)"
proof (induction pids spans rule: note_spans.induct)
  case (2 pids s spans)
  have "pids_ok (mput pids (sa_pid s) s)" if "wants_process s"
    using that 2(2,3) set_mput [of "sa_pid s" s pids] by (fastforce simp: pids_ok_def keyed_mput)
  with 2 show ?case by (auto simp: wants_process_def)
qed simp

lemma note_spans_keys: "fst ` set pids \<subseteq> fst ` set (note_spans pids spans)"
proof (induction pids spans rule: note_spans.induct)
  case (2 pids s spans)
  have "fst ` set pids \<subseteq> fst ` set (if \<not> features_any (sa_features s) feature_process then pids else mput pids (sa_pid s) s)"
    by (auto simp: fst_set_mput)
  with 2 show ?case unfolding note_spans.simps by (rule order_trans [rotated])
qed simp

lemma delete_filter: "mdel m k = filter (\<lambda>e. fst e \<noteq> k) m"
  by (induction m) auto

lemma pids_ok_mdel: "pids_ok pids \<Longrightarrow> pids_ok (fold (\<lambda>pid pids. mdel pids pid) ks pids)"
proof (induction ks arbitrary: pids)
  case (Cons k ks)
  have "pids_ok (mdel pids k)"
    using Cons.prems wf_map_mdel [of pids k] by (auto simp: pids_ok_def keyed_def delete_filter)
  with Cons.IH show ?case by simp
qed simp

lemma mdel_keys: "fst ` set (fold (\<lambda>pid pids. mdel pids pid) ks pids) = fst ` set pids - set ks"
  by (induction ks arbitrary: pids) (auto simp: delete_filter image_iff)

lemma pids_okD: "pids_ok pids \<Longrightarrow> k \<in> fst ` set pids \<Longrightarrow> pid_ok k"
  by (auto simp: pids_ok_def)

lemma pid_ok_length: "distinct ks \<Longrightarrow> \<forall>k \<in> set ks. pid_ok k \<Longrightarrow> length ks \<le> 2 ^ 32"
proof -
  assume "distinct ks" and "\<forall>k \<in> set ks. pid_ok k"
  then have "length ks = card (set ks)" and "set ks \<subseteq> {0..<2 ^ 32}"
    by (auto simp: distinct_card pid_ok_def)
  with card_mono [of "{0..<2 ^ 32 :: int}" "set ks"] show ?thesis by simp
qed

lemma pids_room:
  assumes "pids_ok pids" and "lru_inv c" and "nat (lru_size c) = 2 ^ 63 - 1" and "set (lru_keys c) \<subseteq> fst ` set pids"
  shows "length (lru_keys c) + length pids < nat (lru_size c)"
proof -
  have "length (map fst pids) \<le> 2 ^ 32"
    using assms(1) by (intro pid_ok_length) (auto simp: pids_ok_def keyed_def wf_map_def)
  moreover have "length (lru_keys c) \<le> 2 ^ 32"
    using assms pids_okD by (intro pid_ok_length) (auto simp: lru.keys_distinct)
  ultimately show ?thesis using assms(3) by simp
qed
lemma new_status_service [simp]: "id_service (s_id (new_status m pid svc)) = svc"
  by (simp add: new_status_def)

text \<open>What the steps of a harvest leave alone, and the numbers they set.\<close>

lemma static_data_facts:
  assumes "populate_static_data v p s = (p', s')"
  shows "id_service (s_id s') = id_service (s_id s)" "lp_pid p' = lp_pid p" "lp_stats p' = lp_stats p" "lp_prev_stats p' = lp_prev_stats p"
    "lp_prev_rx p' = lp_prev_rx p" "lp_prev_tx p' = lp_prev_tx p"
    "s' = s\<lparr>s_id := s_id s'\<rparr>" "id_pid (s_id s') = lp_pid p" "id_ppid (s_id s') = st_ppid (lp_stats p)"
  using assms by (auto simp: populate_static_data_def fetch_command_info_def Let_def split: if_splits)

lemma gauges_facts:
  fixes m priv v p s
  defines "s' \<equiv> populate_gauges m priv v p s"
  shows "s_id s' = s_id s" "s_threads s' = st_num_threads (lp_stats p)" "s_rss s' = st_vm_rss (lp_stats p)"
    "s_vms s' = st_vm_size (lp_stats p)"
    "s_rss_delta s' = wrap64 (st_vm_rss (lp_stats p) - st_vm_rss (lp_prev_stats p))"
    "s_vms_delta s' = wrap64 (st_vm_size (lp_stats p) - st_vm_size (lp_prev_stats p))"
    "s_fds s' = (if priv then num_fds v p else s_fds s)" "s_rx_delta s' = s_rx_delta s" "s_tx_delta s' = s_tx_delta s"
  by (simp_all add: s'_def populate_gauges_def Let_def)

lemma io_counters_facts:
  assumes "populate_io_counters v p s = (p', s')"
  shows "p' = p\<lparr>lp_prev_io := lp_prev_io p'\<rparr>" "s_id s' = s_id s" "s_threads s' = s_threads s" "s_rss s' = s_rss s"
    "s_vms s' = s_vms s" "s_rss_delta s' = s_rss_delta s" "s_vms_delta s' = s_vms_delta s" "s_fds s' = s_fds s"
    "s_rx_delta s' = s_rx_delta s" "s_tx_delta s' = s_tx_delta s"
  using assms by (auto simp: populate_io_counters_def Let_def split: sum.splits option.splits)

lemma network_facts:
  assumes "populate_network_info v p s = (p', s')"
  shows "p' = p\<lparr>lp_prev_rx := lp_prev_rx p', lp_prev_tx := lp_prev_tx p'\<rparr>" "s_id s' = s_id s"
    "s_threads s' = s_threads s" "s_rss s' = s_rss s"
    "s_vms s' = s_vms s" "s_rss_delta s' = s_rss_delta s" "s_vms_delta s' = s_vms_delta s" "s_fds s' = s_fds s"
    "(lp_prev_rx p', lp_prev_tx p') =
      (case pv_net_dev v of Inl e \<Rightarrow> (lp_prev_rx p, lp_prev_tx p) | Inr content \<Rightarrow> parse_proc_net_dev content)"
    "(s_rx_delta s', s_tx_delta s') =
      (case pv_net_dev v of Inl e \<Rightarrow> (s_rx_delta s, s_tx_delta s)
       | Inr content \<Rightarrow> (case parse_proc_net_dev content of (rx, tx) \<Rightarrow>
           if rx \<le> lp_prev_rx p \<or> tx \<le> lp_prev_tx p then (0, 0)
           else (wrap64 (rx - lp_prev_rx p), wrap64 (tx - lp_prev_tx p))))"
  using assms by (auto simp: populate_network_info_def Let_def split: sum.splits prod.splits if_splits)

lemma sample_service:
  assumes "sample_process m priv v svc p = (p', s)"
  shows "id_service (s_id s) = svc"
proof -
  obtain p1 s1 where 1: "populate_static_data v p (new_status m (sa_pid svc) svc) = (p1, s1)" by fastforce
  obtain p3 s3 where 3: "populate_io_counters v p1 (populate_gauges m priv v p1 s1) = (p3, s3)" by fastforce
  obtain p4 s4 where 4: "populate_network_info v p3 s3 = (p4, s4)" by fastforce
  have "s = s4" using assms 1 3 4 by (simp add: sample_process_def)
  then show ?thesis
    by (simp only: network_facts(2) [OF 4] io_counters_facts(2) [OF 3] gauges_facts(1) static_data_facts(1) [OF 1]
        new_status_service)
qed

lemma harvested_service: "harvested m priv world f svc = Some (p, s) \<Longrightarrow> id_service (s_id s) = svc"
  unfolding harvested_def harvest_outcome_def
  by (simp split: sum.splits prod.splits) (use sample_service in fastforce)

lemma statuses_harvested:
  assumes "s \<in> set (statuses_of m priv world f pids)"
  obtains pid svc p where "(pid, svc) \<in> set pids" "harvested m priv world f svc = Some (p, s)"
  using assms by (auto simp: statuses_of_def split: option.splits dest: sym)

lemma statuses_service:
  "s \<in> set (statuses_of m priv world f pids) \<Longrightarrow> \<exists>pid. (pid, id_service (s_id s)) \<in> set pids"
  by (erule statuses_harvested) (auto dest: harvested_service)

lemma start_inv: "collector_inv (new_collector empty_proc_cache)"
  by (simp add: collector_inv_def new_collector_def empty_proc_cache_def pids_ok_def keyed_def lru_defs)

lemma gone_alive:
  "keyed pids \<Longrightarrow> set (alive m priv world f pids) \<subseteq> fst ` set pids - set (gone m priv world f pids)"
  unfolding keyed_def wf_map_def alive_def gone_def by (fastforce simp: distinct_map inj_on_def)

lemma turn_inv:
  assumes inv: "collector_inv c" and ev: "event_ok e"
  shows "collector_inv (collector_turn m priv e c)"
proof (cases e)
  case (Spans spans)
  then show ?thesis
    using assms note_spans_keys [of "c_pids c" spans] by (auto simp: collector_inv_def pids_ok_note)
next
  case (Tick world)
  let ?f = "lru_lookup (c_cache c)"
  from inv have keyed: "keyed (c_pids c)" and room: "length (lru_keys (c_cache c)) + length (c_pids c) < nat (lru_size (c_cache c))"
    and li: "lru_inv (c_cache c)"
    using pids_room [of "c_pids c" "c_cache c"] by (simp_all add: collector_inv_def pids_ok_def)
  from collect_spec [OF li keyed room, of m priv world] obtain d where
    d: "collect m priv world (c_pids c) (c_cache c) =
        (d, statuses_of m priv world ?f (c_pids c), gone m priv world ?f (c_pids c))"
    "lru_inv d" "nat (lru_size d) = nat (lru_size (c_cache c))"
    "lru_keys d = rev (alive m priv world ?f (c_pids c))"
    by metis
  have "\<forall>s \<in> set (statuses_of m priv world ?f (c_pids c)). wants_process (id_service (s_id s))"
    using inv statuses_service by (fastforce simp: collector_inv_def pids_ok_def)
  with inv d gone_alive [OF keyed, of m priv world ?f] show ?thesis
    by (auto simp: Tick collector_inv_def pids_ok_mdel mdel_keys)
qed

lemma run_inv: "collector_run m priv c \<Longrightarrow> collector_inv c"
  by (induction rule: collector_run.induct) (simp_all add: start_inv turn_inv)

subsection \<open>Properties\<close>

text \<open>
  C15: the cache and the loop over the PIDs implement a map. What a collection returns, and what
  the cache holds afterwards, is what the specification over partial maps says: every
  process is harvested from its own entry, whatever the order of the visit; the entries
  that stay are the ones of the processes harvested in this turn, and all others, old ones
  and failed ones, are purged.
\<close>

theorem collect_refines_map:
  assumes "lru_inv cache" and "keyed pids" and "length (lru_keys cache) + length pids < nat (lru_size cache)"
  shows "case collect m priv world pids cache of (cache', procs, removed) \<Rightarrow>
    lru_inv cache' \<and> lru_lookup cache' = snapshots_of m priv world (lru_lookup cache) pids \<and>
    procs = statuses_of m priv world (lru_lookup cache) pids \<and>
    removed = gone m priv world (lru_lookup cache) pids"
  by (rule collect_spec [OF assms, of m priv world]) simp

text \<open>
  C16: in every run of the collector the cache holds no process that is not tracked, every
  tracked process is stored under its own PID and belongs to a service that is configured
  for process metrics, and so does every status that was ever sent.
\<close>

theorem collector_run_invariant:
  assumes "collector_run m priv c"
  shows "keyed (c_pids c) \<and> set (lru_keys (c_cache c)) \<subseteq> fst ` set (c_pids c) \<and>
    (\<forall>(pid, svc) \<in> set (c_pids c). features_any (sa_features svc) feature_process) \<and>
    (\<forall>procs \<in> set (c_sent c). \<forall>s \<in> set procs. features_any (sa_features (id_service (s_id s))) feature_process)"
  using run_inv [OF assms] by (auto simp: collector_inv_def pids_ok_def wants_process_def)

text \<open>A host with one process of a service that wants process metrics.\<close>

definition sample_service :: service_attrs where
  "sample_service = \<lparr>sa_uid = \<lparr>u_name = ''shop'', u_namespace = ''eu'', u_instance = ''host''\<rparr>, sa_pid = 7,
     sa_host = ''h'', sa_features = push_bit 63 1, sa_metadata = []\<rparr>"

definition sample_view :: proc_view where
  "sample_view = \<lparr>pv_now = 5, pv_stat = Inr (stat_line ''7'' ''app'' sample_fields), pv_process = Inr (),
     pv_cmdline = Inr (''/app'' @ [CHR 0x00]), pv_user = Inr ''root'', pv_uids = Inr [0], pv_getent = (\<lambda>_. Inl []),
     pv_fd_dir = Inr (3, None), pv_io = Inl ''denied'', pv_net_dev = Inl ''gone''\<rparr>"

definition sample_run :: "int collector" where
  "sample_run = collector_turn sample_machine True (Tick (\<lambda>_. sample_view))
     (collector_turn sample_machine True (Spans [sample_service]) (new_collector empty_proc_cache))"

lemma sample_run_reached: "collector_run sample_machine True sample_run"
  unfolding sample_run_def
  by (intro collector_run.intros) (simp_all add: sample_service_def pid_ok_def)

lemma sample_stat:
  "read_proc_stat sample_machine (pv_stat sample_view) =
     Inr \<lparr>st_command = ''app'', st_ppid = 1, st_num_threads = 3, st_state = ''S'', st_vm_rss = wrap64 (9 * 4096),
          st_vm_size = 1048576, st_cpu = \<lparr>user_time = 2, system_time = 0, wait_time = 0\<rparr>\<rparr>"
proof -
  have "\<forall>w \<in> set sample_fields. plain_word w" by (simp add: sample_fields_def plain_word_def plain_char_def)
  with parse_stat_line [of "''7''" "''app''" sample_fields sample_machine] obtain content where
    "parse_proc_stat sample_machine (stat_line ''7'' ''app'' sample_fields) =
      parse_stat_fields sample_machine content ''app'' sample_fields" by auto
  moreover have "parse_stat_fields sample_machine content ''app'' sample_fields =
      Inr \<lparr>st_command = ''app'', st_ppid = 1, st_num_threads = 3, st_state = sample_fields ! 0,
           st_vm_rss = wrap64 (9 * page_size sample_machine), st_vm_size = 1048576,
           st_cpu = \<lparr>user_time = seconds_of_ticks sample_machine 250, system_time = seconds_of_ticks sample_machine 50,
                     wait_time = seconds_of_ticks sample_machine (wrap64 (0 + 0))\<rparr>\<rparr>"
    by (rule parse_stat_fields_ok) (simp_all add: sample_fields_def sample_numbers)
  ultimately show ?thesis
    by (simp add: read_proc_stat_def sample_view_def sample_machine_def seconds_of_ticks_def sample_fields_def wrap64_id)
qed

theorem collect_refines_map_witness:
  "case collect sample_machine True (\<lambda>_. sample_view) [(7, sample_service)] empty_proc_cache of (cache', procs, removed) \<Rightarrow>
    lru_inv cache' \<and>
    lru_lookup cache' = snapshots_of sample_machine True (\<lambda>_. sample_view) (lru_lookup empty_proc_cache) [(7, sample_service)] \<and>
    procs = statuses_of sample_machine True (\<lambda>_. sample_view) (lru_lookup empty_proc_cache) [(7, sample_service)] \<and>
    removed = gone sample_machine True (\<lambda>_. sample_view) (lru_lookup empty_proc_cache) [(7, sample_service)]"
  by (rule collect_refines_map)
     (simp_all add: empty_proc_cache_def lru_defs keyed_def wf_map_def sample_service_def)

theorem collector_run_invariant_witness:
  "keyed (c_pids sample_run) \<and> set (lru_keys (c_cache sample_run)) \<subseteq> fst ` set (c_pids sample_run)"
  using collector_run_invariant [OF sample_run_reached] by blast

end
