(* ===== verification/Pid_Tracker.thy ===== *)
theory Pid_Tracker
  imports Proc_Harvest
begin

text \<open>
  The tracker of the processes of each service that both survey reporters use
  (vendor/go.opentelemetry.io/obi/pkg/export/otel/pid_tracker.go), and the contract on which
  they rely.

  A Go map is a partial function here and a map to empty structs a set: the order of the
  entries never matters in this component.
\<close>

type_synonym name_namespace = "string \<times> string"

record pid_tracker =
  pid_to_service :: "int \<rightharpoonup> service_uid"
  service_pids :: "service_uid \<rightharpoonup> int set"
  tracked_names :: "name_namespace \<rightharpoonup> service_uid"

definition name_namespace_of :: "service_uid \<Rightarrow> name_namespace" where
  "name_namespace_of u = (u_name u, u_namespace u)"

definition uid_equals :: "service_uid \<Rightarrow> service_uid \<Rightarrow> bool" where
  "uid_equals a b \<longleftrightarrow> u_name a = u_name b \<and> u_namespace a = u_namespace b \<and> u_instance a = u_instance b"

lemma uid_equals_iff [simp]: "uid_equals a b \<longleftrightarrow> a = b"
  by (auto simp: uid_equals_def intro: service_uid.equality)

definition new_tracker :: pid_tracker where
  "new_tracker = \<lparr>pid_to_service = Map.empty, service_pids = Map.empty, tracked_names = Map.empty\<rparr>"

definition add_pid :: "int \<Rightarrow> service_uid \<Rightarrow> pid_tracker \<Rightarrow> pid_tracker" where
  "add_pid pid u t =
     (let t = t\<lparr>pid_to_service := (pid_to_service t)(pid \<mapsto> u)\<rparr>;
          (pids, t) = (case service_pids t u of
              Some pids \<Rightarrow> (pids, t)
            | None \<Rightarrow> ({}, t\<lparr>tracked_names := (tracked_names t)(name_namespace_of u \<mapsto> u)\<rparr>))
      in t\<lparr>service_pids := (service_pids t)(u \<mapsto> insert pid pids)\<rparr>)"

text \<open>
  \<open>RemovePID\<close>: the service that lost its last process, if one did. In Go the answer is a
  boolean and a UID, here an option.
\<close>

definition remove_pid :: "int \<Rightarrow> pid_tracker \<Rightarrow> pid_tracker \<times> service_uid option" where
  "remove_pid pid t =
     (case pid_to_service t pid of
        None \<Rightarrow> (t, None)
      | Some u \<Rightarrow>
          let t = t\<lparr>pid_to_service := (pid_to_service t)(pid := None)\<rparr>
          in case service_pids t u of
               None \<Rightarrow> (t, None)
             | Some pids \<Rightarrow>
                 let pids = pids - {pid}; t = t\<lparr>service_pids := (service_pids t)(u \<mapsto> pids)\<rparr>
                 in if pids = {}
                    then (t\<lparr>service_pids := (service_pids t)(u := None),
                           tracked_names := (tracked_names t)(name_namespace_of u := None)\<rparr>, Some u)
                    else (t, None))"

definition tracks_pid :: "int \<Rightarrow> pid_tracker \<Rightarrow> service_uid option" where
  "tracks_pid pid t = pid_to_service t pid"

definition replace_uid :: "service_uid \<Rightarrow> service_uid \<Rightarrow> pid_tracker \<Rightarrow> pid_tracker" where
  "replace_uid stale new t =
     (if uid_equals stale new then t
      else case service_pids t stale of
        None \<Rightarrow> t
      | Some pids \<Rightarrow>
          t\<lparr>pid_to_service := (\<lambda>p. if p \<in> pids then Some new else pid_to_service t p),
            service_pids := (service_pids t)(new \<mapsto> pids, stale := None)\<rparr>)"

definition service_live :: "service_uid \<Rightarrow> pid_tracker \<Rightarrow> bool" where
  "service_live u t \<longleftrightarrow> service_pids t u \<noteq> None"

subsection \<open>The contract\<close>

text \<open>The two maps describe the same relation, and no live service is without a process.\<close>

definition pids_of :: "pid_tracker \<Rightarrow> service_uid \<Rightarrow> int set" where
  "pids_of t u = {p. pid_to_service t p = Some u}"

definition tracker_ok :: "pid_tracker \<Rightarrow> bool" where
  "tracker_ok t \<longleftrightarrow> (\<forall>u. service_pids t u = (if pids_of t u = {} then None else Some (pids_of t u)))"

lemma mem_pids_of [simp]: "p \<in> pids_of t u \<longleftrightarrow> pid_to_service t p = Some u"
  by (simp add: pids_of_def)

locale tracker =
  fixes tracks :: "int \<Rightarrow> 't \<Rightarrow> 'u option" and live :: "'u \<Rightarrow> 't \<Rightarrow> bool" and ok :: "'t \<Rightarrow> bool"
    and add :: "int \<Rightarrow> 'u \<Rightarrow> 't \<Rightarrow> 't" and remove :: "int \<Rightarrow> 't \<Rightarrow> 't \<times> 'u option"
    and move :: "'u \<Rightarrow> 'u \<Rightarrow> 't \<Rightarrow> 't"
  assumes live_iff: "ok t \<Longrightarrow> live u t \<longleftrightarrow> (\<exists>p. tracks p t = Some u)"
    and add_tracks: "ok t \<Longrightarrow> tracks p t \<in> {None, Some u} \<Longrightarrow>
      ok (add p u t) \<and> (\<forall>q. tracks q (add p u t) = (if q = p then Some u else tracks q t))"
    and remove_tracks: "ok t \<Longrightarrow>
      ok (fst (remove p t)) \<and> (\<forall>q. tracks q (fst (remove p t)) = (if q = p then None else tracks q t))"
    and remove_last: "ok t \<Longrightarrow>
      snd (remove p t) = Some u \<longleftrightarrow> tracks p t = Some u \<and> (\<forall>q. q \<noteq> p \<longrightarrow> tracks q t \<noteq> Some u)"
    and move_tracks: "ok t \<Longrightarrow> a \<noteq> b \<Longrightarrow> live a t \<Longrightarrow> \<not> live b t \<Longrightarrow>
      ok (move a b t) \<and> (\<forall>q. tracks q (move a b t) = (if tracks q t = Some a then Some b else tracks q t))"
begin

text \<open>Which services are live after each operation.\<close>

lemma add_live: "ok t \<Longrightarrow> tracks p t \<in> {None, Some u} \<Longrightarrow> live v (add p u t) \<longleftrightarrow> live v t \<or> v = u"
  using add_tracks [of t p u] live_iff by (smt (verit) insertE option.inject option.simps(3) singletonD)

lemma remove_live:
  assumes "ok t"
  shows "live v (fst (remove p t)) \<longleftrightarrow> live v t \<and> snd (remove p t) \<noteq> Some v"
proof -
  have "live v (fst (remove p t)) \<longleftrightarrow> (\<exists>q. q \<noteq> p \<and> tracks q t = Some v)"
    using remove_tracks [OF assms, of p] live_iff by auto
  then show ?thesis unfolding remove_last [OF assms] live_iff [OF assms] by metis
qed

lemma move_live:
  assumes "ok t" and "a \<noteq> b" and "live a t" and "\<not> live b t"
  shows "live v (move a b t) \<longleftrightarrow> live v t \<and> v \<noteq> a \<or> v = b"
proof -
  from move_tracks [OF assms] have ok: "ok (move a b t)"
    and t: "tracks q (move a b t) = (if tracks q t = Some a then Some b else tracks q t)" for q by blast+
  have "live v (move a b t) \<longleftrightarrow> (\<exists>q. tracks q t = Some a \<and> v = b \<or> tracks q t \<noteq> Some a \<and> tracks q t = Some v)"
    unfolding live_iff [OF ok] t by (rule arg_cong [of _ _ Ex], rule ext) auto
  also have "\<dots> \<longleftrightarrow> live v t \<and> v \<noteq> a \<or> v = b"
  proof -
    from assms(3) obtain p where "tracks p t = Some a" unfolding live_iff [OF assms(1)] by blast
    with assms(2) show ?thesis unfolding live_iff [OF assms(1)] by (cases "v = b") (auto, metis option.inject)
  qed
  finally show ?thesis .
qed

end

text \<open>What each operation does to the relation, and that the second map follows.\<close>

lemma add_pid_relation: "pid_to_service (add_pid p u t) = (pid_to_service t)(p \<mapsto> u)"
  by (simp add: add_pid_def Let_def split: option.split)

lemma add_pid_services:
  "service_pids (add_pid p u t) =
     (service_pids t)(u \<mapsto> insert p (case service_pids t u of None \<Rightarrow> {} | Some ps \<Rightarrow> ps))"
  by (simp add: add_pid_def Let_def split: option.split)

lemma remove_pid_relation: "pid_to_service (fst (remove_pid p t)) = (pid_to_service t)(p := None)"
  by (auto simp: remove_pid_def Let_def split: option.split)

lemma pids_of_update:
  "pid_to_service t' = (pid_to_service t)(p := w) \<Longrightarrow>
    pids_of t' u = (if w = Some u then insert p (pids_of t u) else pids_of t u - {p})"
  by (auto simp: pids_of_def)

lemma add_pid_ok:
  assumes "tracker_ok t" and "pid_to_service t p \<in> {None, Some u}"
  shows "tracker_ok (add_pid p u t)"
proof -
  have "service_pids (add_pid p u t) v = (if pids_of (add_pid p u t) v = {} then None else Some (pids_of (add_pid p u t) v))"
    for v
    using assms unfolding pids_of_update [OF add_pid_relation] add_pid_services tracker_ok_def
    by (cases "v = u") (auto simp: pids_of_def)
  then show ?thesis by (simp add: tracker_ok_def)
qed

lemma remove_pid_facts:
  assumes "tracker_ok t"
  shows "tracker_ok (fst (remove_pid p t)) \<and> (snd (remove_pid p t) = Some u \<longleftrightarrow> pids_of t u = {p})"
proof (cases "pid_to_service t p")
  case None
  then have "p \<notin> pids_of t u" by simp
  then have "pids_of t u \<noteq> {p}" by blast
  with None assms show ?thesis by (simp add: remove_pid_def)
next
  case (Some w)
  then have w: "service_pids t w = Some (pids_of t w)" using assms by (auto simp: tracker_ok_def)
  have last: "snd (remove_pid p t) = (if pids_of t w = {p} then Some w else None)"
    using Some w by (auto simp: remove_pid_def Let_def)
  have only: "pids_of t u = {p} \<longleftrightarrow> u = w \<and> pids_of t w = {p}"
    by (metis Some insertI1 mem_pids_of option.inject)
  have "service_pids (fst (remove_pid p t)) =
      (service_pids t)(w := if pids_of t w - {p} = {} then None else Some (pids_of t w - {p}))"
    using Some w by (auto simp: remove_pid_def Let_def)
  then have ok: "tracker_ok (fst (remove_pid p t))"
    using assms Some unfolding tracker_ok_def pids_of_update [OF remove_pid_relation] by (auto simp: pids_of_def)
  show ?thesis unfolding last only by (simp add: ok) blast
qed

lemma replace_uid_facts:
  assumes "tracker_ok t" and "a \<noteq> b" and "service_pids t a \<noteq> None" and "service_pids t b = None"
  shows "pid_to_service (replace_uid a b t) = (\<lambda>q. if pid_to_service t q = Some a then Some b else pid_to_service t q)"
    and "tracker_ok (replace_uid a b t)"
proof -
  have a: "service_pids t a = Some (pids_of t a)" "pids_of t a \<noteq> {}" and b: "pids_of t b = {}"
    using assms unfolding tracker_ok_def by (metis option.simps(3))+
  show r: "pid_to_service (replace_uid a b t) = (\<lambda>q. if pid_to_service t q = Some a then Some b else pid_to_service t q)"
    using assms(2) a by (simp add: replace_uid_def fun_eq_iff)
  have s: "service_pids (replace_uid a b t) = (service_pids t)(b \<mapsto> pids_of t a, a := None)"
    using assms(2) a by (simp add: replace_uid_def)
  have "pids_of (replace_uid a b t) v = (if v = b then pids_of t a else if v = a then {} else pids_of t v)" for v
    using assms(2) b unfolding pids_of_def r by auto
  then show "tracker_ok (replace_uid a b t)"
    using assms(1,2) a unfolding tracker_ok_def s by auto
qed

interpretation pids: tracker tracks_pid service_live tracker_ok add_pid remove_pid replace_uid
proof (unfold_locales, goal_cases)
  case (1 t u)
  then show ?case by (auto simp: tracker_ok_def tracks_pid_def service_live_def pids_of_def)
next
  case (2 t p u)
  then show ?case by (simp add: add_pid_ok tracks_pid_def add_pid_relation)
next
  case (3 t p)
  then show ?case using remove_pid_facts by (simp add: tracks_pid_def remove_pid_relation)
next
  case (4 t p u)
  then show ?case using remove_pid_facts [of t p u] by (auto simp: tracks_pid_def pids_of_def)
next
  case (5 t a b)
  then show ?case using replace_uid_facts [of t a b] by (simp add: tracks_pid_def service_live_def)
qed

end
