(* ===== verification/Survey_Metrics.thy ===== *)
theory Survey_Metrics
  imports Pid_Tracker Inject_Config
begin

text \<open>
  The two reporters of the metric \<open>survey_info\<close>, which has one series for each discovered
  service: OTEL (pkg/export/otel/metrics_survey.go) and Prometheus
  (pkg/export/prom/prom_survey.go, with the label lists of pkg/export/prom/prom.go).

  Each reporter handles a stream of process events, keeps a \<open>PidServiceTracker\<close> and a map of
  the services that it shows, and writes to an instrument: an up-down counter with a count
  for each attribute set, or a gauge vector with a value for each list of label values.
\<close>

record survey_service = service_attrs +
  sv_language :: instrumentable
  sv_env :: strmap

datatype survey_event = Created int survey_service | Terminated int survey_service

fun event_service :: "survey_event \<Rightarrow> survey_service" where
  "event_service (Created pid s) = s"
| "event_service (Terminated pid s) = s"

subsection \<open>OTEL\<close>

text \<open>\<open>attribute.NewSet\<close>: sorted by key, of several values for a key the last.\<close>

type_synonym attr_list = "(string \<times> string) list"

definition attr_set :: "attr_list \<Rightarrow> attr_list" where
  "attr_set kvs = sort_key fst (mput_all [] kvs)"

record otel_survey =
  os_tracker :: pid_tracker
  os_map :: "service_uid \<rightharpoonup> attr_list"
  os_counter :: "attr_list \<rightharpoonup> int"

definition new_otel_survey :: otel_survey where
  "new_otel_survey = \<lparr>os_tracker = new_tracker, os_map = Map.empty, os_counter = Map.empty\<rparr>"

text \<open>
  The resource attributes of a service, by the vendored package otelcfg
  (\<open>GetAppResourceAttrs\<close>, \<open>ResourceAttrsFromEnv\<close>): what Beyla knows of its node, with its own
  environment and the expansion of references in a value of a variable.
\<close>

record node_view =
  nd_host_id :: string
  nd_metadata :: attr_list
  nd_sdk_name :: string
  nd_sdk_version :: string
  nd_distro_name :: string
  nd_distro_version :: string
  nd_env :: "string \<Rightarrow> string option"
  nd_expand :: "string \<Rightarrow> string"

definition get_resource_attrs :: "node_view \<Rightarrow> survey_service \<Rightarrow> attr_list" where
  "get_resource_attrs node s =
     [(''service.name'', u_name (sa_uid s)), (''telemetry.sdk.language'', instrumentable_string (sv_language s)),
      (''telemetry.sdk.name'', nd_sdk_name node), (''telemetry.sdk.version'', nd_sdk_version node),
      (''telemetry.distro.name'', nd_distro_name node), (''telemetry.distro.version'', nd_distro_version node),
      (''host.name'', sa_host s), (''host.id'', nd_host_id node), (''os.type'', ''linux'')] @
     (if u_namespace (sa_uid s) \<noteq> [] then [(''service.namespace'', u_namespace (sa_uid s))] else []) @
     sa_metadata s @ nd_metadata node"

definition get_app_resource_attrs :: "node_view \<Rightarrow> survey_service \<Rightarrow> attr_list" where
  "get_app_resource_attrs node s =
     get_resource_attrs node s @ [(''service.instance.id'', u_instance (sa_uid s))]"

definition parse_resource_variable :: "string \<Rightarrow> attr_list" where
  "parse_resource_variable text = List.map_filter
     (\<lambda>variable. case split2 (CHR ''='') variable of
        [k, v] \<Rightarrow> if trim_space k = [] \<or> trim_space v = [] then None else Some (trim_space k, trim_space v)
      | _ \<Rightarrow> None)
     (split_byte (CHR '','') text)"

definition resource_attrs_from_env :: "node_view \<Rightarrow> survey_service \<Rightarrow> attr_list" where
  "resource_attrs_from_env node s =
     (case (case mget (sv_env s) ''OTEL_RESOURCE_ATTRIBUTES'' of
              Some v \<Rightarrow> Some v | None \<Rightarrow> nd_env node ''OTEL_RESOURCE_ATTRIBUTES'') of
        None \<Rightarrow> []
      | Some v \<Rightarrow> parse_resource_variable (nd_expand node v))"

definition attrs_from_service :: "node_view \<Rightarrow> survey_service \<Rightarrow> attr_list" where
  "attrs_from_service node s = get_app_resource_attrs node s @ resource_attrs_from_env node s"

text \<open>
  The handlers, for any function \<open>attrs\<close> from a service to its attributes; Beyla's is
  \<open>attrs_from_service node\<close>.
\<close>

definition otel_create :: "(survey_service \<Rightarrow> attr_list) \<Rightarrow> survey_service \<Rightarrow> otel_survey \<Rightarrow> otel_survey" where
  "otel_create attrs s r =
     (let l = attrs s; c = os_counter r; k = attr_set l
      in r\<lparr>os_counter := c(k \<mapsto> (case c k of None \<Rightarrow> 0 | Some n \<Rightarrow> n) + 1), os_map := (os_map r)(sa_uid s \<mapsto> l)\<rparr>)"

definition otel_delete :: "service_uid \<Rightarrow> otel_survey \<Rightarrow> otel_survey" where
  "otel_delete u r =
     (case os_map r u of
        None \<Rightarrow> r
      | Some l \<Rightarrow> r\<lparr>os_counter := (os_counter r)(attr_set l := None), os_map := (os_map r)(u := None)\<rparr>)"

text \<open>The UID under which a PID is tracked, where it differs from its new one.\<close>

definition stale_uid :: "int \<Rightarrow> service_uid \<Rightarrow> pid_tracker \<Rightarrow> service_uid option" where
  "stale_uid pid u t =
     (case tracks_pid pid t of None \<Rightarrow> None | Some stale \<Rightarrow> if \<not> uid_equals stale u then Some stale else None)"

fun otel_event :: "(survey_service \<Rightarrow> attr_list) \<Rightarrow> survey_event \<Rightarrow> otel_survey \<Rightarrow> otel_survey" where
  "otel_event attrs (Terminated pid s) r =
     (let (t, last) = remove_pid pid (os_tracker r); r = r\<lparr>os_tracker := t\<rparr>
      in case last of None \<Rightarrow> r | Some u \<Rightarrow> otel_delete u r)"
| "otel_event attrs (Created pid s) r =
     (let uid = sa_uid s in
      case stale_uid pid uid (os_tracker r) of
        Some stale \<Rightarrow>
          otel_create attrs s (otel_delete stale (r\<lparr>os_tracker := replace_uid stale uid (os_tracker r)\<rparr>))
      | None \<Rightarrow>
          let r = (if os_map r uid \<noteq> None then otel_delete uid r else r);
              r = otel_create attrs s r
          in r\<lparr>os_tracker := add_pid pid uid (os_tracker r)\<rparr>)"

subsection \<open>The labels of Prometheus\<close>

definition prom_name :: "string \<Rightarrow> string" where
  "prom_name n = replace_byte (CHR ''.'') (CHR ''_'') n"

definition parse_extra_metadata :: "string list \<Rightarrow> string list" where
  "parse_extra_metadata labels = map (replace_byte (CHR ''_'') (CHR ''.'')) labels"

definition append_k8s_label_names :: "string list \<Rightarrow> string list" where
  "append_k8s_label_names names = names @
     [''k8s_namespace_name'', ''k8s_pod_name'', ''k8s_container_name'', ''k8s_node_name'', ''k8s_pod_uid'',
      ''k8s_pod_start_time'', ''k8s_deployment_name'', ''k8s_replicaset_name'', ''k8s_statefulset_name'',
      ''k8s_job_name'', ''k8s_cronjob_name'', ''k8s_daemonset_name'', ''k8s_cluster_name'', ''k8s_kind'',
      ''k8s_owner_name'']"

definition append_docker_label_names :: "string list \<Rightarrow> string list" where
  "append_docker_label_names names = names @ [prom_name ''container.id'', prom_name ''container.name'']"

definition append_k8s_label_values :: "string list \<Rightarrow> survey_service \<Rightarrow> string list" where
  "append_k8s_label_values values s = values @ map (mstr (sa_metadata s))
     [''k8s.namespace.name'', ''k8s.pod.name'', ''k8s.container.name'', ''k8s.node.name'', ''k8s.pod.uid'',
      ''k8s.pod.start_time'', ''k8s.deployment.name'', ''k8s.replicaset.name'', ''k8s.statefulset.name'',
      ''k8s.job.name'', ''k8s.cronjob.name'', ''k8s.daemonset.name'', ''k8s.cluster.name'', ''k8s.kind'',
      ''k8s.owner.name'']"

definition append_docker_label_values :: "string list \<Rightarrow> survey_service \<Rightarrow> string list" where
  "append_docker_label_values values s =
     values @ [mstr (sa_metadata s) ''container.id'', mstr (sa_metadata s) ''container.name'']"

definition label_names_target_info :: "bool \<Rightarrow> bool \<Rightarrow> string list \<Rightarrow> string list" where
  "label_names_target_info kube docker extra =
     (let names = [''host_id'', ''host_name'', ''service_name'', ''service_namespace'', ''instance'', ''job'',
                   ''telemetry_sdk_language'', ''telemetry_sdk_name'', ''source'', ''os_type''];
          names = (if kube then append_k8s_label_names names else names);
          names = (if docker then append_docker_label_names names else names)
      in names @ map prom_name extra)"

text \<open>The configuration of the reporter, and its state; a series has the value 1.\<close>

record survey_config =
  sc_host_id :: string
  sc_kube :: bool
  sc_docker :: bool
  sc_extra :: "string list"

definition survey_label_values :: "survey_config \<Rightarrow> survey_service \<Rightarrow> string list" where
  "survey_label_values cfg s =
     (let values = [sc_host_id cfg, sa_host s, u_name (sa_uid s), u_namespace (sa_uid s), u_instance (sa_uid s),
                    service_job s, instrumentable_string (sv_language s), ''beyla'', ''beyla'', ''linux''];
          values = (if sc_kube cfg then append_k8s_label_values values s else values);
          values = (if sc_docker cfg then append_docker_label_values values s else values)
      in values @ map (mstr (sa_metadata s)) (sc_extra cfg))"

subsection \<open>Prometheus\<close>

record prom_survey =
  ps_tracker :: pid_tracker
  ps_map :: "service_uid \<rightharpoonup> survey_service"
  ps_gauge :: "string list set"

text \<open>\<open>newSurveyReporter\<close>: the configuration, the label names of the gauge, and the state.\<close>

definition new_survey_reporter ::
    "string \<Rightarrow> bool \<Rightarrow> bool \<Rightarrow> string list \<Rightarrow> survey_config \<times> string list \<times> prom_survey" where
  "new_survey_reporter host kube docker labels =
     (let extra = parse_extra_metadata labels
      in (\<lparr>sc_host_id = host, sc_kube = kube, sc_docker = docker, sc_extra = extra\<rparr>,
          label_names_target_info kube docker extra,
          \<lparr>ps_tracker = new_tracker, ps_map = Map.empty, ps_gauge = {}\<rparr>))"

definition prom_create :: "survey_config \<Rightarrow> survey_service \<Rightarrow> prom_survey \<Rightarrow> prom_survey" where
  "prom_create cfg s r = r\<lparr>ps_gauge := insert (survey_label_values cfg s) (ps_gauge r)\<rparr>"

definition orig_service :: "service_uid \<Rightarrow> survey_service \<Rightarrow> prom_survey \<Rightarrow> survey_service" where
  "orig_service u s r = (case ps_map r u of Some orig \<Rightarrow> orig | None \<Rightarrow> s)"

definition prom_delete :: "survey_config \<Rightarrow> service_uid \<Rightarrow> survey_service \<Rightarrow> prom_survey \<Rightarrow> prom_survey" where
  "prom_delete cfg u s r = r\<lparr>ps_gauge := ps_gauge r - {survey_label_values cfg (orig_service u s r)}\<rparr>"

fun prom_event :: "survey_config \<Rightarrow> survey_event \<Rightarrow> prom_survey \<Rightarrow> prom_survey" where
  "prom_event cfg (Terminated pid s) r =
     (let (t, last) = remove_pid pid (ps_tracker r); r = r\<lparr>ps_tracker := t\<rparr>
      in case last of
           None \<Rightarrow> r
         | Some u \<Rightarrow> let r = prom_delete cfg u s r in r\<lparr>ps_map := (ps_map r)(u := None)\<rparr>)"
| "prom_event cfg (Created pid s) r =
     (let uid = sa_uid s in
      case stale_uid pid uid (ps_tracker r) of
        Some stale \<Rightarrow>
          (let r = r\<lparr>ps_tracker := replace_uid stale uid (ps_tracker r)\<rparr>
           in case ps_map r stale of
                None \<Rightarrow> r
              | Some orig \<Rightarrow>
                  let r = prom_delete cfg stale orig r;
                      r = r\<lparr>ps_map := (ps_map r)(stale := None)\<rparr>;
                      r = r\<lparr>ps_map := (ps_map r)(uid \<mapsto> s)\<rparr>
                  in prom_create cfg s r)
      | None \<Rightarrow>
          let r = (case ps_map r uid of Some orig \<Rightarrow> prom_delete cfg uid orig r | None \<Rightarrow> r);
              r = prom_create cfg s r;
              r = r\<lparr>ps_map := (ps_map r)(uid \<mapsto> s)\<rparr>
          in r\<lparr>ps_tracker := add_pid pid uid (ps_tracker r)\<rparr>)"

subsection \<open>What both reporters promise\<close>

text \<open>
  The specification: the tracker, and for each service that has a process the attributes of
  its last event.
\<close>

type_synonym survey_state = "pid_tracker \<times> (service_uid \<rightharpoonup> survey_service)"

fun survey_spec :: "survey_event \<Rightarrow> survey_state \<Rightarrow> survey_state" where
  "survey_spec (Terminated pid s) (t, sh) =
     (case remove_pid pid t of (t', lost) \<Rightarrow> (t', case lost of None \<Rightarrow> sh | Some u \<Rightarrow> sh(u := None)))"
| "survey_spec (Created pid s) (t, sh) =
     (case stale_uid pid (sa_uid s) t of
        Some stale \<Rightarrow> (replace_uid stale (sa_uid s) t, sh(stale := None, sa_uid s \<mapsto> s))
      | None \<Rightarrow> (add_pid pid (sa_uid s) t, sh(sa_uid s \<mapsto> s)))"

definition survey_start :: survey_state where
  "survey_start = (new_tracker, Map.empty)"

text \<open>
  Runs in which the UID of a process never changes to the UID of a service that is already
  there. The last property of this theory shows what happens otherwise.
\<close>

fun clean_event :: "survey_event \<Rightarrow> pid_tracker \<Rightarrow> bool" where
  "clean_event (Terminated pid s) t = True"
| "clean_event (Created pid s) t = (stale_uid pid (sa_uid s) t = None \<or> \<not> service_live (sa_uid s) t)"

fun clean_run :: "survey_event list \<Rightarrow> survey_state \<Rightarrow> bool" where
  "clean_run [] st = True"
| "clean_run (e # es) st = (clean_event e (fst st) \<and> clean_run es (survey_spec e st))"

definition spec_ok :: "survey_state \<Rightarrow> bool" where
  "spec_ok st \<longleftrightarrow> tracker_ok (fst st) \<and> (\<forall>u. snd st u \<noteq> None \<longleftrightarrow> service_live u (fst st)) \<and>
     (\<forall>u s. snd st u = Some s \<longrightarrow> sa_uid s = u)"

lemma spec_start: "spec_ok survey_start"
  by (simp add: spec_ok_def survey_start_def new_tracker_def tracker_ok_def pids_of_def service_live_def)

lemma stale_uid_Some: "stale_uid pid u t = Some v \<longleftrightarrow> tracks_pid pid t = Some v \<and> v \<noteq> u"
  by (auto simp: stale_uid_def split: option.split)

lemma stale_uid_None: "stale_uid pid u t = None \<longleftrightarrow> tracks_pid pid t \<in> {None, Some u}"
  by (auto simp: stale_uid_def split: option.split)

lemma tracked_live: "tracker_ok t \<Longrightarrow> tracks_pid p t = Some u \<Longrightarrow> service_live u t"
  using pids.live_iff by blast

lemma spec_step:
  assumes ok: "spec_ok (t, sh)" and clean: "clean_event e t"
  shows "spec_ok (survey_spec e (t, sh))"
proof (cases e)
  case (Terminated pid s)
  obtain t' lost where r: "remove_pid pid t = (t', lost)" by fastforce
  have t: "tracker_ok t" using ok by (simp add: spec_ok_def)
  have "tracker_ok t'" using pids.remove_tracks [OF t, of pid] r by simp
  moreover have "service_live v t' \<longleftrightarrow> service_live v t \<and> lost \<noteq> Some v" for v
    using pids.remove_live [OF t, of v pid] r by simp
  ultimately show ?thesis
    using ok by (cases lost) (simp_all add: Terminated r spec_ok_def)
next
  case (Created pid s)
  have t: "tracker_ok t" using ok by (simp add: spec_ok_def)
  show ?thesis
  proof (cases "stale_uid pid (sa_uid s) t")
    case None
    then have n: "tracks_pid pid t \<in> {None, Some (sa_uid s)}" by (simp add: stale_uid_None)
    show ?thesis
      using ok None pids.add_tracks [OF t n] pids.add_live [OF t n] by (auto simp: Created spec_ok_def)
  next
    case (Some stale)
    then have m: "stale \<noteq> sa_uid s" "service_live stale t" "\<not> service_live (sa_uid s) t"
      using clean Some tracked_live [OF t] stale_uid_Some [of pid "sa_uid s" t stale] by (auto simp: Created)
    show ?thesis
      using ok Some pids.move_tracks [OF t m] pids.move_live [OF t m] by (auto simp: Created spec_ok_def)
  qed
qed

lemma spec_run: "spec_ok st \<Longrightarrow> clean_run es st \<Longrightarrow> spec_ok (fold survey_spec es st)"
proof (induction es arbitrary: st)
  case (Cons e es)
  with spec_step [of "fst st" "snd st" e] show ?case by simp
qed simp

text \<open>
  A reporter: its handler, the tracker and the map of shown services in its state, and when
  its instrument shows exactly these services.
\<close>

locale survey_reporter =
  fixes handle :: "survey_event \<Rightarrow> 'r \<Rightarrow> 'r" and trk :: "'r \<Rightarrow> pid_tracker"
    and shown :: "'r \<Rightarrow> service_uid \<rightharpoonup> 'm" and meta :: "survey_service \<Rightarrow> 'm" and exact :: "'r \<Rightarrow> bool"
  assumes terminated: "exact r \<Longrightarrow> (\<And>u. snd (remove_pid p (trk r)) = Some u \<Longrightarrow> shown r u \<noteq> None) \<Longrightarrow>
      trk (handle (Terminated p s) r) = fst (remove_pid p (trk r)) \<and> exact (handle (Terminated p s) r) \<and>
      shown (handle (Terminated p s) r) =
        (case snd (remove_pid p (trk r)) of None \<Rightarrow> shown r | Some u \<Rightarrow> (shown r)(u := None))"
    and created: "exact r \<Longrightarrow> stale_uid p (sa_uid s) (trk r) = None \<Longrightarrow>
      trk (handle (Created p s) r) = add_pid p (sa_uid s) (trk r) \<and> exact (handle (Created p s) r) \<and>
      shown (handle (Created p s) r) = (shown r)(sa_uid s \<mapsto> meta s)"
    and moved: "exact r \<Longrightarrow> stale_uid p (sa_uid s) (trk r) = Some u \<Longrightarrow> shown r u \<noteq> None \<Longrightarrow>
      shown r (sa_uid s) = None \<Longrightarrow>
      trk (handle (Created p s) r) = replace_uid u (sa_uid s) (trk r) \<and> exact (handle (Created p s) r) \<and>
      shown (handle (Created p s) r) = (shown r)(u := None, sa_uid s \<mapsto> meta s)"
begin

definition implements :: "'r \<Rightarrow> survey_state \<Rightarrow> bool" where
  "implements r st \<longleftrightarrow> exact r \<and> trk r = fst st \<and> shown r = map_option meta \<circ> snd st"

lemma step:
  assumes r: "implements r st" and ok: "spec_ok st" and clean: "clean_event e (fst st)"
  shows "implements (handle e r) (survey_spec e st)"
proof -
  obtain t sh where st: "st = (t, sh)" by (cases st)
  have i: "exact r" "trk r = t" "shown r = map_option meta \<circ> sh" using r by (simp_all add: implements_def st)
  have live: "\<And>u. sh u \<noteq> None \<longleftrightarrow> service_live u t" and t: "tracker_ok t" using ok by (simp_all add: spec_ok_def st)
  show ?thesis
  proof (cases e)
    case (Terminated p s)
    have "shown r u \<noteq> None" if "snd (remove_pid p (trk r)) = Some u" for u
      using that pids.remove_last [OF t, of p u] tracked_live [OF t] live [of u] i by auto
    from terminated [OF i(1) this, of p s] i show ?thesis
      by (auto simp: Terminated st implements_def fun_eq_iff split: option.split prod.split)
  next
    case (Created p s)
    show ?thesis
    proof (cases "stale_uid p (sa_uid s) t")
      case None
      with created [OF i(1), of p s] i show ?thesis by (auto simp: Created st implements_def fun_eq_iff)
    next
      case (Some u)
      have "shown r u \<noteq> None" "shown r (sa_uid s) = None"
        using Some clean tracked_live [OF t] live [of u] live [of "sa_uid s"] i stale_uid_Some [of p "sa_uid s" t u]
        by (auto simp: Created st)
      with moved [OF i(1), of p s u] Some i show ?thesis by (auto simp: Created st implements_def fun_eq_iff)
    qed
  qed
qed

lemma run: "implements r st \<Longrightarrow> spec_ok st \<Longrightarrow> clean_run es st \<Longrightarrow> implements (fold handle es r) (fold survey_spec es st)"
proof (induction es arbitrary: r st)
  case (Cons e es)
  with step [of r st e] spec_step [of "fst st" "snd st" e] show ?case by simp
qed simp

end

subsection \<open>Both reporters keep the promise\<close>

text \<open>
  Attributes that tell the services apart. This is not so of Beyla's for every service, as
  metadata and variables can override those of the UID; below it is proved of them for the
  services whose UID is not overridden (\<open>identity_kept\<close>).
\<close>

definition uid_in_attrs :: "(survey_service \<Rightarrow> attr_list) \<Rightarrow> bool" where
  "uid_in_attrs attrs \<longleftrightarrow> (\<forall>s s'. attr_set (attrs s) = attr_set (attrs s') \<longrightarrow> sa_uid s = sa_uid s')"

definition otel_exact :: "(survey_service \<Rightarrow> attr_list) \<Rightarrow> otel_survey \<Rightarrow> bool" where
  "otel_exact attrs r \<longleftrightarrow> uid_in_attrs attrs \<and>
     (\<forall>u l. os_map r u = Some l \<longrightarrow> (\<exists>s. sa_uid s = u \<and> l = attrs s)) \<and>
     os_counter r = (\<lambda>k. if k \<in> attr_set ` ran (os_map r) then Some 1 else None)"

lemma image_ran_remove:
  assumes "m u = Some x" and "\<And>v y. m v = Some y \<Longrightarrow> f y = f x \<Longrightarrow> v = u"
  shows "f ` ran (m(u := None)) = f ` ran m - {f x}"
proof (intro equalityI subsetI)
  fix k
  assume "k \<in> f ` ran (m(u := None))"
  then obtain v y where vy: "v \<noteq> u" "m v = Some y" "k = f y" by (auto simp: ran_def split: if_splits)
  then have "k \<noteq> f x" using assms(2) [of v y] by auto
  with vy show "k \<in> f ` ran m - {f x}" by (auto simp: ran_def)
next
  fix k
  assume "k \<in> f ` ran m - {f x}"
  then obtain v y where vy: "m v = Some y" "k = f y" "f y \<noteq> f x" by (auto simp: ran_def)
  then have "v \<noteq> u" using assms(1) by auto
  with vy show "k \<in> f ` ran (m(u := None))" by (auto simp: ran_def)
qed

lemma otel_exact_tracker [simp]: "otel_exact attrs (r\<lparr>os_tracker := t\<rparr>) = otel_exact attrs r"
  by (simp add: otel_exact_def)

lemma attr_set_inj:
  "otel_exact attrs r \<Longrightarrow> os_map r u = Some l \<Longrightarrow> os_map r v = Some l' \<Longrightarrow> attr_set l = attr_set l' \<Longrightarrow> u = v"
  unfolding otel_exact_def uid_in_attrs_def by metis

lemma otel_delete_facts:
  assumes "otel_exact attrs r"
  shows "otel_exact attrs (otel_delete u r)" and "os_map (otel_delete u r) = (os_map r)(u := None)"
    and "os_tracker (otel_delete u r) = os_tracker r"
proof -
  show map: "os_map (otel_delete u r) = (os_map r)(u := None)" and "os_tracker (otel_delete u r) = os_tracker r"
    by (auto simp: otel_delete_def fun_eq_iff split: option.split)
  show "otel_exact attrs (otel_delete u r)"
  proof (cases "os_map r u")
    case None
    with assms show ?thesis by (simp add: otel_delete_def)
  next
    case (Some l)
    have "attr_set ` ran ((os_map r)(u := None)) = attr_set ` ran (os_map r) - {attr_set l}"
      by (rule image_ran_remove [where m = "os_map r" and u = u and x = l and f = attr_set])
         (use Some attr_set_inj [OF assms _ Some] in blast)+
    moreover have "os_counter (otel_delete u r) = (os_counter r)(attr_set l := None)"
      using Some by (simp add: otel_delete_def)
    ultimately show ?thesis
      using assms unfolding otel_exact_def map by (auto simp: fun_eq_iff split: if_splits)
  qed
qed

lemma otel_create_facts:
  assumes "otel_exact attrs r" and "os_map r (sa_uid s) = None"
  shows "otel_exact attrs (otel_create attrs s r)" and "os_map (otel_create attrs s r) = (os_map r)(sa_uid s \<mapsto> attrs s)"
    and "os_tracker (otel_create attrs s r) = os_tracker r"
proof -
  show map: "os_map (otel_create attrs s r) = (os_map r)(sa_uid s \<mapsto> attrs s)"
    and "os_tracker (otel_create attrs s r) = os_tracker r"
    by (simp_all add: otel_create_def Let_def)
  have "attr_set (attrs s) \<notin> attr_set ` ran (os_map r)"
  proof
    assume "attr_set (attrs s) \<in> attr_set ` ran (os_map r)"
    then obtain u l where ul: "os_map r u = Some l" "attr_set l = attr_set (attrs s)" by (auto simp: ran_def)
    then obtain s' where s': "sa_uid s' = u" "l = attrs s'" using assms(1) by (auto simp: otel_exact_def)
    have "sa_uid s' = sa_uid s"
      using assms(1) ul(2) unfolding s'(2) otel_exact_def uid_in_attrs_def by blast
    with ul(1) s'(1) assms(2) show False by simp
  qed
  moreover have "ran ((os_map r)(sa_uid s \<mapsto> attrs s)) = insert (attrs s) (ran (os_map r))"
    using assms(2) by (rule ran_map_upd)
  ultimately have
    "os_counter (otel_create attrs s r) = (\<lambda>k. if k \<in> attr_set ` ran ((os_map r)(sa_uid s \<mapsto> attrs s)) then Some 1 else None)"
    using assms(1) by (simp add: otel_exact_def otel_create_def Let_def fun_eq_iff)
  moreover have "\<forall>u l. ((os_map r)(sa_uid s \<mapsto> attrs s)) u = Some l \<longrightarrow> (\<exists>s. sa_uid s = u \<and> l = attrs s)"
    using assms(1) by (auto simp: otel_exact_def)
  ultimately show "otel_exact attrs (otel_create attrs s r)"
    using assms(1) by (simp only: otel_exact_def map)
qed

interpretation otel: survey_reporter "otel_event attrs" os_tracker os_map attrs "otel_exact attrs" for attrs
proof (unfold_locales, goal_cases)
  case (1 r p s)
  let ?r = "r\<lparr>os_tracker := fst (remove_pid p (os_tracker r))\<rparr>"
  have "otel_exact attrs ?r" using 1(1) by simp
  from otel_delete_facts [OF this] 1(1) show ?case
    by (auto simp: case_prod_beta Let_def split: option.split)
next
  case (2 r p s)
  define q where "q = (if os_map r (sa_uid s) \<noteq> None then otel_delete (sa_uid s) r else r)"
  have "otel_exact attrs q" "os_map q = (os_map r)(sa_uid s := None)" "os_tracker q = os_tracker r"
    using otel_delete_facts [OF 2(1)] 2(1) by (auto simp: q_def)
  then have "otel_exact attrs (otel_create attrs s q)" "os_map (otel_create attrs s q) = (os_map r)(sa_uid s \<mapsto> attrs s)"
    "os_tracker (otel_create attrs s q) = os_tracker r"
    using otel_create_facts [of attrs q s] by simp_all
  moreover have "otel_event attrs (Created p s) r =
      (otel_create attrs s q)\<lparr>os_tracker := add_pid p (sa_uid s) (os_tracker (otel_create attrs s q))\<rparr>"
    using 2(2) unfolding otel_event.simps Let_def q_def by simp
  ultimately show ?case by simp
next
  case (3 r p s u)
  let ?r = "r\<lparr>os_tracker := replace_uid u (sa_uid s) (os_tracker r)\<rparr>"
  have e: "otel_exact attrs ?r" using 3(1) by simp
  have "os_map (otel_delete u ?r) (sa_uid s) = None" using 3(4) otel_delete_facts(2) [OF e, of u] by simp
  from otel_create_facts [OF otel_delete_facts(1) [OF e] this] otel_delete_facts(2,3) [OF e, of u] 3(2)
  show ?case by simp
qed

lemma label_values_uid:
  "survey_label_values cfg s = survey_label_values cfg s' \<Longrightarrow> sa_uid s = sa_uid s'"
  by (auto simp: survey_label_values_def append_k8s_label_values_def append_docker_label_values_def Let_def
      intro!: service_uid.equality split: if_splits)

definition prom_exact :: "survey_config \<Rightarrow> prom_survey \<Rightarrow> bool" where
  "prom_exact cfg r \<longleftrightarrow> (\<forall>u s. ps_map r u = Some s \<longrightarrow> sa_uid s = u) \<and>
     ps_gauge r = survey_label_values cfg ` ran (ps_map r)"

lemma prom_remove:
  assumes "prom_exact cfg r" and "ps_map r u = Some s"
  shows "ps_gauge r - {survey_label_values cfg s} = survey_label_values cfg ` ran ((ps_map r)(u := None))"
proof -
  have "survey_label_values cfg ` ran ((ps_map r)(u := None)) = survey_label_values cfg ` ran (ps_map r) - {survey_label_values cfg s}"
  proof (rule image_ran_remove [where m = "ps_map r" and u = u and x = s])
    show "v = u" if "ps_map r v = Some y" "survey_label_values cfg y = survey_label_values cfg s" for v y
      using label_values_uid [OF that(2)] that(1) assms unfolding prom_exact_def by metis
  qed (fact assms(2))
  with assms(1) show ?thesis by (simp add: prom_exact_def)
qed

interpretation prom: survey_reporter "prom_event cfg" ps_tracker ps_map "\<lambda>s. s" "prom_exact cfg" for cfg
proof (unfold_locales, goal_cases)
  case (1 r p s)
  show ?case
  proof (cases "snd (remove_pid p (ps_tracker r))")
    case None
    with 1(1) show ?thesis by (simp add: case_prod_beta Let_def prom_exact_def)
  next
    case (Some u)
    with 1(2) obtain o' where o': "ps_map r u = Some o'" by auto
    from prom_remove [OF 1(1) o'] 1(1) Some o' show ?thesis
      by (auto simp: case_prod_beta Let_def prom_exact_def prom_delete_def orig_service_def)
  qed
next
  case (2 r p s)
  have "ran ((ps_map r)(sa_uid s \<mapsto> s)) = insert s (ran ((ps_map r)(sa_uid s := None)))"
    by (auto simp: ran_def)
  with 2 prom_remove [OF 2(1), of "sa_uid s"] show ?case
    by (cases "ps_map r (sa_uid s)")
       (auto simp: Let_def prom_exact_def prom_delete_def prom_create_def orig_service_def fun_upd_idem)
next
  case (3 r p s u)
  then obtain o' where o': "ps_map r u = Some o'" by auto
  have "ran ((ps_map r)(u := None, sa_uid s \<mapsto> s)) = insert s (ran ((ps_map r)(u := None)))"
    using 3(4) by (intro ran_map_upd) simp
  with 3 o' prom_remove [OF 3(1) o'] show ?case
    by (auto simp: Let_def prom_exact_def prom_delete_def prom_create_def orig_service_def)
qed

subsection \<open>Attributes that tell the UID\<close>

definition identity_keys :: "string set" where
  "identity_keys = {''service.name'', ''service.namespace'', ''service.instance.id''}"

text \<open>
  The metadata of the service and of the node, and the variable \<open>OTEL_RESOURCE_ATTRIBUTES\<close>,
  come behind the attributes of the UID and override them where they have the same keys. A
  service keeps its identity where they do not.
\<close>

definition keeps_identity :: "node_view \<Rightarrow> survey_service \<Rightarrow> bool" where
  "keeps_identity node s \<longleftrightarrow>
     list_all (\<lambda>(k, v). k \<notin> identity_keys) (sa_metadata s @ nd_metadata node @ resource_attrs_from_env node s)"

lemma mput_all_append: "mput_all m (xs @ ys) = mput_all (mput_all m xs) ys"
  by (induction m xs rule: mput_all.induct) simp_all

lemma mget_attr_set: "mget (attr_set l) k = mget (mput_all [] l) k"
proof -
  have "wf_map (mput_all [] l)" by (rule wf_map_mput_all) (simp add: wf_map_def)
  then have "distinct (map fst (mput_all [] l))" "distinct (map fst (sort_key fst (mput_all [] l)))"
    by (simp_all add: wf_map_def distinct_map)
  then have "map_of (sort_key fst (mput_all [] l)) = map_of (mput_all [] l)"
    by (simp add: map_of_inject_set)
  then show ?thesis by (simp add: attr_set_def)
qed

lemma attr_set_last: "k \<notin> fst ` set post \<Longrightarrow> mget (attr_set (pre @ (k, v) # post)) k = Some v"
  by (simp add: mget_attr_set mput_all_append mget_mput_all_notin)

lemma attr_set_absent: "k \<notin> fst ` set l \<Longrightarrow> mget (attr_set l) k = None"
  by (simp add: mget_attr_set mget_mput_all_notin)

text \<open>The UID as it is read off an attribute set.\<close>

definition identity_of :: "attr_list \<Rightarrow> service_uid" where
  "identity_of l = \<lparr>u_name = mstr l ''service.name'', u_namespace = mstr l ''service.namespace'',
     u_instance = mstr l ''service.instance.id''\<rparr>"

lemma identity_kept:
  assumes "keeps_identity node s"
  shows "identity_of (attr_set (attrs_from_service node s)) = sa_uid s"
proof -
  let ?l = "attrs_from_service node s" and ?env = "resource_attrs_from_env node s"
  have no: "k \<notin> fst ` set (sa_metadata s)" "k \<notin> fst ` set (nd_metadata node)" "k \<notin> fst ` set ?env"
    if "k \<in> identity_keys" for k
    using assms that by (auto simp: keeps_identity_def list_all_iff)
  then have t: "''service.name'' \<notin> fst ` set (sa_metadata s)" "''service.name'' \<notin> fst ` set (nd_metadata node)"
    "''service.name'' \<notin> fst ` set ?env" "''service.namespace'' \<notin> fst ` set (sa_metadata s)"
    "''service.namespace'' \<notin> fst ` set (nd_metadata node)" "''service.namespace'' \<notin> fst ` set ?env"
    "''service.instance.id'' \<notin> fst ` set ?env"
    by (simp_all add: identity_keys_def)
  have name: "mget (attr_set ?l) ''service.name'' = Some (u_name (sa_uid s))"
    unfolding attrs_from_service_def get_app_resource_attrs_def get_resource_attrs_def append_Cons
    by (rule attr_set_last [where pre = "[]", unfolded append_Nil]) (simp add: t image_Un, auto)
  have inst: "mget (attr_set ?l) ''service.instance.id'' = Some (u_instance (sa_uid s))"
    unfolding attrs_from_service_def get_app_resource_attrs_def append_assoc append_Cons append_Nil
    by (rule attr_set_last) (simp add: t)
  have "mstr (attr_set ?l) ''service.namespace'' = u_namespace (sa_uid s)"
  proof (cases "u_namespace (sa_uid s) = []")
    case True
    have "mget (attr_set ?l) ''service.namespace'' = None"
      unfolding attrs_from_service_def get_app_resource_attrs_def get_resource_attrs_def
      by (rule attr_set_absent) (simp add: True t image_Un)
    with True show ?thesis by (simp add: mstr_def)
  next
    case False
    let ?pre = "[(''service.name'', u_name (sa_uid s)), (''telemetry.sdk.language'', instrumentable_string (sv_language s)),
      (''telemetry.sdk.name'', nd_sdk_name node), (''telemetry.sdk.version'', nd_sdk_version node),
      (''telemetry.distro.name'', nd_distro_name node), (''telemetry.distro.version'', nd_distro_version node),
      (''host.name'', sa_host s), (''host.id'', nd_host_id node), (''os.type'', ''linux'')]"
    have l: "?l = ?pre @ (''service.namespace'', u_namespace (sa_uid s)) #
        (sa_metadata s @ nd_metadata node @ (''service.instance.id'', u_instance (sa_uid s)) # ?env)"
      using False by (simp add: attrs_from_service_def get_app_resource_attrs_def get_resource_attrs_def)
    have "mget (attr_set ?l) ''service.namespace'' = Some (u_namespace (sa_uid s))"
      unfolding l by (rule attr_set_last) (simp add: t image_Un)
    then show ?thesis by (simp add: mstr_def)
  qed
  with name inst show ?thesis by (simp add: identity_of_def mstr_def)
qed

definition uid_attrs :: "survey_service \<Rightarrow> attr_list" where
  "uid_attrs s = [(''service.name'', u_name (sa_uid s)), (''service.namespace'', u_namespace (sa_uid s)),
     (''service.instance.id'', u_instance (sa_uid s))]"

text \<open>
  Beyla's attributes for the services that keep their identity, the bare UID for the others:
  a function that tells all UIDs, and agrees with Beyla's on the runs below.
\<close>

definition telling_attrs :: "node_view \<Rightarrow> survey_service \<Rightarrow> attr_list" where
  "telling_attrs node s = (if keeps_identity node s then attrs_from_service node s else uid_attrs s)"

lemma telling_attrs_ok: "uid_in_attrs (telling_attrs node)"
proof -
  have "identity_of (attr_set (uid_attrs s)) = sa_uid s" for s
    by (simp add: identity_of_def uid_attrs_def mget_attr_set mstr_def)
  then have "identity_of (attr_set (telling_attrs node s)) = sa_uid s" for s
    by (simp add: telling_attrs_def identity_kept)
  then show ?thesis unfolding uid_in_attrs_def by metis
qed

lemma otel_fold_cong:
  "\<forall>e \<in> set es. attrs (event_service e) = attrs' (event_service e) \<Longrightarrow>
     fold (otel_event attrs) es r = fold (otel_event attrs') es r"
proof (induction es arbitrary: r)
  case (Cons e es)
  then have "otel_event attrs e r = otel_event attrs' e r"
    by (cases e) (simp_all add: otel_create_def cong: option.case_cong)
  with Cons show ?case by simp
qed simp

lemma shown_from_events: "ran (snd (fold survey_spec es st)) \<subseteq> event_service ` set es \<union> ran (snd st)"
proof (induction es arbitrary: st)
  case (Cons e es)
  have "ran (snd (survey_spec e st)) \<subseteq> insert (event_service e) (ran (snd st))"
    by (cases st; cases e) (auto simp: ran_def split: option.splits prod.splits if_splits)
  with Cons [of "survey_spec e st"] show ?case by auto
qed simp

lemma image_cong_ran:
  assumes "\<And>s. s \<in> A \<Longrightarrow> f s = g s"
  shows "(\<lambda>k. if k \<in> (\<lambda>s. h (f s)) ` A then Some (1::int) else None) = (\<lambda>k. if k \<in> (\<lambda>s. h (g s)) ` A then Some 1 else None)"
  using assms by (simp cong: image_cong)

lemma otel_start: "uid_in_attrs attrs \<Longrightarrow> otel.implements attrs new_otel_survey survey_start"
  by (simp add: otel.implements_def new_otel_survey_def survey_start_def otel_exact_def fun_eq_iff)

definition new_prom_survey :: prom_survey where
  "new_prom_survey = snd (snd (new_survey_reporter [] False False []))"

lemma prom_start: "prom.implements cfg new_prom_survey survey_start"
  by (simp add: prom.implements_def new_prom_survey_def new_survey_reporter_def survey_start_def prom_exact_def Let_def fun_eq_iff)

subsection \<open>Properties\<close>

lemma otel_shows_spec:
  assumes "clean_run es survey_start" and "uid_in_attrs attrs"
  shows "os_counter (fold (otel_event attrs) es new_otel_survey) =
      (\<lambda>k. if k \<in> (\<lambda>s. attr_set (attrs s)) ` ran (snd (fold survey_spec es survey_start)) then Some 1 else None)"
    and "os_tracker (fold (otel_event attrs) es new_otel_survey) = fst (fold survey_spec es survey_start)"
proof -
  let ?st = "fold survey_spec es survey_start"
  note o = otel.run [OF otel_start [OF assms(2)] spec_start assms(1)]
  have "ran (map_option attrs \<circ> snd ?st) = attrs ` ran (snd ?st)" by (auto simp: ran_def)
  moreover have "(\<lambda>k. if k \<in> attr_set ` attrs ` A then Some 1 else None) =
      (\<lambda>k. if k \<in> (\<lambda>s. attr_set (attrs s)) ` A then Some (1::int) else None)" for A
    by (simp add: image_image)
  ultimately show "os_counter (fold (otel_event attrs) es new_otel_survey) =
      (\<lambda>k. if k \<in> (\<lambda>s. attr_set (attrs s)) ` ran (snd ?st) then Some 1 else None)"
    using o by (simp add: otel.implements_def otel_exact_def)
  show "os_tracker (fold (otel_event attrs) es new_otel_survey) = fst ?st"
    using o by (simp add: otel.implements_def)
qed

text \<open>
  C21: the survey reporters show exactly the services that have a process. Take any sequence of
  process events in which no process takes over the UID of another live service, and whose
  services keep their identity: neither their metadata, nor the node's, nor
  \<open>OTEL_RESOURCE_ATTRIBUTES\<close> sets one of the three attributes of the UID. Then OTEL counts one
  for the attribute set of each service with a process, taken from its last event, and has
  no other series; Prometheus has exactly the series with their label values; and a service
  is shown if and only if the tracker has a process for it.
\<close>

theorem survey_shows_live_services:
  assumes "clean_run es survey_start" and "\<forall>e \<in> set es. keeps_identity node (event_service e)"
  shows "os_counter (fold (otel_event (attrs_from_service node)) es new_otel_survey) =
      (\<lambda>k. if k \<in> (\<lambda>s. attr_set (attrs_from_service node s)) ` ran (snd (fold survey_spec es survey_start))
           then Some 1 else None) \<and>
    ps_gauge (fold (prom_event cfg) es new_prom_survey) =
      survey_label_values cfg ` ran (snd (fold survey_spec es survey_start)) \<and>
    (\<forall>u. snd (fold survey_spec es survey_start) u \<noteq> None \<longleftrightarrow>
      (\<exists>p. tracks_pid p (os_tracker (fold (otel_event (attrs_from_service node)) es new_otel_survey)) = Some u))"
proof -
  let ?st = "fold survey_spec es survey_start"
  have same: "telling_attrs node s = attrs_from_service node s" if "s \<in> event_service ` set es" for s
    using assms(2) that by (auto simp: telling_attrs_def)
  then have run: "fold (otel_event (attrs_from_service node)) es new_otel_survey = fold (otel_event (telling_attrs node)) es new_otel_survey"
    by (intro otel_fold_cong) simp
  have "ran (snd ?st) \<subseteq> event_service ` set es"
    using shown_from_events [of es survey_start] by (simp add: survey_start_def)
  then have "os_counter (fold (otel_event (attrs_from_service node)) es new_otel_survey) =
      (\<lambda>k. if k \<in> (\<lambda>s. attr_set (attrs_from_service node s)) ` ran (snd ?st) then Some 1 else None)"
    unfolding run otel_shows_spec(1) [OF assms(1) telling_attrs_ok]
    by (intro image_cong_ran [of _ "telling_attrs node" "attrs_from_service node" attr_set]) (blast intro: same)
  moreover note p = prom.run [OF prom_start spec_start assms(1), of cfg]
  have "map_option (\<lambda>s. s) \<circ> snd ?st = snd ?st" by (simp add: fun_eq_iff option.map_ident)
  then have "ps_gauge (fold (prom_event cfg) es new_prom_survey) = survey_label_values cfg ` ran (snd ?st)"
    using p by (simp add: prom.implements_def prom_exact_def)
  moreover have "spec_ok ?st" using spec_start assms(1) by (rule spec_run)
  then have "\<forall>u. snd ?st u \<noteq> None \<longleftrightarrow> (\<exists>p. tracks_pid p (os_tracker (fold (otel_event (attrs_from_service node)) es new_otel_survey)) = Some u)"
    using pids.live_iff unfolding spec_ok_def run otel_shows_spec(2) [OF assms(1) telling_attrs_ok] by auto
  ultimately show ?thesis by blast
qed

text \<open>Two services on a host, with attributes of their own.\<close>

definition named_service :: "string \<Rightarrow> survey_service" where
  "named_service n = \<lparr>sa_uid = \<lparr>u_name = n, u_namespace = [], u_instance = []\<rparr>, sa_pid = 0, sa_host = [], sa_features = 0,
     sa_metadata = [(''k8s.pod.name'', n)], sv_language = InstrumentableGolang,
     sv_env = [(''OTEL_RESOURCE_ATTRIBUTES'', ''team=a, tier = b'')]\<rparr>"

definition sample_node :: node_view where
  "sample_node = \<lparr>nd_host_id = ''h'', nd_metadata = [(''cloud.region'', ''r'')], nd_sdk_name = ''beyla'', nd_sdk_version = ''1'',
     nd_distro_name = ''d'', nd_distro_version = ''2'', nd_env = (\<lambda>_. None), nd_expand = (\<lambda>v. v)\<rparr>"

lemma named_service_identity: "keeps_identity sample_node (named_service n)"
proof -
  have "parse_resource_variable ''team=a, tier = b'' = [(''team'', ''a''), (''tier'', ''b'')]" by code_simp
  then show ?thesis
    by (simp add: keeps_identity_def named_service_def sample_node_def resource_attrs_from_env_def identity_keys_def)
qed

definition sample_config_survey :: survey_config where
  "sample_config_survey = \<lparr>sc_host_id = ''h'', sc_kube = True, sc_docker = False, sc_extra = []\<rparr>"

definition two_services :: "survey_event list" where
  "two_services = [Created 1 (named_service ''a''), Created 2 (named_service ''b''), Created 1 (named_service ''c'')]"

theorem survey_shows_live_services_witness:
  "os_counter (fold (otel_event (attrs_from_service sample_node)) two_services new_otel_survey) =
      (\<lambda>k. if k \<in> (\<lambda>s. attr_set (attrs_from_service sample_node s)) ` ran (snd (fold survey_spec two_services survey_start))
           then Some 1 else None) \<and>
    ps_gauge (fold (prom_event sample_config_survey) two_services new_prom_survey) =
      survey_label_values sample_config_survey ` ran (snd (fold survey_spec two_services survey_start))"
proof -
  have "clean_run two_services survey_start"
    by (simp add: two_services_def survey_start_def new_tracker_def stale_uid_def tracks_pid_def add_pid_def
        service_live_def named_service_def Let_def)
  moreover have "\<forall>e \<in> set two_services. keeps_identity sample_node (event_service e)"
    by (simp add: two_services_def named_service_identity)
  ultimately show ?thesis using survey_shows_live_services [of two_services sample_node sample_config_survey] by blast
qed

text \<open>
  C22: a process that takes over the UID of a live service breaks both reporters. When PID
  \<open>p\<close> of a service changes its UID to the one of another service \<open>b\<close> with a process \<open>q\<close>, the
  two reporters disagree: OTEL counts the service twice, where Prometheus has one series for
  it, and neither shows anything else. The tracker has forgotten \<open>q\<close> as a process of \<open>b\<close>,
  so that when \<open>p\<close> terminates both reporters drop the service and show nothing, although
  \<open>q\<close> still runs and is still tracked as a process of \<open>b\<close>.
\<close>

theorem survey_uid_takeover:
  assumes "p \<noteq> q" and "sa_uid a \<noteq> sa_uid b" and "keeps_identity node a" and "keeps_identity node b"
    and "taken = [Created p a, Created q b, Created p b]"
  shows "os_counter (fold (otel_event (attrs_from_service node)) taken new_otel_survey) =
      [attr_set (attrs_from_service node b) \<mapsto> 2] \<and>
    ps_gauge (fold (prom_event cfg) taken new_prom_survey) = {survey_label_values cfg b} \<and>
    tracks_pid q (os_tracker (fold (otel_event (attrs_from_service node)) (taken @ [Terminated p b]) new_otel_survey))
      = Some (sa_uid b) \<and>
    os_counter (fold (otel_event (attrs_from_service node)) (taken @ [Terminated p b]) new_otel_survey) = Map.empty \<and>
    ps_gauge (fold (prom_event cfg) (taken @ [Terminated p b]) new_prom_survey) = {}"
proof -
  let ?attrs = "attrs_from_service node"
  have k: "attr_set (?attrs a) \<noteq> attr_set (?attrs b)"
    using assms(2) identity_kept [OF assms(3)] identity_kept [OF assms(4)] by metis
  have l: "survey_label_values cfg a \<noteq> survey_label_values cfg b" using assms(2) label_values_uid by metis
  let ?A = "sa_uid a" and ?B = "sa_uid b"
  define t1 where "t1 = add_pid p ?A new_tracker"
  define t2 where "t2 = add_pid q ?B t1"
  define t3 where "t3 = replace_uid ?A ?B t2"
  have t1: "pid_to_service t1 = [p \<mapsto> ?A]" "service_pids t1 = [?A \<mapsto> {p}]"
    by (simp_all add: t1_def add_pid_relation add_pid_services new_tracker_def)
  have t2: "pid_to_service t2 = [p \<mapsto> ?A, q \<mapsto> ?B]" "service_pids t2 = [?A \<mapsto> {p}, ?B \<mapsto> {q}]"
    using assms(2) by (simp_all add: t2_def add_pid_relation add_pid_services t1)
  have t3: "pid_to_service t3 = [p \<mapsto> ?B, q \<mapsto> ?B]" "service_pids t3 = [?B \<mapsto> {p}]"
    using assms(1,2) by (auto simp: t3_def replace_uid_def t2 fun_eq_iff)
  have t4: "pid_to_service (fst (remove_pid p t3)) = [q \<mapsto> ?B]" "snd (remove_pid p t3) = Some ?B"
    using assms(1) by (auto simp: remove_pid_def t3 fun_eq_iff)
  have stale: "stale_uid p ?A new_tracker = None" "stale_uid q ?B t1 = None" "stale_uid p ?B t2 = Some ?A"
    using assms(1,2) by (simp_all add: stale_uid_def tracks_pid_def new_tracker_def t1 t2)
  define o2 where "o2 = \<lparr>os_tracker = t2, os_map = [?A \<mapsto> ?attrs a, ?B \<mapsto> ?attrs b],
    os_counter = [attr_set (?attrs a) \<mapsto> 1, attr_set (?attrs b) \<mapsto> 1 :: int]\<rparr>"
  define o3 where "o3 = \<lparr>os_tracker = t3, os_map = [?B \<mapsto> ?attrs b], os_counter = [attr_set (?attrs b) \<mapsto> 2 :: int]\<rparr>"
  have "fold (otel_event ?attrs) [Created p a, Created q b] new_otel_survey = o2"
    using stale(1,2) assms(2) k
    by (simp add: new_otel_survey_def o2_def otel_create_def Let_def t2_def t1_def)
  moreover have "otel_event ?attrs (Created p b) o2 = o3"
    using stale(3) assms(2) k
    by (auto simp: o2_def o3_def otel_create_def otel_delete_def Let_def t3_def fun_eq_iff)
  ultimately have o3: "fold (otel_event ?attrs) [Created p a, Created q b, Created p b] new_otel_survey = o3" by simp
  have o4: "otel_event ?attrs (Terminated p b) o3 =
      \<lparr>os_tracker = fst (remove_pid p t3), os_map = Map.empty, os_counter = Map.empty\<rparr>"
    using t4(2) by (simp add: o3_def otel_delete_def case_prod_beta Let_def)
  define p3 where "p3 = \<lparr>ps_tracker = t3, ps_map = [?B \<mapsto> b], ps_gauge = {survey_label_values cfg b}\<rparr>"
  have p3: "fold (prom_event cfg) [Created p a, Created q b, Created p b] new_prom_survey = p3"
    using stale assms(2) l
    by (auto simp: new_prom_survey_def new_survey_reporter_def p3_def prom_create_def prom_delete_def orig_service_def
        Let_def t3_def [symmetric] t2_def [symmetric] t1_def [symmetric] fun_eq_iff)
  have p4: "ps_gauge (prom_event cfg (Terminated p b) p3) = {}"
    using t4(2) by (simp add: p3_def prom_delete_def orig_service_def case_prod_beta Let_def)
  show ?thesis
    using t4(1) unfolding assms(5) fold_append comp_apply o3 p3
    by (simp del: otel_event.simps prom_event.simps add: o4 p4) (simp add: o3_def p3_def tracks_pid_def)
qed

theorem survey_uid_takeover_witness:
  "os_counter (fold (otel_event (attrs_from_service sample_node)) [Created 1 (named_service ''a''), Created 2 (named_service ''b''),
      Created 1 (named_service ''b'')] new_otel_survey) =
     [attr_set (attrs_from_service sample_node (named_service ''b'')) \<mapsto> 2]"
  using survey_uid_takeover [OF _ _ named_service_identity named_service_identity refl, of 1 2 "''a''" "''b''"]
  by (simp add: named_service_def)

text \<open>
  What the condition on the identities guards against. Where two live services of different
  UIDs get the same attribute set (for instance because \<open>OTEL_RESOURCE_ATTRIBUTES\<close> sets the
  name and the instance of both), OTEL shows one series for them, and the end of one takes
  the other out of the metric.
\<close>

lemma shared_attributes_drop_service:
  assumes "p \<noteq> q" and "sa_uid a \<noteq> sa_uid b" and "attr_set (attrs a) = attr_set (attrs b)"
  shows "os_counter (fold (otel_event attrs) [Created p a, Created q b] new_otel_survey) = [attr_set (attrs b) \<mapsto> 2] \<and>
    os_counter (fold (otel_event attrs) [Created p a, Created q b, Terminated p a] new_otel_survey) = Map.empty \<and>
    tracks_pid q (os_tracker (fold (otel_event attrs) [Created p a, Created q b, Terminated p a] new_otel_survey)) = Some (sa_uid b)"
  using assms
  by (auto simp: new_otel_survey_def otel_create_def otel_delete_def Let_def stale_uid_def tracks_pid_def new_tracker_def
      add_pid_def remove_pid_def fun_eq_iff)

text \<open>
  The names and the values of the labels of \<open>survey_info\<close> are aligned. For every
  configuration and service there are as many values as the gauge has names (otherwise the
  Prometheus library panics), and after the ten fixed labels each value is the metadata
  whose name, in Prometheus notation, is the label name at the same position.
\<close>

lemma survey_labels_aligned:
  "case new_survey_reporter host kube docker labels of (cfg, names, r) \<Rightarrow>
     length (survey_label_values cfg s) = length names \<and>
     (\<exists>keys. drop 10 names = map prom_name keys \<and> drop 10 (survey_label_values cfg s) = map (mstr (sa_metadata s)) keys) \<and>
     take 10 names = [''host_id'', ''host_name'', ''service_name'', ''service_namespace'', ''instance'', ''job'',
       ''telemetry_sdk_language'', ''telemetry_sdk_name'', ''source'', ''os_type''] \<and>
     take 10 (survey_label_values cfg s) = [host, sa_host s, u_name (sa_uid s), u_namespace (sa_uid s),
       u_instance (sa_uid s), service_job s, instrumentable_string (sv_language s), ''beyla'', ''beyla'', ''linux'']"
proof -
  let ?k8s = "[''k8s.namespace.name'', ''k8s.pod.name'', ''k8s.container.name'', ''k8s.node.name'', ''k8s.pod.uid'',
      ''k8s.pod.start_time'', ''k8s.deployment.name'', ''k8s.replicaset.name'', ''k8s.statefulset.name'',
      ''k8s.job.name'', ''k8s.cronjob.name'', ''k8s.daemonset.name'', ''k8s.cluster.name'', ''k8s.kind'',
      ''k8s.owner.name'']"
  define keys where "keys = (if kube then ?k8s else []) @ (if docker then [''container.id'', ''container.name''] else [])
    @ parse_extra_metadata labels"
  have k8s: "append_k8s_label_names ns = ns @ map prom_name ?k8s" for ns
    by (simp add: append_k8s_label_names_def prom_name_def replace_byte_def)
  have names: "label_names_target_info kube docker (parse_extra_metadata labels) =
      [''host_id'', ''host_name'', ''service_name'', ''service_namespace'', ''instance'', ''job'',
       ''telemetry_sdk_language'', ''telemetry_sdk_name'', ''source'', ''os_type''] @ map prom_name keys"
    by (simp add: label_names_target_info_def k8s append_docker_label_names_def keys_def Let_def)
  have vals: "survey_label_values \<lparr>sc_host_id = host, sc_kube = kube, sc_docker = docker, sc_extra = parse_extra_metadata labels\<rparr> s =
      [host, sa_host s, u_name (sa_uid s), u_namespace (sa_uid s), u_instance (sa_uid s), service_job s,
       instrumentable_string (sv_language s), ''beyla'', ''beyla'', ''linux''] @ map (mstr (sa_metadata s)) keys"
    by (simp add: survey_label_values_def append_k8s_label_values_def append_docker_label_values_def keys_def Let_def)
  show ?thesis
    unfolding new_survey_reporter_def Let_def prod.case names vals by (intro conjI exI [of _ keys]) simp_all
qed

subsection \<open>The loops of the reporters\<close>

text \<open>\<open>watchForProcessEvents\<close>: events until the context is cancelled or the channel is closed, which is the end of the list.\<close>

datatype watch_input = WatchCancelled | WatchEvent survey_event

primrec watch :: "(survey_event \<Rightarrow> 's \<Rightarrow> 's) \<Rightarrow> watch_input list \<Rightarrow> 's \<Rightarrow> 's" where
  "watch f [] s = s"
| "watch f (i # is) s = (case i of WatchCancelled \<Rightarrow> s | WatchEvent e \<Rightarrow> watch f is (f e s))"

definition otel_watch :: "(survey_service \<Rightarrow> attr_list) \<Rightarrow> watch_input list \<Rightarrow> otel_survey \<Rightarrow> otel_survey" where
  "otel_watch attrs = watch (otel_event attrs)"

definition prom_watch :: "survey_config \<Rightarrow> watch_input list \<Rightarrow> prom_survey \<Rightarrow> prom_survey" where
  "prom_watch cfg = watch (prom_event cfg)"

primrec watched :: "watch_input list \<Rightarrow> survey_event list" where
  "watched [] = []"
| "watched (i # is) = (case i of WatchCancelled \<Rightarrow> [] | WatchEvent e \<Rightarrow> e # watched is)"

lemma watch_fold: "watch f is s = fold f (watched is) s"
  by (induction "is" arbitrary: s) (auto split: watch_input.split)

lemma watch_cancelled: "watch f (is @ WatchCancelled # js) s = watch f is s"
  by (induction "is" arbitrary: s) (auto split: watch_input.split)

end
