(* ===== verification/Connect_Spans.thy ===== *)
theory Connect_Spans
  imports Survey_Metrics "HOL-Library.Multiset"
begin

text \<open>
  Connection spans: the small spans by which Tempo joins the service graphs of clusters.
  \<open>SelectExternal\<close> (pkg/internal/appolly/traces/external.go) picks the spans whose peer is
  outside of the cluster; two sinks send them, an OTLP exporter
  (pkg/export/otel/connect_spans.go) and a receiver inside of Alloy
  (pkg/export/alloy/traces_connect.go). The wiring is in pkg/internal/pipe/instrumenter.go.

  A trace identity is a 128-bit word and a span identity a 64-bit word, where zero is the
  empty one. What the vendored library computes for a span (its name, its status, the
  attributes of a service), the random identities and the clocks are parameters.
\<close>

subsection \<open>Spans\<close>

datatype event_type =
    EventProcessAlive | EventHTTP | EventGRPC | EventHTTPClient | EventGRPCClient | EventSQLClient
  | EventRedisClient | EventKafkaClient | EventMQTTClient | EventRedisServer | EventKafkaServer
  | EventMQTTServer | EventMongoClient | EventManualSpan | EventGPUCudaKernelLaunch
  | EventGPUCudaGraphLaunch | EventGPUCudaMalloc | EventGPUCudaMemcpy | EventGPUCudaStreamSync
  | EventGPUCudaDeviceSync | EventGPUCudaEventSync | EventGPUCudaFree | EventGPUCudaMemset
  | EventGPUCudaPeerCopy | EventGPUCudaKernelLaunchDone | EventGPUCudaError | EventGPUHamiOOM
  | EventGPUHamiThrottle | EventGPUCudaEventElapsed | EventFailedConnect | EventDNS
  | EventCouchbaseClient | EventMemcachedClient | EventMemcachedServer | EventSQLServer

record span_service = survey_service +
  ss_flags :: "8 word"
  ss_modes :: export_modes

record request_span =
  sp_type :: event_type
  sp_flags :: "8 word"
  sp_method :: string
  sp_peer :: string
  sp_host :: string
  sp_request_start :: int
  sp_start :: int
  sp_end :: int
  sp_service :: span_service
  sp_trace :: "128 word"
  sp_span :: "64 word"
  sp_parent :: "64 word"

abbreviation span_uid :: "request_span \<Rightarrow> service_uid" where
  "span_uid s \<equiv> sa_uid (sp_service s)"

definition internal_signal :: "request_span \<Rightarrow> bool" where
  "internal_signal s \<longleftrightarrow> sp_type s = EventProcessAlive"

definition is_client_span :: "request_span \<Rightarrow> bool" where
  "is_client_span s \<longleftrightarrow> sp_type s \<in>
     {EventGRPCClient, EventDNS, EventHTTPClient, EventRedisClient, EventKafkaClient, EventMQTTClient, EventSQLClient,
      EventMongoClient, EventFailedConnect, EventCouchbaseClient, EventMemcachedClient}"

subsection \<open>Selection by instrumentation\<close>

definition instrumentation_flag :: "string \<Rightarrow> bits" where
  "instrumentation_flag i =
     (if i = ''*'' then NOT 0
      else if i = ''http'' then push_bit 1 1 else if i = ''grpc'' then push_bit 2 1
      else if i = ''sql'' then push_bit 3 1 else if i = ''redis'' then push_bit 4 1
      else if i = ''kafka'' then push_bit 5 1 else if i = ''mqtt'' then push_bit 6 1
      else if i = ''gpu'' then push_bit 7 1 else if i = ''mongo'' then push_bit 8 1
      else if i = ''dns'' then push_bit 9 1 else if i = ''couchbase'' then push_bit 10 1
      else if i = ''genai'' then push_bit 11 1 else if i = ''memcached'' then push_bit 12 1
      else 0)"

definition new_instrumentation_selection :: "string list \<Rightarrow> bits" where
  "new_instrumentation_selection is = fold (\<lambda>i sel. sel OR instrumentation_flag i) is 0"

fun accept_span :: "bits \<Rightarrow> event_type \<Rightarrow> bool" where
  "accept_span is EventHTTP = bits_any is (instrumentation_flag ''http'')"
| "accept_span is EventHTTPClient = bits_any is (instrumentation_flag ''http'')"
| "accept_span is EventGRPC = bits_any is (instrumentation_flag ''grpc'')"
| "accept_span is EventGRPCClient = bits_any is (instrumentation_flag ''grpc'')"
| "accept_span is EventSQLClient = bits_any is (instrumentation_flag ''sql'')"
| "accept_span is EventSQLServer = bits_any is (instrumentation_flag ''sql'')"
| "accept_span is EventRedisClient = bits_any is (instrumentation_flag ''redis'')"
| "accept_span is EventRedisServer = bits_any is (instrumentation_flag ''redis'')"
| "accept_span is EventKafkaClient = bits_any is (instrumentation_flag ''kafka'')"
| "accept_span is EventKafkaServer = bits_any is (instrumentation_flag ''kafka'')"
| "accept_span is EventMQTTClient = bits_any is (instrumentation_flag ''mqtt'')"
| "accept_span is EventMQTTServer = bits_any is (instrumentation_flag ''mqtt'')"
| "accept_span is EventMongoClient = bits_any is (instrumentation_flag ''mongo'')"
| "accept_span is EventManualSpan = True"
| "accept_span is EventFailedConnect = True"
| "accept_span is EventDNS = bits_any is (instrumentation_flag ''dns'')"
| "accept_span is EventCouchbaseClient = bits_any is (instrumentation_flag ''couchbase'')"
| "accept_span is EventMemcachedClient = bits_any is (instrumentation_flag ''memcached'')"
| "accept_span is EventMemcachedServer = bits_any is (instrumentation_flag ''memcached'')"
| "accept_span is _ = False"

definition ignore_traces :: "request_span \<Rightarrow> bool" where
  "ignore_traces s \<longleftrightarrow> sp_flags s AND 2 = 2"

definition exports_otel_traces :: "span_service \<Rightarrow> bool" where
  "exports_otel_traces s \<longleftrightarrow> ss_flags s AND 4 = 4"

definition span_discarded :: "bits \<Rightarrow> request_span \<Rightarrow> bool" where
  "span_discarded is s \<longleftrightarrow>
     ignore_traces s \<or> exports_otel_traces (sp_service s) \<or> \<not> accept_span is (sp_type s)"

subsection \<open>External spans\<close>

definition is_external_selectable :: "(string \<Rightarrow> bool) \<Rightarrow> request_span \<Rightarrow> bool" where
  "is_external_selectable cluster_ip s \<longleftrightarrow>
     sp_trace s \<noteq> 0 \<and>
     ((\<not> is_client_span s \<and> \<not> cluster_ip (sp_peer s)) \<or> (is_client_span s \<and> \<not> cluster_ip (sp_host s)))"

definition filter_external :: "(string \<Rightarrow> bool) \<Rightarrow> request_span list \<Rightarrow> request_span list" where
  "filter_external cluster_ip spans =
     filter (\<lambda>s. can_export_traces (ss_modes (sp_service s)) \<and> is_external_selectable cluster_ip s) spans"

text \<open>\<open>SelectExternal\<close>: the batches that it sends on.\<close>

definition select_external :: "(string \<Rightarrow> bool) \<Rightarrow> request_span list list \<Rightarrow> request_span list list" where
  "select_external cluster_ip batches = filter (\<lambda>b. length b > 0) (map (filter_external cluster_ip) batches)"

subsection \<open>Grouping\<close>

type_synonym span_getter = "request_span \<Rightarrow> string \<times> string"
type_synonym span_group = "(request_span \<times> attr_list) list"

fun collect_getters :: "(string \<Rightarrow> span_getter option) \<Rightarrow> string list \<Rightarrow> span_getter list option" where
  "collect_getters getters [] = Some []"
| "collect_getters getters (n # ns) =
     (case getters n of
        None \<Rightarrow> None
      | Some g \<Rightarrow> map_option (\<lambda>gs. g # gs) (collect_getters getters ns))"

text \<open>\<open>ConnectionSpanAttributes\<close>; \<open>None\<close> is the panic for a missing getter.\<close>

definition connection_span_attributes :: "(string \<Rightarrow> span_getter option) \<Rightarrow> span_getter list option" where
  "connection_span_attributes getters =
     map_option (\<lambda>gs. gs @ [\<lambda>_. (''beyla.topology'', ''external'')])
       (collect_getters getters [''client'', ''server'', ''client.address'', ''server.address''])"

fun group_loop ::
    "bits \<Rightarrow> span_getter list \<Rightarrow> request_span list \<Rightarrow> (service_uid, span_group) gomap \<Rightarrow> (service_uid, span_group) gomap" where
  "group_loop is getters [] groups = groups"
| "group_loop is getters (s # spans) groups =
     (if internal_signal s then group_loop is getters spans groups
      else if span_discarded is s then group_loop is getters spans groups
      else
        let final_attrs = map (\<lambda>g. g s) getters;
            grp = (case mget groups (span_uid s) of None \<Rightarrow> [] | Some g \<Rightarrow> g)
        in group_loop is getters spans (mput groups (span_uid s) (grp @ [(s, final_attrs)])))"

definition group_connection_spans ::
    "bits \<Rightarrow> span_getter list \<Rightarrow> request_span list \<Rightarrow> (service_uid, span_group) gomap" where
  "group_connection_spans is getters spans = group_loop is getters spans []"

subsection \<open>What is sent\<close>

datatype span_kind = KindInternal | KindServer | KindClient | KindProducer | KindConsumer

text \<open>\<open>SpanKind\<close>, and the version of the vendored trace generator.\<close>

definition span_kind :: "request_span \<Rightarrow> span_kind" where
  "span_kind s =
     (if sp_type s \<in> {EventHTTP, EventGRPC, EventRedisServer, EventKafkaServer} then KindServer
      else if sp_type s \<in> {EventHTTPClient, EventGRPCClient, EventSQLClient, EventRedisClient, EventMongoClient}
      then KindClient
      else if sp_type s = EventKafkaClient \<and> sp_method s = ''publish'' then KindProducer
      else if sp_type s = EventKafkaClient \<and> sp_method s = ''process'' then KindConsumer
      else KindInternal)"

definition obi_span_kind :: "request_span \<Rightarrow> span_kind" where
  "obi_span_kind s =
     (if sp_type s \<in> {EventHTTP, EventGRPC, EventRedisServer, EventKafkaServer, EventMQTTServer, EventMemcachedServer,
        EventSQLServer} then KindServer
      else if sp_type s \<in> {EventHTTPClient, EventGRPCClient, EventSQLClient, EventRedisClient, EventMongoClient,
        EventCouchbaseClient, EventMemcachedClient, EventFailedConnect} then KindClient
      else if sp_type s \<in> {EventKafkaClient, EventMQTTClient} \<and> sp_method s = ''publish'' then KindProducer
      else if sp_type s \<in> {EventKafkaClient, EventMQTTClient} \<and> sp_method s = ''process'' then KindConsumer
      else KindInternal)"

text \<open>
  \<open>Timings\<close> turns the monotonic clock of the kernel into wall time, with the readings of both
  clocks at the time of the call.
\<close>

record timings =
  tm_request_start :: int
  tm_start :: int
  tm_end :: int

definition wall_time :: "int \<times> int \<Rightarrow> int \<Rightarrow> int" where
  "wall_time clocks t = fst clocks + wrap64 (- wrap64 (snd clocks - t))"

definition span_timings :: "int \<times> int \<Rightarrow> request_span \<Rightarrow> timings" where
  "span_timings clocks s =
     \<lparr>tm_request_start = wall_time clocks (sp_request_start s), tm_start = wall_time clocks (sp_start s),
      tm_end = wall_time clocks (sp_end s)\<rparr>"

definition span_start_time :: "timings \<Rightarrow> int" where
  "span_start_time t =
     (let real_start = tm_request_start t in if tm_start t < real_start then tm_start t else real_start)"

record span_library =
  lib_name :: "request_span \<Rightarrow> string"
  lib_status :: "request_span \<Rightarrow> int"
  lib_message :: "request_span \<Rightarrow> string"
  lib_resource :: "span_service \<Rightarrow> attr_list"
  lib_env :: "span_service \<Rightarrow> attr_list"

text \<open>One draw of the random generators and of the clocks.\<close>

record draw =
  dr_span :: "64 word"
  dr_trace :: "128 word"
  dr_clocks :: "int \<times> int"

record otlp_span =
  os_name :: string
  os_kind :: span_kind
  os_start :: int
  os_end :: int
  os_trace :: "128 word"
  os_span :: "64 word"
  os_parent :: "64 word"
  os_attrs :: strmap
  os_status :: int
  os_message :: string

record otlp_traces =
  ot_resource :: strmap
  ot_spans :: "otlp_span list"

definition attrs_to_map :: "attr_list \<Rightarrow> strmap" where
  "attrs_to_map attrs = mput_all [] attrs"

definition connect_span :: "span_library \<Rightarrow> draw \<Rightarrow> request_span \<times> attr_list \<Rightarrow> otlp_span" where
  "connect_span lib d x =
     (let (s, attrs) = x;
          timing = span_timings (dr_clocks d) s;
          start = span_start_time timing;
          trace_id = (if sp_trace s = 0 then dr_trace d else sp_trace s);
          span_id = (if sp_span s \<noteq> 0 then sp_span s else dr_span d)
      in \<lparr>os_name = lib_name lib s, os_kind = span_kind s, os_start = start, os_end = tm_end timing,
          os_trace = trace_id, os_span = span_id, os_parent = (if sp_parent s \<noteq> 0 then sp_parent s else 0),
          os_attrs = attrs_to_map attrs, os_status = lib_status lib s, os_message = lib_message lib s\<rparr>)"

definition generate_connect_spans :: "span_library \<Rightarrow> (nat \<Rightarrow> draw) \<Rightarrow> request_span \<Rightarrow> span_group \<Rightarrow> otlp_traces" where
  "generate_connect_spans lib draws sample spans =
     (let resource_attrs = lib_resource lib (sp_service sample) @ lib_env lib (sp_service sample);
          resource = mput (attrs_to_map resource_attrs) ''otel.scope.name'' ''github.com/grafana/beyla''
      in \<lparr>ot_resource = resource, ot_spans = map (\<lambda>(i, x). connect_span lib (draws i) x) (enumerate 0 spans)\<rparr>)"

text \<open>
  The two sinks, on the groups of a batch in the order in which Go visits them. A consumer
  answers with an error or not; the result lists the payloads that it got with its answers,
  which are logged. The draws are numbered by group, by consumer and by span.
\<close>

type_synonym consumer = "otlp_traces \<Rightarrow> string option"

definition process_group ::
    "span_library \<Rightarrow> (nat \<Rightarrow> draw) \<Rightarrow> span_getter list \<Rightarrow> consumer \<Rightarrow> span_group \<Rightarrow> (otlp_traces \<times> string option) list" where
  "process_group lib draws getters consume grp =
     (case grp of
        [] \<Rightarrow> []
      | (s, _) # rest \<Rightarrow>
          let traces = generate_connect_spans lib draws s ((s, map (\<lambda>g. g s) getters) # rest)
          in [(traces, consume traces)])"

definition process_spans ::
    "span_library \<Rightarrow> (nat \<Rightarrow> nat \<Rightarrow> draw) \<Rightarrow> span_getter list \<Rightarrow> consumer \<Rightarrow> (service_uid, span_group) gomap
     \<Rightarrow> (otlp_traces \<times> string option) list" where
  "process_spans lib draws getters consume groups =
     concat (map (\<lambda>(k, _, grp). process_group lib (draws k) getters consume grp) (enumerate 0 groups))"

definition receive_group ::
    "span_library \<Rightarrow> (nat \<Rightarrow> nat \<Rightarrow> draw) \<Rightarrow> consumer list \<Rightarrow> span_group \<Rightarrow> (nat \<times> otlp_traces \<times> string option) list" where
  "receive_group lib draws consumers grp =
     (case grp of
        [] \<Rightarrow> []
      | (s, _) # _ \<Rightarrow>
          if \<not> can_export_traces (ss_modes (sp_service s)) then []
          else map (\<lambda>(c, consume). (c, let traces = generate_connect_spans lib (draws c) s grp
                                       in (traces, consume traces))) (enumerate 0 consumers))"

definition receive_spans ::
    "span_library \<Rightarrow> (nat \<Rightarrow> nat \<Rightarrow> nat \<Rightarrow> draw) \<Rightarrow> consumer list \<Rightarrow> (service_uid, span_group) gomap
     \<Rightarrow> (nat \<times> otlp_traces \<times> string option) list" where
  "receive_spans lib draws consumers groups =
     concat (map (\<lambda>(k, _, grp). receive_group lib (draws k) consumers grp) (enumerate 0 groups))"

subsection \<open>The groups of a batch\<close>

definition exported :: "bits \<Rightarrow> request_span \<Rightarrow> bool" where
  "exported is s \<longleftrightarrow> \<not> internal_signal s \<and> \<not> span_discarded is s"

definition with_attrs :: "span_getter list \<Rightarrow> request_span \<Rightarrow> request_span \<times> attr_list" where
  "with_attrs getters s = (s, map (\<lambda>g. g s) getters)"

lemma group_loop_get:
  "mget (group_loop is getters spans groups) u =
     (case filter (\<lambda>s. exported is s \<and> span_uid s = u) spans of
        [] \<Rightarrow> mget groups u
      | l \<Rightarrow> Some ((case mget groups u of None \<Rightarrow> [] | Some g \<Rightarrow> g) @ map (with_attrs getters) l))"
  by (induction "is" getters spans groups rule: group_loop.induct)
     (auto simp: exported_def with_attrs_def Let_def split: list.splits option.splits)

lemma group_loop_wf: "wf_map groups \<Longrightarrow> wf_map (group_loop is getters spans groups)"
  by (induction "is" getters spans groups rule: group_loop.induct) (auto simp: Let_def wf_map_mput)

lemma group_get:
  "mget (group_connection_spans is getters spans) u =
     (let l = filter (\<lambda>s. exported is s \<and> span_uid s = u) spans
      in if l = [] then None else Some (map (with_attrs getters) l))"
  by (auto simp: group_connection_spans_def group_loop_get Let_def split: list.splits)

lemma group_wf: "wf_map (group_connection_spans is getters spans)"
  by (simp add: group_connection_spans_def group_loop_wf)

text \<open>The groups in any visiting order.\<close>

lemma visited_groups:
  assumes "mset groups = mset (group_connection_spans is getters spans)"
  shows "distinct (map fst groups)"
    and "(u, g) \<in> set groups \<longleftrightarrow>
      g = map (with_attrs getters) (filter (\<lambda>s. exported is s \<and> span_uid s = u) spans) \<and> g \<noteq> []"
proof -
  let ?m = "group_connection_spans is getters spans"
  have wf: "wf_map ?m"
    by (rule group_wf)
  have "mset (map fst groups) = mset (map fst ?m)"
    using assms by (metis mset_map)
  then show "distinct (map fst groups)"
    using wf by (metis mset_eq_imp_distinct_iff wf_map_def)
  have "set groups = set ?m"
    using assms by (rule mset_eq_setD)
  moreover have "(u, g) \<in> set ?m \<longleftrightarrow> mget ?m u = Some g"
    using wf by (simp add: wf_map_def)
  ultimately show "(u, g) \<in> set groups \<longleftrightarrow>
      g = map (with_attrs getters) (filter (\<lambda>s. exported is s \<and> span_uid s = u) spans) \<and> g \<noteq> []"
    by (auto simp: group_get Let_def)
qed

subsection \<open>What a sent span keeps\<close>

definition clock_ok :: "int \<Rightarrow> bool" where
  "clock_ok t \<longleftrightarrow> 0 \<le> t \<and> t < 2 ^ 63"

definition span_clocks_ok :: "request_span \<Rightarrow> bool" where
  "span_clocks_ok s \<longleftrightarrow> clock_ok (sp_request_start s) \<and> clock_ok (sp_start s) \<and> clock_ok (sp_end s)"

lemma wall_time_ok:
  assumes "clock_ok t" and "clock_ok (snd clocks)"
  shows "wall_time clocks t = fst clocks + (t - snd clocks)"
proof -
  have "wrap64 (snd clocks - t) = snd clocks - t" "wrap64 (- (snd clocks - t)) = t - snd clocks"
    using assms by (simp_all add: clock_ok_def wrap64_id)
  then show ?thesis
    by (simp add: wall_time_def)
qed

definition carried :: "request_span \<Rightarrow> otlp_span \<Rightarrow> bool" where
  "carried s x \<longleftrightarrow>
     os_trace x = sp_trace s \<and> (sp_span s \<noteq> 0 \<longrightarrow> os_span x = sp_span s) \<and> os_parent x = sp_parent s \<and>
     os_end x - os_start x = sp_end s - min (sp_request_start s) (sp_start s) \<and>
     mget (os_attrs x) ''beyla.topology'' = Some ''external''"

definition delivers :: "request_span list \<Rightarrow> service_uid \<Rightarrow> otlp_traces \<Rightarrow> bool" where
  "delivers picked u p \<longleftrightarrow>
     mget (ot_resource p) ''otel.scope.name'' = Some ''github.com/grafana/beyla'' \<and>
     list_all2 carried (filter (\<lambda>s. span_uid s = u) picked) (ot_spans p)"

lemma topology_attr:
  assumes "connection_span_attributes getters = Some gs"
  shows "mget (attrs_to_map (map (\<lambda>g. g s) gs)) ''beyla.topology'' = Some ''external''"
proof -
  obtain gs' where "gs = gs' @ [\<lambda>_. (''beyla.topology'', ''external'')]"
    using assms unfolding connection_span_attributes_def by blast
  moreover have "mget (mput_all m (kvs @ [(k, v)])) k = Some v" for m kvs and k v :: string
    by (induction m kvs rule: mput_all.induct) auto
  ultimately show ?thesis
    by (simp add: attrs_to_map_def)
qed

lemma connect_span_carried:
  assumes "connection_span_attributes getters = Some gs" and "sp_trace s \<noteq> 0"
    and "span_clocks_ok s" and "clock_ok (snd (dr_clocks d))"
  shows "carried s (connect_span lib d (with_attrs gs s))"
  using assms
  by (simp add: carried_def connect_span_def with_attrs_def topology_attr span_timings_def span_start_time_def
      Let_def wall_time_ok span_clocks_ok_def)

lemma list_all2_enumerate:
  assumes "\<And>i x. x \<in> set xs \<Longrightarrow> P x (f i (h x))"
  shows "list_all2 P xs (map (\<lambda>(i, x). f i x) (enumerate n (map h xs)))"
  using assms by (induction xs arbitrary: n) (auto simp: enumerate_simps)

lemma generated_delivers:
  assumes "connection_span_attributes getters = Some gs"
    and "\<forall>s \<in> set picked. sp_trace s \<noteq> 0 \<and> span_clocks_ok s" and "\<And>i. clock_ok (snd (dr_clocks (draws i)))"
  shows "delivers picked u (generate_connect_spans lib draws sample
    (map (with_attrs gs) (filter (\<lambda>s. span_uid s = u) picked)))"
  unfolding delivers_def generate_connect_spans_def Let_def
  using assms by (auto intro!: list_all2_enumerate connect_span_carried)

lemma list_all2_singletons:
  assumes "\<And>k x. x \<in> set xs \<Longrightarrow> \<exists>y. f (k, x) = [y] \<and> P x y"
  shows "list_all2 P xs (concat (map f (enumerate n xs)))"
proof (use assms in \<open>induction xs arbitrary: n\<close>)
  case (Cons x xs)
  then obtain y where "f (n, x) = [y]" and "P x y"
    by (meson list.set_intros(1))
  moreover have "list_all2 P xs (concat (map f (enumerate (Suc n) xs)))"
    using Cons by simp
  ultimately show ?case
    by simp
qed simp

lemma filter_enumerate:
  assumes "n \<le> c" and "c < n + length xs"
  shows "filter (\<lambda>x. fst x = c) (map (\<lambda>(i, x). (i, f i x)) (enumerate n xs)) = [(c, f c (xs ! (c - n)))]"
  using assms
proof (induction xs arbitrary: n)
  case (Cons x xs)
  have none: "filter (\<lambda>x. fst x = n) (map (\<lambda>(i, x). (i, f i x)) (enumerate (Suc n + k) xs)) = []" for k
    by (auto simp: filter_empty_conv in_set_enumerate_eq)
  show ?case
  proof (cases "c = n")
    case True
    then show ?thesis
      using none [of 0] by simp
  next
    case False
    then show ?thesis
      using Cons.IH [of "Suc n"] Cons.prems by (simp add: Suc_diff_Suc)
  qed
qed simp

lemma filter_concat_map: "filter p (concat (map f xs)) = concat (map (\<lambda>x. filter p (f x)) xs)"
  by (induction xs) auto

lemma picked_spans:
  assumes "list_all span_clocks_ok spans"
  shows "\<forall>s \<in> set (filter (exported is) (filter_external ip spans)).
    sp_trace s \<noteq> 0 \<and> span_clocks_ok s \<and> can_export_traces (ss_modes (sp_service s))"
  using assms by (auto simp: filter_external_def is_external_selectable_def list_all_iff)

text \<open>
  A batch of external spans in groups: each group belongs to one service and is the image of
  the spans of this service.
\<close>

lemma group_cases:
  assumes "mset groups = mset (group_connection_spans is gs (filter_external ip spans))"
    and "(u, g) \<in> set groups" and "list_all span_clocks_ok spans"
  obtains s rest where "g = with_attrs gs s # rest"
    and "with_attrs gs s # rest =
      map (with_attrs gs) (filter (\<lambda>s. span_uid s = u) (filter (exported is) (filter_external ip spans)))"
    and "can_export_traces (ss_modes (sp_service s))"
proof -
  let ?l = "filter (\<lambda>s. span_uid s = u) (filter (exported is) (filter_external ip spans))"
  have l_eq: "?l = filter (\<lambda>s. exported is s \<and> span_uid s = u) (filter_external ip spans)"
    by simp
  have g: "g = map (with_attrs gs) ?l \<and> g \<noteq> []"
    unfolding l_eq by (rule iffD1 [OF visited_groups(2) [OF assms(1)] assms(2)])
  then obtain s rest where l: "?l = s # rest"
    by (cases ?l) auto
  then have "s \<in> set (filter (exported is) (filter_external ip spans))"
    by (metis filter_is_subset list.set_intros(1) subsetD)
  then show thesis
    using that [of s "map (with_attrs gs) rest"] g l picked_spans [OF assms(3)] by (metis list.simps(9))
qed

lemma visited_services:
  assumes "mset groups = mset (group_connection_spans is gs spans)"
  shows "distinct (map fst groups) \<and> set (map fst groups) = span_uid ` set (filter (exported is) spans)"
proof
  show "distinct (map fst groups)"
    using assms by (rule visited_groups(1))
  have "u \<in> fst ` set groups \<longleftrightarrow> u \<in> span_uid ` set (filter (exported is) spans)" for u
  proof -
    have "u \<in> fst ` set groups \<longleftrightarrow> (\<exists>g. (u, g) \<in> set groups)"
      by force
    also have "\<dots> \<longleftrightarrow> filter (\<lambda>s. exported is s \<and> span_uid s = u) spans \<noteq> []"
      unfolding visited_groups(2) [OF assms] by auto
    finally show ?thesis
      by (auto simp: filter_empty_conv)
  qed
  then show "set (map fst groups) = span_uid ` set (filter (exported is) spans)"
    by auto
qed

subsection \<open>Properties\<close>

text \<open>
  C24: the OTLP sink sends every selected external span once. Of a batch, in whichever order
  Go visits the groups, it sends one payload for each service that has spans to export, also
  when the consumer fails on another; the payload holds the spans of this service in their
  order, each with its own trace identity (the random one is never used), its span identity
  if it has one, its parent, the topology attribute, and the time from the earlier of the
  request and the start to the end as its duration, whatever the clocks read.
\<close>

theorem connection_spans_exported:
  assumes "connection_span_attributes getters = Some gs"
    and "mset groups = mset (group_connection_spans is gs (filter_external ip spans))"
    and "list_all span_clocks_ok spans" and "\<And>k i. clock_ok (snd (dr_clocks (draws k i)))"
  shows "list_all2 (\<lambda>(u, g) (p, err). err = consume p \<and>
      delivers (filter (exported is) (filter_external ip spans)) u p)
    groups (process_spans lib draws gs consume groups) \<and>
    distinct (map fst groups) \<and>
    set (map fst groups) = span_uid ` set (filter (exported is) (filter_external ip spans))"
proof
  let ?picked = "filter (exported is) (filter_external ip spans)"
  have "\<exists>y. (\<lambda>(k, _, grp). process_group lib (draws k) gs consume grp) (k, x) = [y] \<and>
      (\<lambda>(u, g) (p, err). err = consume p \<and> delivers ?picked u p) x y"
    if "x \<in> set groups" for k x
  proof -
    obtain u g where x: "x = (u, g)"
      by fastforce
    with that have xg: "(u, g) \<in> set groups"
      by simp
    obtain s rest where g: "g = with_attrs gs s # rest"
      "with_attrs gs s # rest = map (with_attrs gs) (filter (\<lambda>s. span_uid s = u) ?picked)"
      by (rule group_cases [OF assms(2) xg assms(3)])
    have "delivers ?picked u (generate_connect_spans lib (draws k) s g)"
      unfolding g by (rule generated_delivers [OF assms(1)]) (use picked_spans [OF assms(3)] assms(4) in blast)+
    then show ?thesis
      by (simp add: x process_group_def g(1) with_attrs_def Let_def)
  qed
  then show "list_all2 (\<lambda>(u, g) (p, err). err = consume p \<and> delivers ?picked u p)
    groups (process_spans lib draws gs consume groups)"
    unfolding process_spans_def by (rule list_all2_singletons)
qed (rule visited_services [OF assms(2)])

text \<open>
  The receiver inside of Alloy hands every selected external span once to every consumer.
  Its check that the service of the first span of a group may export traces never skips a
  group, since the selection has dropped the spans of such services.
\<close>

lemma connection_spans_received:
  assumes "connection_span_attributes getters = Some gs"
    and "mset groups = mset (group_connection_spans is gs (filter_external ip spans))"
    and "list_all span_clocks_ok spans" and "\<And>k c i. clock_ok (snd (dr_clocks (draws k c i)))"
    and "c < length consumers"
  shows "list_all2 (\<lambda>(u, g) (c', p, err). c' = c \<and> err = (consumers ! c) p \<and>
      delivers (filter (exported is) (filter_external ip spans)) u p)
    groups (filter (\<lambda>x. fst x = c) (receive_spans lib draws consumers groups))"
proof -
  let ?picked = "filter (exported is) (filter_external ip spans)"
  have "\<exists>y. filter (\<lambda>x. fst x = c) ((\<lambda>(k, _, grp). receive_group lib (draws k) consumers grp) (k, x)) = [y] \<and>
      (\<lambda>(u, g) (c', p, err). c' = c \<and> err = (consumers ! c) p \<and> delivers ?picked u p) x y"
    if "x \<in> set groups" for k x
  proof -
    obtain u g where x: "x = (u, g)"
      by fastforce
    with that have xg: "(u, g) \<in> set groups"
      by simp
    obtain s rest where g: "g = with_attrs gs s # rest"
      "with_attrs gs s # rest = map (with_attrs gs) (filter (\<lambda>s. span_uid s = u) ?picked)"
      and can: "can_export_traces (ss_modes (sp_service s))"
      by (rule group_cases [OF assms(2) xg assms(3)])
    have "delivers ?picked u (generate_connect_spans lib (draws k c) s g)"
      unfolding g by (rule generated_delivers [OF assms(1)]) (use picked_spans [OF assms(3)] assms(4) in blast)+
    then show ?thesis
      using assms(5) can filter_enumerate [of 0 c consumers
          "\<lambda>c consume. let t = generate_connect_spans lib (draws k c) s g in (t, consume t)"]
      by (simp add: x receive_group_def g(1) with_attrs_def Let_def)
  qed
  then show ?thesis
    unfolding receive_spans_def filter_concat_map by (simp add: list_all2_singletons)
qed

text \<open>
  Connection spans get the kind INTERNAL where the trace generator of the vendored library
  gives the same span the kind of a server, a client, a producer or a consumer: exactly for
  the servers of MQTT, Memcached and SQL, the clients of Couchbase, Memcached and of failed
  connections, and for the messages of an MQTT client. The spans are exported nevertheless,
  and Tempo joins services by client and server spans only.
\<close>

lemma connection_span_kinds:
  "(span_kind s \<noteq> obi_span_kind s \<longleftrightarrow>
     sp_type s \<in> {EventMQTTServer, EventMemcachedServer, EventSQLServer, EventCouchbaseClient, EventMemcachedClient,
       EventFailedConnect} \<or> sp_type s = EventMQTTClient \<and> sp_method s \<in> {''publish'', ''process''}) \<and>
   (span_kind s = obi_span_kind s \<or> span_kind s = KindInternal \<and>
     accept_span (new_instrumentation_selection [''*'']) (sp_type s))"
  by (cases "sp_type s")
     (simp_all add: span_kind_def obi_span_kind_def new_instrumentation_selection_def instrumentation_flag_def bits_any_def)

subsection \<open>A batch of two services\<close>

definition sample_getters :: "string \<Rightarrow> span_getter option" where
  "sample_getters n = Some (\<lambda>s. (n, if n \<in> {''client'', ''client.address''} then sp_peer s else sp_host s))"

definition sample_span :: "event_type \<Rightarrow> string \<Rightarrow> string \<Rightarrow> request_span" where
  "sample_span t name peer =
     \<lparr>sp_type = t, sp_flags = 0, sp_method = ''GET'', sp_peer = peer, sp_host = ''10.0.0.1'', sp_request_start = 5,
      sp_start = 7, sp_end = 9,
      sp_service = \<lparr>sa_uid = \<lparr>u_name = name, u_namespace = [], u_instance = name\<rparr>, sa_pid = 1, sa_host = ''h'',
        sa_features = 0, sa_metadata = [], sv_language = InstrumentableGolang, sv_env = [], ss_flags = 0, ss_modes = export_mode_unset\<rparr>,
      sp_trace = 3, sp_span = 4, sp_parent = 0\<rparr>"

definition sample_batch :: "request_span list" where
  "sample_batch = [sample_span EventHTTP ''a'' ''8.8.8.8'', sample_span EventSQLServer ''b'' ''9.9.9.9'',
     sample_span EventHTTP ''a'' ''10.0.0.2'', sample_span EventHTTP ''a'' ''8.8.4.4'']"

definition in_cluster :: "string \<Rightarrow> bool" where
  "in_cluster ip \<longleftrightarrow> has_prefix ip ''10.''"

definition sample_library :: span_library where
  "sample_library = \<lparr>lib_name = sp_method, lib_status = (\<lambda>_. 0), lib_message = (\<lambda>_. []), lib_resource = (\<lambda>_. []),
     lib_env = (\<lambda>_. [])\<rparr>"

definition sample_draw :: draw where
  "sample_draw = \<lparr>dr_span = 1, dr_trace = 1, dr_clocks = (1000, 100)\<rparr>"

abbreviation sample_attrs :: "span_getter list" where
  "sample_attrs \<equiv> the (connection_span_attributes sample_getters)"

lemma sample_batch_ok:
  "connection_span_attributes sample_getters = Some sample_attrs \<and> list_all span_clocks_ok sample_batch \<and>
   clock_ok (snd (dr_clocks sample_draw))"
  by (simp add: connection_span_attributes_def sample_getters_def sample_batch_def sample_span_def
      span_clocks_ok_def clock_ok_def sample_draw_def)

theorem connection_spans_exported_witness:
  "length (group_connection_spans (instrumentation_flag ''http'') sample_attrs (filter_external in_cluster sample_batch)) = 1 \<and>
   list_all2 (\<lambda>(u, g) (p, err). err = None \<and>
      delivers (filter (exported (instrumentation_flag ''http'')) (filter_external in_cluster sample_batch)) u p)
    (group_connection_spans (instrumentation_flag ''http'') sample_attrs (filter_external in_cluster sample_batch))
    (process_spans sample_library (\<lambda>_ _. sample_draw) sample_attrs (\<lambda>_. None)
      (group_connection_spans (instrumentation_flag ''http'') sample_attrs (filter_external in_cluster sample_batch)))"
  using connection_spans_exported [of sample_getters sample_attrs
      "group_connection_spans (instrumentation_flag ''http'') sample_attrs (filter_external in_cluster sample_batch)"
      "instrumentation_flag ''http''" in_cluster sample_batch "\<lambda>_ _. sample_draw" "\<lambda>_. None" sample_library]
    sample_batch_ok
  by (simp add: group_connection_spans_def sample_batch_def sample_span_def filter_external_def
      is_external_selectable_def is_client_span_def in_cluster_def internal_signal_def span_discarded_def
      ignore_traces_def exports_otel_traces_def instrumentation_flag_def bits_any_def export_mode_defs
      Let_def)

end
