(* ===== verification/Otlp_Exporter.thy ===== *)
theory Otlp_Exporter
  imports Connect_Spans Pod_Env
begin

text \<open>
  Where and how traces are sent: the Grafana Cloud section (pkg/export/otel/grafana.go), the
  endpoint (pkg/export/otel/common.go and the vendored otelcfg/config_traces.go), the OTLP
  exporter with its queue and its retries (pkg/export/otel/connect_spans.go), and the sections
  that the vendored library gets (\<open>overrideOBI\<close> in pkg/beyla/config_obi.go).

  URL parsing, the variables with extra headers and the factories of the collector library,
  which may fail, are parameters.
\<close>

subsection \<open>Base 64\<close>

definition base64_alphabet :: string where
  "base64_alphabet = ''ABCDEFGHIJKLMNOPQRSTUVWXYZabcdefghijklmnopqrstuvwxyz0123456789+/''"

definition base64_char :: "nat \<Rightarrow> char" where
  "base64_char n = base64_alphabet ! (n mod 64)"

text \<open>The four indices that three bytes give, and the encoding with its padding.\<close>

definition base64_indices :: "nat \<Rightarrow> nat \<Rightarrow> nat \<Rightarrow> nat list" where
  "base64_indices a b c = [a div 4, a mod 4 * 16 + b div 16, b mod 16 * 4 + c div 64, c mod 64]"

fun base64_encode :: "string \<Rightarrow> string" where
  "base64_encode [] = []"
| "base64_encode [a] = take 2 (map base64_char (base64_indices (of_char a) 0 0)) @ ''==''"
| "base64_encode [a, b] = take 3 (map base64_char (base64_indices (of_char a) (of_char b) 0)) @ ''=''"
| "base64_encode (a # b # c # s) =
     map base64_char (base64_indices (of_char a) (of_char b) (of_char c)) @ base64_encode s"

subsection \<open>Grafana Cloud\<close>

record grafana_otlp =
  gr_submit :: "string list"
  gr_zone :: string
  gr_instance :: string
  gr_key :: string

definition grafana_endpoint_enabled :: "grafana_otlp \<Rightarrow> bool" where
  "grafana_endpoint_enabled g \<longleftrightarrow> gr_instance g \<noteq> [] \<or> gr_key g \<noteq> [] \<or> gr_zone g \<noteq> []"

definition grafana_submits :: "grafana_otlp \<Rightarrow> string \<Rightarrow> bool" where
  "grafana_submits g s = list_ex (\<lambda>sb. to_lower (trim_space sb) = s) (gr_submit g)"

definition grafana_metrics_enabled :: "grafana_otlp \<Rightarrow> bool" where
  "grafana_metrics_enabled g \<longleftrightarrow> grafana_endpoint_enabled g \<and> grafana_submits g ''metrics''"

definition grafana_traces_enabled :: "grafana_otlp \<Rightarrow> bool" where
  "grafana_traces_enabled g \<longleftrightarrow> grafana_endpoint_enabled g \<and> grafana_submits g ''traces''"

definition grafana_endpoint :: "grafana_otlp \<Rightarrow> string" where
  "grafana_endpoint g = ''https://otlp-gateway-'' @ gr_zone g @ ''.grafana.net/otlp''"

definition auth_header :: "grafana_otlp \<Rightarrow> string" where
  "auth_header g = ''Basic '' @ base64_encode (gr_instance g @ '':'' @ gr_key g)"

definition has_auth :: "grafana_otlp \<Rightarrow> bool" where
  "has_auth g \<longleftrightarrow> gr_instance g \<noteq> [] \<and> gr_key g \<noteq> []"

definition override_headers :: "grafana_otlp \<Rightarrow> strmap \<Rightarrow> strmap" where
  "override_headers g dst = (if has_auth g then mput dst ''Authorization'' (auth_header g) else dst)"

definition resolve_otlp_endpoint :: "string \<Rightarrow> string \<Rightarrow> grafana_otlp option \<Rightarrow> string \<times> bool" where
  "resolve_otlp_endpoint endpoint common grafana =
     (if endpoint \<noteq> [] then (endpoint, False)
      else if common \<noteq> [] then (common, True)
      else case grafana of
        Some g \<Rightarrow> if gr_zone g \<noteq> [] \<and> grafana_endpoint g \<noteq> [] then (grafana_endpoint g, True) else ([], False)
      | None \<Rightarrow> ([], False))"

subsection \<open>The section for traces\<close>

record traces_section = traces_config +
  ts_common :: string
  ts_endpoint :: string
  ts_skip_verify :: bool
  ts_instrumentations :: "string list"
  ts_batch :: int
  ts_queue :: int
  ts_timeout :: int
  ts_initial :: int
  ts_max :: int
  ts_elapsed :: int
  ts_provider :: "(string \<times> bool) option"
  ts_inject :: "(strmap \<Rightarrow> strmap) option"

definition obi_resolve_endpoint :: "string \<Rightarrow> string \<Rightarrow> string \<times> bool" where
  "obi_resolve_endpoint endpoint common =
     (if endpoint \<noteq> [] then (endpoint, False) else if common \<noteq> [] then (common, True) else ([], False))"

definition otlp_traces_endpoint :: "traces_section \<Rightarrow> string \<times> bool" where
  "otlp_traces_endpoint t =
     (case ts_provider t of Some r \<Rightarrow> r | None \<Rightarrow> obi_resolve_endpoint (ts_endpoint t) (ts_common t))"

record url =
  url_scheme :: string
  url_host :: string
  url_port :: string
  url_path :: string
  url_text :: string

datatype exporter_error =
    BadUrl string | NoSchemeOrHost string | InvalidProtocol string | FactoryFailed string

definition parse_traces_endpoint :: "(string \<Rightarrow> string + url) \<Rightarrow> traces_section \<Rightarrow> exporter_error + url \<times> bool" where
  "parse_traces_endpoint parse t =
     (let (endpoint, is_common) = otlp_traces_endpoint t in
      case parse endpoint of
        Inl e \<Rightarrow> Inl (BadUrl endpoint)
      | Inr u \<Rightarrow> if url_scheme u = [] \<or> url_host u = [] then Inl (NoSchemeOrHost endpoint) else Inr (u, is_common))"

definition section_protocol :: "(string \<Rightarrow> string + url) \<Rightarrow> traces_section \<Rightarrow> string" where
  "section_protocol parse t =
     get_protocol (case parse_traces_endpoint parse t of Inl _ \<Rightarrow> None | Inr (u, _) \<Rightarrow> Some (url_port u))
       (traces_config.truncate t)"

definition section_enabled :: "(string \<Rightarrow> string + url) \<Rightarrow> traces_section \<Rightarrow> bool" where
  "section_enabled parse t \<longleftrightarrow>
     has_traces_consumer t \<or> ts_common t \<noteq> [] \<or> ts_endpoint t \<noteq> [] \<or> section_protocol parse t = ''debug''"

definition trim_suffix :: "string \<Rightarrow> string \<Rightarrow> string" where
  "trim_suffix s suf = (if has_suffix s suf then take (length s - length suf) s else s)"

record client_options = otlp_options +
  opt_insecure :: bool

text \<open>
  The two functions that build the options of a client; \<open>env\<close> and \<open>traces_env\<close> are the headers
  of the two environment variables.
\<close>

definition client_headers :: "strmap \<Rightarrow> strmap \<Rightarrow> traces_section \<Rightarrow> strmap" where
  "client_headers env traces_env t =
     mput_all (mput_all (case ts_inject t of None \<Rightarrow> [] | Some inject \<Rightarrow> inject []) env) traces_env"

definition http_traces_options ::
    "(string \<Rightarrow> string + url) \<Rightarrow> strmap \<Rightarrow> strmap \<Rightarrow> traces_section \<Rightarrow> exporter_error + client_options" where
  "http_traces_options parse env traces_env t =
     and_then (parse_traces_endpoint parse t) (\<lambda>(u, is_common).
       Inr \<lparr>opt_scheme = url_scheme u, opt_endpoint = url_host u,
         opt_base_url_path = trim_suffix (trim_suffix (url_path u) ''/'') ''/v1/traces'',
         opt_headers = client_headers env traces_env t, opt_insecure = (url_scheme u \<in> {''http'', ''unix''})\<rparr>)"

definition grpc_traces_options ::
    "(string \<Rightarrow> string + url) \<Rightarrow> strmap \<Rightarrow> strmap \<Rightarrow> traces_section \<Rightarrow> exporter_error + client_options" where
  "grpc_traces_options parse env traces_env t =
     and_then (parse_traces_endpoint parse t) (\<lambda>(u, is_common).
       Inr \<lparr>opt_scheme = [], opt_endpoint = url_host u, opt_base_url_path = [],
         opt_headers = client_headers env traces_env t, opt_insecure = (url_scheme u \<in> {''http'', ''unix''})\<rparr>)"

subsection \<open>The exporter\<close>

text \<open>The batch section of a queue, and the queue; without a batch section it does not batch.\<close>

record batch_config =
  bc_min :: int
  bc_max :: int
  bc_timeout :: int

record queue_config =
  qc_size :: int
  qc_consumers :: int
  qc_by_items :: bool
  qc_block :: bool
  qc_batch :: "batch_config option"

definition default_queue_config :: queue_config where
  "default_queue_config = \<lparr>qc_size = 1000, qc_consumers = 10, qc_by_items = False, qc_block = False, qc_batch = None\<rparr>"

definition get_queue_config :: "traces_section \<Rightarrow> queue_config option" where
  "get_queue_config t =
     (if ts_batch t \<le> 0 \<and> ts_timeout t \<le> 0 \<and> ts_queue t \<le> 0 then None
      else
        let q = default_queue_config\<lparr>qc_by_items := True, qc_block := True\<rparr>;
            q = (if ts_queue t > 0 then q\<lparr>qc_size := ts_queue t\<rparr> else q);
            b = \<lparr>bc_min = 0, bc_max = 0, bc_timeout = 0\<rparr>;
            (b, batch_set) = (if ts_batch t > 0 then (b\<lparr>bc_max := ts_batch t\<rparr>, True) else (b, False));
            (b, batch_set) = (if ts_timeout t > 0 then (b\<lparr>bc_timeout := ts_timeout t, bc_min := ts_batch t\<rparr>, True)
                              else (b, batch_set));
            q = (if batch_set then q\<lparr>qc_batch := Some b\<rparr> else q)
        in Some q)"

text \<open>The back-off, in nanoseconds.\<close>

record backoff =
  bo_initial :: int
  bo_max :: int
  bo_elapsed :: int

definition default_backoff :: backoff where
  "default_backoff = \<lparr>bo_initial = 5 * 10 ^ 9, bo_max = 30 * 10 ^ 9, bo_elapsed = 300 * 10 ^ 9\<rparr>"

definition get_retry_settings :: "traces_section \<Rightarrow> backoff" where
  "get_retry_settings t =
     (let b = default_backoff;
          b = (if ts_initial t > 0 then b\<lparr>bo_initial := ts_initial t\<rparr> else b);
          b = (if ts_max t > 0 then b\<lparr>bo_max := ts_max t\<rparr> else b)
      in if ts_elapsed t > 0 then b\<lparr>bo_elapsed := ts_elapsed t\<rparr> else b)"

definition convert_headers :: "strmap \<Rightarrow> (string \<times> string) list" where
  "convert_headers headers = map (\<lambda>(key, v). (key, v)) headers"

record exporter =
  ex_grpc :: bool
  ex_endpoint :: string
  ex_insecure :: bool
  ex_skip_verify :: bool
  ex_headers :: "(string \<times> string) list"
  ex_queue :: "queue_config option"
  ex_retry :: backoff

text \<open>\<open>getTracesExporter\<close>; \<open>factory\<close> says which of the library's constructors fail.\<close>

definition get_traces_exporter ::
    "(string \<Rightarrow> string + url) \<Rightarrow> strmap \<Rightarrow> strmap \<Rightarrow> (string \<Rightarrow> bool) \<Rightarrow> traces_section \<Rightarrow> exporter_error + exporter" where
  "get_traces_exporter parse env traces_env factory t =
     (let proto = section_protocol parse t;
          create = (\<lambda>name. if factory name then Inr () else Inl (FactoryFailed name)) in
      if proto \<in> {''http/json'', ''http/protobuf'', ''''} then
        and_then (http_traces_options parse env traces_env t) (\<lambda>opts.
        and_then (create ''otlphttpexporter'') (\<lambda>_.
        and_then (create ''exporterhelper'') (\<lambda>_.
          Inr \<lparr>ex_grpc = False, ex_endpoint = opt_scheme opts @ ''://'' @ opt_endpoint opts @ opt_base_url_path opts,
               ex_insecure = opt_insecure opts, ex_skip_verify = ts_skip_verify t,
               ex_headers = convert_headers (opt_headers opts), ex_queue = get_queue_config t,
               ex_retry = get_retry_settings t\<rparr>)))
      else if proto = ''grpc'' then
        and_then (grpc_traces_options parse env traces_env t) (\<lambda>opts.
        and_then (parse_traces_endpoint parse t) (\<lambda>(endpoint, _).
        and_then (create ''otlpexporter'') (\<lambda>_.
          Inr \<lparr>ex_grpc = True, ex_endpoint = url_text endpoint, ex_insecure = opt_insecure opts,
               ex_skip_verify = ts_skip_verify t, ex_headers = convert_headers (opt_headers opts),
               ex_queue = get_queue_config t, ex_retry = get_retry_settings t\<rparr>)))
      else Inl (InvalidProtocol proto))"

text \<open>
  \<open>provideLoop\<close>: nothing is sent unless the exporter can be made and starts; then each batch
  is grouped, in the order \<open>visit\<close> of the Go map, and sent.
\<close>

definition provide_loop ::
    "(traces_section \<Rightarrow> exporter_error + exporter) \<Rightarrow> (exporter \<Rightarrow> string option) \<Rightarrow> (exporter \<Rightarrow> consumer) \<Rightarrow> span_library
     \<Rightarrow> (nat \<Rightarrow> nat \<Rightarrow> nat \<Rightarrow> draw) \<Rightarrow> ((service_uid, span_group) gomap \<Rightarrow> (service_uid, span_group) gomap) \<Rightarrow> span_getter list
     \<Rightarrow> traces_section \<Rightarrow> request_span list list \<Rightarrow> (otlp_traces \<times> string option) list" where
  "provide_loop create start consume lib draws visit getters t batches =
     (case create t of
        Inl _ \<Rightarrow> []
      | Inr x \<Rightarrow>
          if start x \<noteq> None then []
          else concat (map (\<lambda>(i, spans). process_spans lib (draws i) getters (consume x)
            (visit (group_connection_spans (new_instrumentation_selection (ts_instrumentations t)) getters spans)))
            (enumerate 0 batches)))"

subsection \<open>The section that the vendored library gets\<close>

definition override_traces :: "grafana_otlp \<Rightarrow> traces_section \<Rightarrow> traces_section" where
  "override_traces g t =
     (if grafana_traces_enabled g
      then t\<lparr>ts_provider := Some (resolve_otlp_endpoint (ts_endpoint t) (ts_common t) (Some g)),
             ts_inject := Some (override_headers g)\<rparr>
      else t)"

text \<open>\<open>NormalizeQueueConfig\<close> of the vendored library; the sizes are 64-bit integers.\<close>

definition normalize_queue_config :: "traces_section \<Rightarrow> unit + traces_section" where
  "normalize_queue_config t =
     (let t = (if ts_queue t = 0 \<and> ts_batch t > 0 then t\<lparr>ts_queue := wrap64 (4 * ts_batch t)\<rparr> else t)
      in if ts_batch t > 0 \<and> ts_queue t < wrap64 (2 * ts_batch t) then Inl () else Inr t)"

subsection \<open>Reading a header back\<close>

definition base64_value :: "char \<Rightarrow> nat" where
  "base64_value c = (case index_func (\<lambda>x. x = c) base64_alphabet of Some i \<Rightarrow> i | None \<Rightarrow> 0)"

fun base64_decode :: "string \<Rightarrow> string" where
  "base64_decode (a # b # c # d # s) =
     (let v = base64_value; x = char_of (v a * 4 + v b div 16); y = char_of (v b mod 16 * 16 + v c div 4);
          z = char_of (v c mod 4 * 64 + v d)
      in if c = CHR ''='' then [x] else if d = CHR ''='' then [x, y] else x # y # z # base64_decode s)"
| "base64_decode _ = []"

lemma base64_alphabet_index:
  "list_all (\<lambda>k. base64_value (base64_alphabet ! k) = k \<and> base64_alphabet ! k \<noteq> CHR ''='') [0..<64]"
  by code_simp

lemma base64_char_value [simp]: "base64_value (base64_char n) = n mod 64" "base64_char n \<noteq> CHR ''=''"
  using base64_alphabet_index by (auto simp: base64_char_def list_all_iff)

lemma base64_bytes [simp]:
  "of_char a div 4 mod 64 * 4 + of_char a mod 4 = (of_char a :: nat)"
  "of_char b div 16 mod 16 * 16 + of_char b mod 16 = (of_char b :: nat)"
  "of_char c div 64 mod 4 * 64 + of_char c mod 64 = (of_char c :: nat)"
  "(of_char a mod 4 * 16 + of_char b div 16) mod 64 = (of_char a mod 4 * 16 + of_char b div 16 :: nat)"
  "(of_char a mod 4 * 16 + of_char b div 16) div 16 = (of_char a mod 4 :: nat)"
  "(of_char b mod 16 * 4 + of_char c div 64) mod 64 = (of_char b mod 16 * 4 + of_char c div 64 :: nat)"
  "(of_char b mod 16 * 4 + of_char c div 64) div 4 = (of_char b mod 16 :: nat)"
proof -
  note bounds = nat_of_char_less_256 [of a] nat_of_char_less_256 [of b] nat_of_char_less_256 [of c]
  have "of_char a div 4 < (64 :: nat)"
    using bounds by (intro less_mult_imp_div_less) simp
  then show "of_char a div 4 mod 64 * 4 + of_char a mod 4 = (of_char a :: nat)"
    by simp
  have b: "of_char b div 16 < (16 :: nat)" and c: "of_char c div 64 < (4 :: nat)"
    using bounds by (auto intro!: less_mult_imp_div_less)
  then show "of_char b div 16 mod 16 * 16 + of_char b mod 16 = (of_char b :: nat)"
    "of_char c div 64 mod 4 * 64 + of_char c mod 64 = (of_char c :: nat)"
    by simp_all
  show "(of_char a mod 4 * 16 + of_char b div 16) div 16 = (of_char a mod 4 :: nat)"
    "(of_char b mod 16 * 4 + of_char c div 64) div 4 = (of_char b mod 16 :: nat)"
    using b c by simp_all
  have "of_char a mod 4 < (4 :: nat)" "of_char b mod 16 < (16 :: nat)"
    by simp_all
  then show "(of_char a mod 4 * 16 + of_char b div 16) mod 64 = (of_char a mod 4 * 16 + of_char b div 16 :: nat)"
    "(of_char b mod 16 * 4 + of_char c div 64) mod 64 = (of_char b mod 16 * 4 + of_char c div 64 :: nat)"
    using b c by simp_all
qed

lemma base64_round_trip: "base64_decode (base64_encode s) = s"
  by (induction s rule: base64_encode.induct) (simp_all add: Let_def base64_indices_def)

subsection \<open>Properties\<close>

lemmas endpoint_defs = otlp_traces_endpoint_def obi_resolve_endpoint_def resolve_otlp_endpoint_def override_traces_def
  grafana_endpoint_def

lemma protocol_not_debug:
  assumes "traces_protocol t \<noteq> ''debug''" and "common_protocol t \<noteq> ''debug''"
  shows "section_protocol parse t \<noteq> ''debug''"
  using assms
  by (auto simp: section_protocol_def get_protocol_def guess_protocol_def traces_config.truncate_def
      split: option.split)

text \<open>
  With the credentials of Grafana Cloud alone no traces are sent. The section that the
  vendored library gets resolves to the gateway of the zone and would add the authorization
  header, but neither it nor the section of the connection spans counts as enabled, since
  \<open>Enabled\<close> looks at the two configured endpoints and not at the resolved one.
\<close>

lemma grafana_traces_not_exported:
  assumes "grafana_traces_enabled g" and "gr_zone g \<noteq> []" and "has_auth g"
    and "ts_endpoint t = []" and "ts_common t = []" and "\<not> has_traces_consumer t"
    and "traces_protocol t \<noteq> ''debug''" and "common_protocol t \<noteq> ''debug''"
  shows "otlp_traces_endpoint (override_traces g t) = (grafana_endpoint g, True) \<and>
    mget (client_headers [] [] (override_traces g t)) ''Authorization'' = Some (auth_header g) \<and>
    \<not> section_enabled parse (override_traces g t) \<and> \<not> section_enabled parse t"
  using assms protocol_not_debug [of t parse] protocol_not_debug [of "override_traces g t" parse]
  by (simp add: section_enabled_def endpoint_defs client_headers_def override_headers_def)

text \<open>
  The headers of an exporter that Grafana Cloud overrides. A variable for traces wins over
  the common variable, which wins over the authorization header; and this header carries the
  instance and the key, which the receiver reads back.
\<close>

lemma grafana_headers:
  assumes "grafana_traces_enabled g" and "wf_map env" and "wf_map traces_env"
  shows "mget (client_headers env traces_env (override_traces g t)) k =
      (case mget traces_env k of
         Some v \<Rightarrow> Some v
       | None \<Rightarrow> (case mget env k of
           Some v \<Rightarrow> Some v
         | None \<Rightarrow> if has_auth g \<and> k = ''Authorization'' then Some (auth_header g) else None)) \<and>
    take 6 (auth_header g) = ''Basic '' \<and>
    base64_decode (drop 6 (auth_header g)) = gr_instance g @ '':'' @ gr_key g"
  using assms
  by (simp add: client_headers_def override_traces_def override_headers_def mget_mput_all auth_header_def
      base64_round_trip split: option.split)

text \<open>
  C26: the queue of the exporter. A configuration that the vendored library accepts, with
  sizes that a 64-bit integer holds four times, gets a queue that has room for two batches,
  counts spans and blocks when it is full, and a batch section if and only if it limits the
  size of batches or their time. Beyla does not run this check: with the queue size unset a
  batch may exceed the queue.
\<close>

theorem queue_holds_two_batches:
  assumes "normalize_queue_config t = Inr t'" and "ts_batch t < 2 ^ 61" and "get_queue_config t' = Some q"
  shows "0 < qc_size q \<and> qc_by_items q \<and> qc_block q \<and>
    (case qc_batch q of
       None \<Rightarrow> ts_batch t \<le> 0 \<and> ts_timeout t \<le> 0
     | Some b \<Rightarrow> 2 * bc_max b \<le> qc_size q \<and> bc_min b \<le> bc_max b \<and> (0 < ts_batch t \<or> 0 < ts_timeout t)) \<and>
    map_option (\<lambda>q. (qc_size q, map_option bc_max (qc_batch q)))
      (get_queue_config (t\<lparr>ts_queue := 0, ts_batch := 5000\<rparr>)) = Some (1000, Some 5000)"
proof -
  have wrap: "wrap64 (4 * ts_batch t) = 4 * ts_batch t" "wrap64 (2 * ts_batch t) = 2 * ts_batch t" if "0 < ts_batch t"
    using that assms(2) by (simp_all add: wrap64_id)
  then show ?thesis
    using assms
    by (auto simp: normalize_queue_config_def get_queue_config_def default_queue_config_def Let_def split: if_splits)
qed

text \<open>
  What \<open>getTracesExporter\<close> answers. An error names the protocol that it does not know, the
  URL that does not parse, or the constructor that failed; an exporter uses the chosen
  protocol and the headers, the queue and the retries of the section, and is insecure for
  plain HTTP and sockets only. The debug protocol enables the exporter but none is made.
\<close>

lemma exporter_outcomes:
  "(case get_traces_exporter parse env traces_env factory t of
      Inl (InvalidProtocol p) \<Rightarrow> p = section_protocol parse t \<and> p \<notin> {[], ''http/json'', ''http/protobuf'', ''grpc''}
    | Inl (BadUrl e) \<Rightarrow> e = fst (otlp_traces_endpoint t) \<and> isl (parse e)
    | Inl (NoSchemeOrHost e) \<Rightarrow> e = fst (otlp_traces_endpoint t) \<and>
        (url_scheme (projr (parse e)) = [] \<or> url_host (projr (parse e)) = [])
    | Inl (FactoryFailed f) \<Rightarrow> \<not> factory f
    | Inr x \<Rightarrow>
        let u = projr (parse (fst (otlp_traces_endpoint t))) in
        ex_grpc x = (section_protocol parse t = ''grpc'') \<and>
        ex_endpoint x = (if ex_grpc x then url_text u
          else url_scheme u @ ''://'' @ url_host u @ trim_suffix (trim_suffix (url_path u) ''/'') ''/v1/traces'') \<and>
        ex_insecure x = (url_scheme u \<in> {''http'', ''unix''}) \<and> ex_skip_verify x = ts_skip_verify t \<and>
        ex_headers x = client_headers env traces_env t \<and> ex_queue x = get_queue_config t \<and>
        ex_retry x = get_retry_settings t) \<and>
   section_enabled parse (t\<lparr>has_traces_consumer := False, traces_protocol := ''debug''\<rparr>) \<and>
   get_traces_exporter parse env traces_env factory (t\<lparr>has_traces_consumer := False, traces_protocol := ''debug''\<rparr>) =
     Inl (InvalidProtocol ''debug'')"
proof
  show "section_enabled parse (t\<lparr>has_traces_consumer := False, traces_protocol := ''debug''\<rparr>) \<and>
   get_traces_exporter parse env traces_env factory (t\<lparr>has_traces_consumer := False, traces_protocol := ''debug''\<rparr>) =
     Inl (InvalidProtocol ''debug'')"
    by (simp add: section_enabled_def section_protocol_def get_protocol_def traces_config.truncate_def
        get_traces_exporter_def Let_def)
qed (cases "parse (fst (otlp_traces_endpoint t))";
     simp add: get_traces_exporter_def http_traces_options_def grpc_traces_options_def parse_traces_endpoint_def
       convert_headers_def Let_def prod.case_eq_if)

definition sample_grafana :: grafana_otlp where
  "sample_grafana = \<lparr>gr_submit = ['' Traces ''], gr_zone = ''prod-eu'', gr_instance = ''42'', gr_key = ''k''\<rparr>"

definition sample_section :: traces_section where
  "sample_section = \<lparr>has_traces_consumer = False, common_protocol = [], traces_protocol = [], ts_common = [],
     ts_endpoint = [], ts_skip_verify = False, ts_instrumentations = [''*''], ts_batch = 4096, ts_queue = 0,
     ts_timeout = 15, ts_initial = 0, ts_max = 0, ts_elapsed = 0, ts_provider = None, ts_inject = None\<rparr>"

lemma sample_grafana_on: "grafana_traces_enabled sample_grafana \<and> has_auth sample_grafana"
  by code_simp

theorem queue_holds_two_batches_witness:
  "map_option qc_size (get_queue_config (sample_section\<lparr>ts_queue := 16384\<rparr>)) = Some 16384 \<and>
   (case get_queue_config (sample_section\<lparr>ts_queue := 16384\<rparr>) of
      Some q \<Rightarrow> 0 < qc_size q \<and> qc_block q
    | None \<Rightarrow> False)"
proof -
  let ?t = "sample_section\<lparr>ts_queue := 16384\<rparr>"
  have "normalize_queue_config sample_section = Inr ?t"
    by (simp add: normalize_queue_config_def sample_section_def wrap64_id)
  moreover obtain q where "get_queue_config ?t = Some q" "qc_size q = 16384"
    by (simp add: get_queue_config_def sample_section_def Let_def)
  moreover have "ts_batch sample_section < 2 ^ 61"
    by (simp add: sample_section_def)
  ultimately show ?thesis
    using queue_holds_two_batches [of sample_section ?t q] by simp
qed

end
