(* ===== verification/Proc_Accounting.thy ===== *)
theory Proc_Accounting
  imports Proc_Harvest
begin

text \<open>
  What the statuses of a process add up to: the ranges of their numbers, the deltas over a
  series of harvests of one process, and what happens when a PID is used again.
\<close>

subsection \<open>Ranges\<close>

definition int_range :: "nat \<Rightarrow> int \<Rightarrow> bool" where
  "int_range b n \<longleftrightarrow> - (2 ^ (b - 1)) \<le> n \<and> n < 2 ^ (b - 1)"

definition stats_typed :: "'f proc_stats \<Rightarrow> bool" where
  "stats_typed st \<longleftrightarrow> pid_ok (st_ppid st) \<and> int_range 32 (st_num_threads st) \<and> int_range 64 (st_vm_rss st) \<and>
     int_range 64 (st_vm_size st)"

definition process_typed :: "'f linux_process \<Rightarrow> bool" where
  "process_typed p \<longleftrightarrow> pid_ok (lp_pid p) \<and> stats_typed (lp_stats p) \<and> stats_typed (lp_prev_stats p) \<and>
     int_range 64 (lp_prev_rx p) \<and> int_range 64 (lp_prev_tx p)"

definition status_typed :: "'f status \<Rightarrow> bool" where
  "status_typed s \<longleftrightarrow> pid_ok (id_pid (s_id s)) \<and> pid_ok (id_ppid (s_id s)) \<and>
     int_range 32 (s_threads s) \<and> int_range 32 (s_fds s) \<and>
     (\<forall>n \<in> {s_rss s, s_vms s, s_rss_delta s, s_vms_delta s, s_tx_delta s, s_rx_delta s}. int_range 64 n)"

lemma wrap64_range [simp]: "int_range 64 (wrap64 n)"
  using sint_greater_eq [of "word_of_int n :: 64 word"] sint_less [of "word_of_int n :: 64 word"]
  by (simp add: int_range_def wrap64_def)

lemma wrap64_in_range: "int_range 64 n \<Longrightarrow> wrap64 n = n"
  by (simp add: int_range_def wrap64_id)

lemma wrap64_add: "wrap64 (wrap64 a + b) = wrap64 (a + b)"
  by (simp add: wrap64_def)

lemma sint32_range [simp]: "int_range 32 (sint (w :: 32 word))"
  using sint_greater_eq [of w] sint_less [of w] by (simp add: int_range_def)

lemma clamp_int_range: "clamp_int b k = NumOk n \<Longrightarrow> int_range b n"
  by (auto simp: clamp_int_def int_range_def split: if_splits)

lemma parse_int_range: "parse_int b s = NumOk n \<Longrightarrow> int_range b n"
  by (auto simp: parse_int_def Let_def split: if_splits dest: clamp_int_range)

lemma stat_int_range: "stat_int c fs i b = Inr n \<Longrightarrow> int_range b n"
  by (auto simp: stat_int_def dest: parse_int_range split: sum.splits parsed_int.splits)

lemma parse_stat_fields_typed: "parse_stat_fields m content cmd fs = Inr st \<Longrightarrow> stats_typed st"
  by (auto simp: parse_stat_fields_def stats_typed_def pid_ok_def and_then_Inr dest!: stat_int_range)

lemma parse_proc_stat_typed: "parse_proc_stat m content = Inr st \<Longrightarrow> stats_typed st"
  by (auto simp: parse_proc_stat_def Let_def intro: parse_stat_fields_typed split: option.splits)

lemma read_proc_stat_typed: "read_proc_stat m r = Inr st \<Longrightarrow> stats_typed st"
  by (auto simp: read_proc_stat_def intro: parse_proc_stat_typed split: sum.splits)

lemma net_sum_range:
  "int_range 64 (fst acc) \<Longrightarrow> int_range 64 (snd acc) \<Longrightarrow>
    int_range 64 (fst (net_sum es acc)) \<and> int_range 64 (snd (net_sum es acc))"
  by (induction es acc rule: net_sum.induct) auto

lemma net_dev_range:
  "parse_proc_net_dev content = (rx, tx) \<Longrightarrow> int_range 64 rx \<and> int_range 64 tx"
  using net_sum_range [of "(0, 0)" "net_matches content"] by (simp add: parse_proc_net_dev_def int_range_def)

subsection \<open>What one harvest does to a snapshot\<close>

lemma get_linux_process_cases:
  assumes "get_linux_process m cached pid priv v = Inr (reused, p)"
  obtains st where "read_proc_stat m (pv_stat v) = Inr st" and "lp_stats p = st"
    "reused \<longleftrightarrow> (\<exists>old. cached = Some old \<and> same_process st old)"
    "\<not> reused \<Longrightarrow> p = new_process m st pid priv (pv_now v)"
    "\<And>old. reused \<Longrightarrow> cached = Some old \<Longrightarrow>
      p = old\<lparr>lp_prev_time := lp_time old, lp_stats := st, lp_time := pv_now v\<rparr>"
proof -
  obtain st where st: "read_proc_stat m (pv_stat v) = Inr st"
    using assms by (auto simp: get_linux_process_def split: sum.splits)
  show ?thesis
    by (rule that [OF st])
       (use assms st in \<open>auto simp: get_linux_process_def new_process_def split: option.splits if_splits sum.splits\<close>)
qed

text \<open>What the later steps leave alone, and the memory and network numbers of the status.\<close>

lemma sample_process_facts:
  assumes "sample_process m priv v svc p = (p', s)"
  shows "lp_pid p' = lp_pid p" and "lp_stats p' = lp_stats p" and "lp_prev_stats p' = lp_stats p"
    and "id_pid (s_id s) = lp_pid p" and "id_ppid (s_id s) = st_ppid (lp_stats p)"
    and "s_threads s = st_num_threads (lp_stats p)"
    and "s_rss s = st_vm_rss (lp_stats p)" and "s_vms s = st_vm_size (lp_stats p)"
    and "s_rss_delta s = wrap64 (st_vm_rss (lp_stats p) - st_vm_rss (lp_prev_stats p))"
    and "s_vms_delta s = wrap64 (st_vm_size (lp_stats p) - st_vm_size (lp_prev_stats p))"
    and "int_range 32 (s_fds s)"
    and "(lp_prev_rx p', lp_prev_tx p') =
      (case pv_net_dev v of Inl e \<Rightarrow> (lp_prev_rx p, lp_prev_tx p) | Inr content \<Rightarrow> parse_proc_net_dev content)"
    and "(s_rx_delta s, s_tx_delta s) =
      (case pv_net_dev v of Inl e \<Rightarrow> (0, 0)
       | Inr content \<Rightarrow> (case parse_proc_net_dev content of (rx, tx) \<Rightarrow>
           if rx \<le> lp_prev_rx p \<or> tx \<le> lp_prev_tx p then (0, 0)
           else (wrap64 (rx - lp_prev_rx p), wrap64 (tx - lp_prev_tx p))))"
proof -
  obtain p1 s1 where 1: "populate_static_data v p (new_status m (sa_pid svc) svc) = (p1, s1)" by fastforce
  define s2 where "s2 = populate_gauges m priv v p1 s1"
  obtain p3 s3 where 3: "populate_io_counters v p1 s2 = (p3, s3)" by fastforce
  obtain p4 s4 where 4: "populate_network_info v p3 s3 = (p4, s4)" by fastforce
  have r: "p' = p4\<lparr>lp_prev_stats := lp_stats p4\<rparr>" "s = s4"
    using assms 1 3 4 by (simp_all add: sample_process_def s2_def)
  have s1: "s_fds s1 = 0" "s_rx_delta s1 = 0" "s_tx_delta s1 = 0"
    using static_data_facts(7) [OF 1] by (metis status.select_convs new_status_def status.update_convs(1))+
  have p3: "lp_pid p3 = lp_pid p" "lp_stats p3 = lp_stats p" "lp_prev_rx p3 = lp_prev_rx p" "lp_prev_tx p3 = lp_prev_tx p"
    using io_counters_facts(1) [OF 3] static_data_facts [OF 1] by (metis linux_process.select_convs linux_process.surjective linux_process.update_convs)+
  have p4: "lp_pid p4 = lp_pid p3" "lp_stats p4 = lp_stats p3"
    using network_facts(1) [OF 4] by (metis linux_process.select_convs linux_process.surjective linux_process.update_convs)+
  note s2 = gauges_facts [of m priv v p1 s1, folded s2_def] and s3 = io_counters_facts [OF 3]
    and s4 = network_facts [OF 4] and s0 = static_data_facts [OF 1]
  show "lp_pid p' = lp_pid p" "lp_stats p' = lp_stats p" "lp_prev_stats p' = lp_stats p"
    by (simp_all add: r p3 p4)
  show "id_pid (s_id s) = lp_pid p" "id_ppid (s_id s) = st_ppid (lp_stats p)"
    by (simp_all only: r s4(2) s3(2) s2(1) s0(8,9))
  show "s_threads s = st_num_threads (lp_stats p)" "s_rss s = st_vm_rss (lp_stats p)" "s_vms s = st_vm_size (lp_stats p)"
    "s_rss_delta s = wrap64 (st_vm_rss (lp_stats p) - st_vm_rss (lp_prev_stats p))"
    "s_vms_delta s = wrap64 (st_vm_size (lp_stats p) - st_vm_size (lp_prev_stats p))"
    by (simp_all only: r s4(3-8) s3(3-8) s2(2-6) s0(2-4))
  have "int_range 32 (num_fds v p1)"
    by (simp add: num_fds_def split: sum.split prod.split) (simp add: int_range_def)
  then show "int_range 32 (s_fds s)"
    by (simp add: r s4(8) s3(8) s2(7) s1) (simp add: int_range_def)
  show "(lp_prev_rx p', lp_prev_tx p') =
      (case pv_net_dev v of Inl e \<Rightarrow> (lp_prev_rx p, lp_prev_tx p) | Inr content \<Rightarrow> parse_proc_net_dev content)"
    using s4(9) [unfolded p3] by (simp add: r)
  show "(s_rx_delta s, s_tx_delta s) =
      (case pv_net_dev v of Inl e \<Rightarrow> (0, 0)
       | Inr content \<Rightarrow> (case parse_proc_net_dev content of (rx, tx) \<Rightarrow>
           if rx \<le> lp_prev_rx p \<or> tx \<le> lp_prev_tx p then (0, 0)
           else (wrap64 (rx - lp_prev_rx p), wrap64 (tx - lp_prev_tx p))))"
    using s4(10) [unfolded p3 s3(9,10) s2(8,9) s1] by (simp add: r)
qed

subsection \<open>A series of harvests of one process\<close>

text \<open>The results of harvesting one process at successive moments.\<close>

fun harvest_series ::
    "'f machine \<Rightarrow> bool \<Rightarrow> service_attrs \<Rightarrow> (int \<Rightarrow> proc_view) list \<Rightarrow> 'f proc_cache \<Rightarrow> (proc_error + 'f status) list" where
  "harvest_series m priv svc [] c = []"
| "harvest_series m priv svc (w # ws) c =
     (case harvest m priv w svc c of (c', r) \<Rightarrow> r # harvest_series m priv svc ws c')"

fun outcome_series where
  "outcome_series m priv svc [] cached = []"
| "outcome_series m priv svc (w # ws) cached =
     (case harvest_outcome m priv (w (sa_pid svc)) svc cached of
        Inl e \<Rightarrow> Inl e # outcome_series m priv svc ws cached
      | Inr (p, s) \<Rightarrow> Inr s # outcome_series m priv svc ws (Some p))"

definition roomy :: "'f proc_cache \<Rightarrow> int \<Rightarrow> bool" where
  "roomy c pid \<longleftrightarrow> lru_inv c \<and> Suc (length (filter (\<lambda>k. k \<noteq> pid) (lru_keys c))) < nat (lru_size c)"

lemma length_filter_ne: "distinct xs \<Longrightarrow> length xs \<le> Suc (length (filter (\<lambda>x. x \<noteq> k) xs))"
proof (induction xs)
  case (Cons a xs)
  show ?case
  proof (cases "a = k")
    case True
    then have "filter (\<lambda>x. x \<noteq> k) xs = xs" using Cons.prems by (auto intro: filter_True)
    with True show ?thesis by simp
  qed (use Cons in simp)
qed simp

lemma roomy_length: "roomy c pid \<Longrightarrow> length (lru_keys c) < nat (lru_size c)"
  using length_filter_ne [of "lru_keys c" pid] lru.keys_distinct [of c] by (simp add: roomy_def)

lemma series_outcomes:
  "roomy c (sa_pid svc) \<Longrightarrow> harvest_series m priv svc ws c = outcome_series m priv svc ws (lru_lookup c (sa_pid svc))"
proof (induction ws arbitrary: c)
  case (Cons w ws)
  from Cons.prems have "lru_inv c" by (simp add: roomy_def)
  from harvest_spec [OF this roomy_length [OF Cons.prems], of m priv w svc]
  obtain c' where c': "harvest m priv w svc c =
      (c', map_sum id snd (harvest_outcome m priv (w (sa_pid svc)) svc (lru_lookup c (sa_pid svc))))"
    "lru_inv c'" "nat (lru_size c') = nat (lru_size c)"
    "lru_lookup c' = (case harvest_outcome m priv (w (sa_pid svc)) svc (lru_lookup c (sa_pid svc)) of
        Inl e \<Rightarrow> lru_lookup c | Inr (p, s) \<Rightarrow> (lru_lookup c)(sa_pid svc \<mapsto> p))"
    "filter (\<lambda>k. k \<noteq> sa_pid svc) (lru_keys c') = filter (\<lambda>k. k \<noteq> sa_pid svc) (lru_keys c)"
    by metis
  then have "roomy c' (sa_pid svc)" using Cons.prems by (simp add: roomy_def)
  from Cons.IH [OF this] c' show ?case by (auto split: sum.splits prod.splits)
qed simp

subsection \<open>The numbers of a status are in range\<close>

lemma new_process_typed: "pid_ok pid \<Longrightarrow> stats_typed st \<Longrightarrow> process_typed (new_process m st pid priv now)"
  by (simp add: process_typed_def new_process_def zero_stats_def stats_typed_def pid_ok_def int_range_def)

lemma linux_process_typed:
  assumes "get_linux_process m cached pid priv v = Inr (reused, p)" and "pid_ok pid"
    and "\<And>old. cached = Some old \<Longrightarrow> process_typed old"
  shows "process_typed p"
proof -
  obtain st where st: "read_proc_stat m (pv_stat v) = Inr st"
    "reused \<longleftrightarrow> (\<exists>old. cached = Some old \<and> same_process st old)"
    "\<not> reused \<Longrightarrow> p = new_process m st pid priv (pv_now v)"
    "\<And>old. reused \<Longrightarrow> cached = Some old \<Longrightarrow> p = old\<lparr>lp_prev_time := lp_time old, lp_stats := st, lp_time := pv_now v\<rparr>"
    using get_linux_process_cases [OF assms(1)] by metis
  show ?thesis
  proof (cases reused)
    case True
    with st(2) obtain old where "cached = Some old" by blast
    with st(4) [OF True] assms(3) read_proc_stat_typed [OF st(1)] show ?thesis by (simp add: process_typed_def)
  qed (use st assms(2) read_proc_stat_typed new_process_typed in metis)
qed

lemma sample_typed:
  assumes "sample_process m priv v svc p = (p', s)" and "process_typed p"
  shows "process_typed p' \<and> status_typed s"
proof -
  note facts = sample_process_facts [OF assms(1)]
  have "int_range 64 (lp_prev_rx p') \<and> int_range 64 (lp_prev_tx p')"
  proof (cases "pv_net_dev v")
    case (Inr content)
    with facts(12) net_dev_range [of content "lp_prev_rx p'" "lp_prev_tx p'"] show ?thesis by simp
  qed (use facts(12) assms(2) in \<open>simp add: process_typed_def\<close>)
  moreover have "int_range 64 (s_rx_delta s) \<and> int_range 64 (s_tx_delta s)"
    using facts(13) by (auto simp: int_range_def [of 64 0] split: sum.splits prod.splits if_splits)
  ultimately show ?thesis
    using assms(2) facts(1-11) by (simp add: process_typed_def status_typed_def stats_typed_def)
qed

lemma harvested_typed:
  assumes "harvested m priv world f svc = Some (p, s)" and "pid_ok (sa_pid svc)"
    and "\<And>old. f (sa_pid svc) = Some old \<Longrightarrow> process_typed old"
  shows "process_typed p \<and> status_typed s"
proof -
  obtain reused q p' where q: "get_linux_process m (f (sa_pid svc)) (sa_pid svc) priv (world (sa_pid svc)) = Inr (reused, q)"
    "sample_process m priv (world (sa_pid svc)) svc q = (p', s)"
    "p = (case f (sa_pid svc) of None \<Rightarrow> p' | Some old \<Rightarrow> if reused then p' else old)"
    using assms(1) by (auto simp: harvested_def harvest_outcome_def split: sum.splits prod.splits)
  have "process_typed q" by (rule linux_process_typed [OF q(1) assms(2,3)])
  then have "process_typed p' \<and> status_typed s" by (rule sample_typed [OF q(2)])
  with q(3) assms(3) show ?thesis by (auto split: option.splits)
qed

definition collector_typed :: "'f collector \<Rightarrow> bool" where
  "collector_typed c \<longleftrightarrow> (\<forall>k p. lru_lookup (c_cache c) k = Some p \<longrightarrow> process_typed p) \<and>
     (\<forall>procs \<in> set (c_sent c). \<forall>s \<in> set procs. status_typed s)"

lemma turn_typed:
  assumes inv: "collector_inv c" and typed: "collector_typed c"
  shows "collector_typed (collector_turn m priv e c)"
proof (cases e)
  case (Tick world)
  let ?f = "lru_lookup (c_cache c)"
  from inv have pids: "pids_ok (c_pids c)" and li: "lru_inv (c_cache c)" by (simp_all add: collector_inv_def)
  then have keyed: "keyed (c_pids c)" by (simp add: pids_ok_def)
  from collect_spec [OF li keyed pids_room [OF pids li], of m priv world] inv obtain d where
    d: "collect m priv world (c_pids c) (c_cache c) =
        (d, statuses_of m priv world ?f (c_pids c), gone m priv world ?f (c_pids c))"
    "lru_lookup d = snapshots_of m priv world ?f (c_pids c)"
    unfolding collector_inv_def by metis
  have h: "process_typed p \<and> status_typed s"
    if "(pid, svc) \<in> set (c_pids c)" "harvested m priv world ?f svc = Some (p, s)" for pid svc p s
    using that pids typed
    by (intro harvested_typed [OF that(2)]) (auto simp: pids_ok_def keyed_def collector_typed_def)
  have "process_typed p" if "lru_lookup d k = Some p" for k p
  proof -
    from that obtain svc where svc: "mget (c_pids c) k = Some svc"
      and p: "map_option fst (harvested m priv world ?f svc) = Some p"
      by (auto simp only: d(2) snapshots_of_def split: option.splits)
    from p obtain s where "harvested m priv world ?f svc = Some (p, s)" by auto
    with h [OF map_of_SomeD [OF svc]] show ?thesis by blast
  qed
  moreover have "status_typed s" if "s \<in> set (statuses_of m priv world ?f (c_pids c))" for s
    by (rule statuses_harvested [OF that]) (simp add: h)
  ultimately show ?thesis using typed by (auto simp: Tick d(1) collector_typed_def)
qed (use typed in \<open>simp add: collector_typed_def\<close>)

lemma run_typed: "collector_run m priv c \<Longrightarrow> collector_typed c"
proof (induction rule: collector_run.induct)
  case start
  show ?case by (simp add: collector_typed_def new_collector_def empty_proc_cache_def lru_lookup_def)
qed (simp add: turn_typed run_inv)

subsection \<open>Adding up the deltas\<close>

text \<open>A view of one process, that did not change its command or its parent.\<close>

definition sees :: "'f machine \<Rightarrow> string \<Rightarrow> int \<Rightarrow> proc_view \<Rightarrow> bool" where
  "sees m cmd ppid v \<longleftrightarrow>
     (case read_proc_stat m (pv_stat v) of
        Inl e \<Rightarrow> False | Inr st \<Rightarrow> st_command st = cmd \<and> st_ppid st = ppid)"

lemma outcome_reused:
  assumes "sees m (st_command (lp_stats old)) (st_ppid (lp_stats old)) v"
  obtains p s where "harvest_outcome m priv v svc (Some old) = Inr (p, s)"
    "lp_prev_stats p = lp_stats p" "st_command (lp_stats p) = st_command (lp_stats old)"
    "st_ppid (lp_stats p) = st_ppid (lp_stats old)"
    "s_rss s = st_vm_rss (lp_stats p)" "s_vms s = st_vm_size (lp_stats p)"
    "s_rss_delta s = wrap64 (s_rss s - st_vm_rss (lp_prev_stats old))"
    "s_vms_delta s = wrap64 (s_vms s - st_vm_size (lp_prev_stats old))"
proof -
  obtain st where st: "read_proc_stat m (pv_stat v) = Inr st" "same_process st old"
    "st_command st = st_command (lp_stats old)" "st_ppid st = st_ppid (lp_stats old)"
    using assms by (auto simp: sees_def same_process_def split: sum.splits)
  define q where "q = old\<lparr>lp_prev_time := lp_time old, lp_stats := st, lp_time := pv_now v\<rparr>"
  obtain p s where ps: "sample_process m priv v svc q = (p, s)" by fastforce
  have "harvest_outcome m priv v svc (Some old) = Inr (p, s)"
    using st ps by (simp add: harvest_outcome_def get_linux_process_def q_def)
  with sample_process_facts [OF ps] st show ?thesis by (intro that [of p s]) (simp_all add: q_def)
qed

lemma outcome_new:
  assumes "read_proc_stat m (pv_stat v) = Inr st" and "pv_process v = Inr ()"
    and "\<And>old. cached = Some old \<Longrightarrow> \<not> same_process st old"
  obtains p s where "harvest_outcome m priv v svc cached = Inr (case cached of None \<Rightarrow> p | Some old \<Rightarrow> old, s)"
    "lp_prev_stats p = lp_stats p" "lp_stats p = st"
    "s_rss s = st_vm_rss st" "s_vms s = st_vm_size st"
    "s_rss_delta s = s_rss s" "s_vms_delta s = s_vms s"
proof -
  define q where "q = new_process m st (sa_pid svc) priv (pv_now v)"
  obtain p s where ps: "sample_process m priv v svc q = (p, s)" by fastforce
  have "harvest_outcome m priv v svc cached = Inr (case cached of None \<Rightarrow> p | Some old \<Rightarrow> old, s)"
    using assms ps by (auto simp: harvest_outcome_def get_linux_process_def q_def split: option.splits)
  moreover have "wrap64 (st_vm_rss st) = st_vm_rss st" "wrap64 (st_vm_size st) = st_vm_size st"
    using read_proc_stat_typed [OF assms(1)] by (simp_all add: stats_typed_def wrap64_in_range)
  ultimately show ?thesis
    using sample_process_facts [OF ps] by (intro that [of p s]) (simp_all add: q_def new_process_def zero_stats_def)
qed

lemma reused_series:
  assumes "\<forall>w \<in> set ws. sees m (st_command (lp_stats old)) (st_ppid (lp_stats old)) (w (sa_pid svc))"
    and "lp_prev_stats old = lp_stats old"
  shows "\<exists>ss. outcome_series m priv svc ws (Some old) = map Inr ss \<and> length ss = length ws \<and>
    wrap64 (st_vm_rss (lp_stats old) + sum_list (map s_rss_delta ss)) =
      wrap64 (if ss = [] then st_vm_rss (lp_stats old) else s_rss (last ss)) \<and>
    wrap64 (st_vm_size (lp_stats old) + sum_list (map s_vms_delta ss)) =
      wrap64 (if ss = [] then st_vm_size (lp_stats old) else s_vms (last ss))"
  using assms
proof (induction ws arbitrary: old)
  case (Cons w ws)
  from Cons.prems(1) have "sees m (st_command (lp_stats old)) (st_ppid (lp_stats old)) (w (sa_pid svc))" by simp
  from outcome_reused [OF this, of priv svc] obtain p s where o:
    "harvest_outcome m priv (w (sa_pid svc)) svc (Some old) = Inr (p, s)"
    "lp_prev_stats p = lp_stats p" "st_command (lp_stats p) = st_command (lp_stats old)"
    "st_ppid (lp_stats p) = st_ppid (lp_stats old)"
    "s_rss s = st_vm_rss (lp_stats p)" "s_vms s = st_vm_size (lp_stats p)"
    "s_rss_delta s = wrap64 (s_rss s - st_vm_rss (lp_prev_stats old))"
    "s_vms_delta s = wrap64 (s_vms s - st_vm_size (lp_prev_stats old))"
    by metis
  from Cons.prems(1) o have "\<forall>w \<in> set ws. sees m (st_command (lp_stats p)) (st_ppid (lp_stats p)) (w (sa_pid svc))"
    by simp
  from Cons.IH [OF this o(2)] obtain ss where ss: "outcome_series m priv svc ws (Some p) = map Inr ss"
    "length ss = length ws"
    "wrap64 (st_vm_rss (lp_stats p) + sum_list (map s_rss_delta ss)) =
      wrap64 (if ss = [] then st_vm_rss (lp_stats p) else s_rss (last ss))"
    "wrap64 (st_vm_size (lp_stats p) + sum_list (map s_vms_delta ss)) =
      wrap64 (if ss = [] then st_vm_size (lp_stats p) else s_vms (last ss))"
    by blast
  have "wrap64 (b + (wrap64 (a - b) + c)) = wrap64 (a + c)" for a b c :: int
    using wrap64_add [of "a - b" "b + c"] by (simp add: algebra_simps)
  with o ss Cons.prems(2) show ?case by (intro exI [of _ "s # ss"]) auto
qed simp

text \<open>The sum of the deltas that are sent for a process is its memory.\<close>

lemma memory_deltas_add_up:
  assumes "roomy cache (sa_pid svc)" and "lru_lookup cache (sa_pid svc) = None" and "ws \<noteq> []"
    and "\<forall>w \<in> set ws. sees m cmd ppid (w (sa_pid svc))" and "pv_process (hd ws (sa_pid svc)) = Inr ()"
  shows "\<exists>ss. harvest_series m priv svc ws cache = map Inr ss \<and> length ss = length ws \<and>
    wrap64 (sum_list (map s_rss_delta ss)) = wrap64 (s_rss (last ss)) \<and>
    wrap64 (sum_list (map s_vms_delta ss)) = wrap64 (s_vms (last ss))"
proof -
  obtain w ws' where ws: "ws = w # ws'" using assms(3) by (cases ws) auto
  obtain st where st: "read_proc_stat m (pv_stat (w (sa_pid svc))) = Inr st" "st_command st = cmd" "st_ppid st = ppid"
    using assms(4) by (auto simp: ws sees_def split: sum.splits)
  have "pv_process (w (sa_pid svc)) = Inr ()" using assms(5) by (simp add: ws)
  from outcome_new [OF st(1) this, where cached = None and priv = priv and svc = svc] obtain p s where o:
    "harvest_outcome m priv (w (sa_pid svc)) svc None = Inr (p, s)" "lp_prev_stats p = lp_stats p" "lp_stats p = st"
    "s_rss s = st_vm_rss st" "s_vms s = st_vm_size st" "s_rss_delta s = s_rss s" "s_vms_delta s = s_vms s"
    by auto
  from assms(4) st o(3) have "\<forall>w \<in> set ws'. sees m (st_command (lp_stats p)) (st_ppid (lp_stats p)) (w (sa_pid svc))"
    by (simp add: ws)
  from reused_series [OF this o(2), of priv] obtain ss where
    "outcome_series m priv svc ws' (Some p) = map Inr ss" "length ss = length ws'"
    "wrap64 (st_vm_rss st + sum_list (map s_rss_delta ss)) = wrap64 (if ss = [] then st_vm_rss st else s_rss (last ss))"
    "wrap64 (st_vm_size st + sum_list (map s_vms_delta ss)) = wrap64 (if ss = [] then st_vm_size st else s_vms (last ss))"
    using o(3) by auto
  with o show ?thesis
    unfolding series_outcomes [OF assms(1)] assms(2) ws by (intro exI [of _ "s # ss"]) auto
qed

lemma stale_series:
  assumes "\<forall>w \<in> set ws. pv_process (w (sa_pid svc)) = Inr () \<and>
      (\<exists>st. read_proc_stat m (pv_stat (w (sa_pid svc))) = Inr st \<and> \<not> same_process st old)"
  shows "\<exists>ss. outcome_series m priv svc ws (Some old) = map Inr ss \<and> length ss = length ws \<and>
    (\<forall>s \<in> set ss. s_rss_delta s = s_rss s \<and> s_vms_delta s = s_vms s)"
  using assms
proof (induction ws)
  case (Cons w ws)
  then obtain ss where ss: "outcome_series m priv svc ws (Some old) = map Inr ss" "length ss = length ws"
    "\<forall>s \<in> set ss. s_rss_delta s = s_rss s \<and> s_vms_delta s = s_vms s" by auto
  from Cons.prems obtain st where st: "read_proc_stat m (pv_stat (w (sa_pid svc))) = Inr st" "\<not> same_process st old"
    "pv_process (w (sa_pid svc)) = Inr ()" by auto
  have "\<And>o'. Some old = Some o' \<Longrightarrow> \<not> same_process st o'" using st(2) by simp
  from outcome_new [OF st(1,3) this, where priv = priv and svc = svc] obtain s where
    "harvest_outcome m priv (w (sa_pid svc)) svc (Some old) = Inr (old, s)"
    "s_rss_delta s = s_rss s" "s_vms_delta s = s_vms s"
    by (metis option.simps(5))
  with ss show ?case by (intro exI [of _ "s # ss"]) auto
qed simp

subsection \<open>Properties\<close>

text \<open>
  The numbers of every status that the collector ever sends are in the range of their Go
  types, that is, no conversion or counter leaves the range that its consumers assume:
  PIDs are unsigned 32-bit numbers, thread and descriptor counts signed 32-bit numbers,
  sizes and deltas signed 64-bit numbers; and so are those of all cached snapshots.
\<close>

lemma sent_statuses_typed:
  assumes "collector_run m priv c"
  shows "(\<forall>procs \<in> set (c_sent c). \<forall>s \<in> set procs. status_typed s) \<and>
    (\<forall>k p. lru_lookup (c_cache c) k = Some p \<longrightarrow> process_typed p)"
  using run_typed [OF assms] by (simp add: collector_typed_def)

text \<open>
  C18: a snapshot of a dead process stays in the cache for as long as its PID is in use. When a
  new process takes the PID (the command or the parent differs), \<open>Harvest\<close> makes a new
  snapshot but does not store it, because the cache has an entry; so each later harvest
  starts from nothing again and sends the full size as the delta: after \<open>n\<close> harvests the
  sum of the deltas is the sum of the \<open>n\<close> sizes, not the size.
\<close>

theorem stale_snapshot_repeats_deltas:
  assumes "roomy cache (sa_pid svc)" and "lru_lookup cache (sa_pid svc) = Some old"
    and "\<forall>w \<in> set ws. pv_process (w (sa_pid svc)) = Inr () \<and>
      (\<exists>st. read_proc_stat m (pv_stat (w (sa_pid svc))) = Inr st \<and> \<not> same_process st old)"
  shows "\<exists>ss. harvest_series m priv svc ws cache = map Inr ss \<and> length ss = length ws \<and>
    sum_list (map s_rss_delta ss) = sum_list (map s_rss ss) \<and>
    sum_list (map s_vms_delta ss) = sum_list (map s_vms ss)"
proof -
  obtain ss where ss: "outcome_series m priv svc ws (Some old) = map Inr ss" "length ss = length ws"
    "\<forall>s \<in> set ss. s_rss_delta s = s_rss s \<and> s_vms_delta s = s_vms s"
    using stale_series [OF assms(3)] by blast
  have "sum_list (map s_rss_delta ss) = sum_list (map s_rss ss)" "sum_list (map s_vms_delta ss) = sum_list (map s_vms ss)"
    using ss(3) by (simp_all cong: map_cong)
  with ss(1,2) show ?thesis
    by (intro exI [of _ ss]) (simp add: series_outcomes [OF assms(1)] assms(2))
qed

text \<open>
  C19: the network deltas of a status are never negative, so that adding them cannot crash a
  counter, also where the table of devices lost rows. The price is that one idle direction
  hides the traffic of the other: where the bytes of one direction did not grow since the
  last harvest, both deltas are zero, and the bytes of the other direction are never
  reported.
\<close>

theorem network_deltas:
  assumes "sample_process m priv v svc p = (p', s)" and "0 \<le> lp_prev_rx p" and "0 \<le> lp_prev_tx p"
  shows "0 \<le> s_rx_delta s \<and> 0 \<le> s_tx_delta s \<and>
    (\<forall>content rx tx. pv_net_dev v = Inr content \<and> parse_proc_net_dev content = (rx, tx) \<longrightarrow>
      lp_prev_rx p' = rx \<and> lp_prev_tx p' = tx \<and>
      (if lp_prev_rx p < rx \<and> lp_prev_tx p < tx
       then s_rx_delta s = rx - lp_prev_rx p \<and> s_tx_delta s = tx - lp_prev_tx p
       else s_rx_delta s = 0 \<and> s_tx_delta s = 0))"
proof (cases "pv_net_dev v")
  case (Inl e)
  then show ?thesis using sample_process_facts(13) [OF assms(1)] by simp
next
  case (Inr content)
  obtain rx tx where n: "parse_proc_net_dev content = (rx, tx)" by fastforce
  have "int_range 64 rx" "int_range 64 tx" using net_dev_range [OF n] by simp_all
  then have "lp_prev_rx p < rx \<Longrightarrow> wrap64 (rx - lp_prev_rx p) = rx - lp_prev_rx p"
    "lp_prev_tx p < tx \<Longrightarrow> wrap64 (tx - lp_prev_tx p) = tx - lp_prev_tx p"
    using assms(2,3) by (auto intro!: wrap64_in_range simp: int_range_def)
  with n Inr sample_process_facts(12,13) [OF assms(1)] show ?thesis
    by (auto split: if_splits)
qed

lemma roomy_empty: "roomy empty_proc_cache pid"
  by (simp add: roomy_def empty_proc_cache_def lru_defs)

text \<open>A cache with a process that has died since.\<close>

definition old_process :: "int linux_process" where
  "old_process = new_process sample_machine (zero_stats sample_machine) 7 True 0"

definition old_cache :: "int proc_cache" where
  "old_cache = \<lparr>lru_size = 2 ^ 63 - 1, lru_items = [(7, old_process)]\<rparr>"

theorem stale_snapshot_repeats_deltas_witness:
  "\<exists>ss. harvest_series sample_machine True sample_service [\<lambda>_. sample_view, \<lambda>_. sample_view] old_cache = map Inr ss \<and>
    length ss = length [\<lambda>_::int. sample_view, \<lambda>_. sample_view] \<and>
    sum_list (map s_rss_delta ss) = sum_list (map s_rss ss) \<and>
    sum_list (map s_vms_delta ss) = sum_list (map s_vms ss)"
proof (rule stale_snapshot_repeats_deltas)
  show "lru_lookup old_cache (sa_pid sample_service) = Some old_process"
    by (simp add: old_cache_def sample_service_def lru_lookup_def)
  have "pv_process sample_view = Inr ()" by (simp add: sample_view_def)
  then show "\<forall>w \<in> set [\<lambda>_::int. sample_view, \<lambda>_. sample_view]. pv_process (w (sa_pid sample_service)) = Inr () \<and>
      (\<exists>st. read_proc_stat sample_machine (pv_stat (w (sa_pid sample_service))) = Inr st \<and> \<not> same_process st old_process)"
    by (simp add: sample_stat same_process_def old_process_def new_process_def zero_stats_def)
qed (simp add: roomy_def old_cache_def lru_defs sample_service_def)

text \<open>A table of one device: bytes are sent, none are received.\<close>

definition sample_net_dev :: string where
  "sample_net_dev = ''face'' @ [CHR 0x0A] @ '' eth0: 0 1 1 1 1 1 1 1 6 2 2'' @ [CHR 0x0A]"

definition idle_sample :: "int linux_process \<times> int status" where
  "idle_sample = sample_process sample_machine True (sample_view\<lparr>pv_net_dev := Inr sample_net_dev\<rparr>) sample_service old_process"

theorem network_deltas_witness:
  "parse_proc_net_dev sample_net_dev = (0, 6) \<and> s_rx_delta (snd idle_sample) = 0 \<and> s_tx_delta (snd idle_sample) = 0"
proof -
  have n: "parse_proc_net_dev sample_net_dev = (0, 6)" by code_simp
  have "sample_process sample_machine True (sample_view\<lparr>pv_net_dev := Inr sample_net_dev\<rparr>) sample_service old_process =
      (fst idle_sample, snd idle_sample)" by (simp add: idle_sample_def)
  from network_deltas [OF this] n show ?thesis
    by (simp add: old_process_def new_process_def)
qed

end
