(* ===== verification/Proc_Metrics.thy ===== *)
theory Proc_Metrics
  imports Survey_Metrics Proc_Accounting
begin

text \<open>
  The exporters of the process metrics: which attributes a metric has
  (pkg/export/extraattributes and the vendored selector), the Prometheus reporter
  (pkg/export/prom/prom_proc.go) and the OTEL exporter (pkg/export/otel/metrics_proc.go).

  What an exporter writes to its instruments for a status is a list of points. How the user
  selects attributes (glob patterns for each metric section) is a parameter: the inclusion
  lists that match a section, each a pair of predicates on attribute names.
\<close>

subsection \<open>Attributes of a metric\<close>

datatype attr_group = AttrGroup (group_disabled: bool) (sub_groups: "attr_group list") (group_attrs: "(string \<times> bool) list")

definition new_attr_group :: "bool \<Rightarrow> attr_group list \<Rightarrow> (string \<times> bool) list \<Rightarrow> string list \<Rightarrow> attr_group" where
  "new_attr_group disabled subs attrs extra = AttrGroup disabled subs (mput_all attrs (map (\<lambda>a. (a, True)) extra))"

fun all_attrs :: "attr_group \<Rightarrow> string list" where
  "all_attrs (AttrGroup disabled subs attrs) =
     (if disabled then [] else concat (map all_attrs subs) @ map fst attrs)"

fun default_attrs :: "attr_group \<Rightarrow> string list" where
  "default_attrs (AttrGroup disabled subs attrs) =
     (if disabled then [] else concat (map default_attrs subs) @ map fst (filter snd attrs))"

record metric_name =
  mn_section :: string
  mn_prom :: string
  mn_otel :: string

definition process_cpu_time :: metric_name where
  "process_cpu_time = \<lparr>mn_section = ''process.cpu.time'', mn_prom = ''process_cpu_time_seconds_total'',
     mn_otel = ''process.cpu.time''\<rparr>"

definition process_cpu_utilization :: metric_name where
  "process_cpu_utilization = \<lparr>mn_section = ''process.cpu.utilization'', mn_prom = ''process_cpu_utilization_ratio'',
     mn_otel = ''process.cpu.utilization''\<rparr>"

definition process_memory_usage :: metric_name where
  "process_memory_usage = \<lparr>mn_section = ''process.memory.usage'', mn_prom = ''process_memory_usage_bytes'',
     mn_otel = ''process.memory.usage''\<rparr>"

definition process_memory_virtual :: metric_name where
  "process_memory_virtual = \<lparr>mn_section = ''process.memory.virtual'', mn_prom = ''process_memory_virtual_bytes'',
     mn_otel = ''process.memory.virtual''\<rparr>"

definition process_disk_io :: metric_name where
  "process_disk_io = \<lparr>mn_section = ''process.disk.io'', mn_prom = ''process_disk_io_bytes_total'',
     mn_otel = ''process.disk.io''\<rparr>"

definition process_net_io :: metric_name where
  "process_net_io = \<lparr>mn_section = ''process.network.io'', mn_prom = ''process_network_io_bytes_total'',
     mn_otel = ''process.network.io''\<rparr>"

text \<open>
  The attribute groups that the detected environment enables, and the attributes that the
  user adds to each group.
\<close>

record detected_groups =
  dg_kubernetes :: bool
  dg_container :: bool
  dg_prometheus :: bool

record extra_attrs =
  ex_app_kube :: "string list"
  ex_container :: "string list"
  ex_host :: "string list"
  ex_prom_process :: "string list"
  ex_process :: "string list"

definition beyla_definitions :: "detected_groups \<Rightarrow> extra_attrs \<Rightarrow> (string \<times> attr_group) list" where
  "beyla_definitions g x =
     (let app_kube = new_attr_group (\<not> dg_kubernetes g) [] (map (\<lambda>a. (a, True))
            [''k8s.namespace.name'', ''k8s.pod.name'', ''k8s.container.name'', ''k8s.deployment.name'',
             ''k8s.replicaset.name'', ''k8s.daemonset.name'', ''k8s.statefulset.name'', ''k8s.node.name'',
             ''k8s.pod.uid'', ''k8s.pod.start_time'', ''k8s.cluster.name'', ''k8s.owner.name'', ''k8s.kind''])
            (ex_app_kube x);
          container = new_attr_group (\<not> dg_container g) [] [(''container.id'', True), (''container.name'', True)]
            (ex_container x);
          host = new_attr_group False [] [(''host.name'', True)] (ex_host x);
          prom_process = new_attr_group (\<not> dg_prometheus g) []
            [(''instance'', True), (''job'', True), (''process.command'', True), (''process.owner'', True),
             (''process.parent_pid'', True), (''process.pid'', True), (''process.command_line'', False),
             (''process.command_args'', False), (''process.executable.name'', False), (''process.executable.path'', False)]
            (ex_prom_process x);
          process = new_attr_group False [app_kube, host, prom_process, container]
            [(''cpu.mode'', True), (''disk.io.direction'', True), (''network.io.direction'', True)] (ex_process x)
      in map (\<lambda>mn. (mn_section mn, AttrGroup False [process] []))
           [process_cpu_utilization, process_cpu_time, process_memory_usage, process_memory_virtual, process_disk_io,
            process_net_io])"

text \<open>\<open>AttrSelector.For\<close>: the sorted names; the panic for an unknown metric is \<open>None\<close>.\<close>

type_synonym inclusion = "(string \<Rightarrow> bool) \<times> (string \<Rightarrow> bool)"

fun select_loop :: "attr_group \<Rightarrow> bool \<Rightarrow> string list \<Rightarrow> inclusion list \<Rightarrow> string list" where
  "select_loop g first matching [] = matching"
| "select_loop g first matching ((incl, excl) # ls) =
     (let matching = matching @ filter incl (all_attrs g);
          matching = (if first \<and> matching = [] then default_attrs g else matching)
      in select_loop g False (filter (\<lambda>a. \<not> excl a) matching) ls)"

definition sorted_names :: "string list \<Rightarrow> string list" where
  "sorted_names ns = sort (remdups ns)"

definition selector_for :: "(string \<times> attr_group) list \<Rightarrow> (metric_name \<Rightarrow> inclusion list) \<Rightarrow> metric_name \<Rightarrow> string list option" where
  "selector_for defs selection mn =
     (case mget defs (mn_section mn) of
        None \<Rightarrow> None
      | Some g \<Rightarrow> Some (sorted_names
          (if selection mn = [] then default_attrs g else select_loop g True [] (selection mn))))"

text \<open>\<open>buildGetterList\<close>.\<close>

fun getter_list :: "(string \<Rightarrow> ('t \<Rightarrow> 'o) option) \<Rightarrow> (string \<Rightarrow> string) \<Rightarrow> string list \<Rightarrow> (string \<times> ('t \<Rightarrow> 'o)) list" where
  "getter_list getter exposed [] = []"
| "getter_list getter exposed (n # ns) =
     (case getter n of
        None \<Rightarrow> getter_list getter exposed ns
      | Some g \<Rightarrow> (exposed n, g) # getter_list getter exposed ns)"

subsection \<open>Prometheus\<close>

definition label_names :: "(string \<times> ('t \<Rightarrow> string)) list \<Rightarrow> string list" where
  "label_names getters = map fst getters"

definition label_values :: "'t \<Rightarrow> (string \<times> ('t \<Rightarrow> string)) list \<Rightarrow> string list" where
  "label_values s getters = map (\<lambda>g. snd g s) getters"

text \<open>
  A metric of the reporter: the names of its labels, the getters, and whether a status is
  broken down by the explicit attribute (CPU mode or direction).
\<close>

record 'f prom_vec =
  pv_metric :: string
  pv_labels :: "string list"
  pv_attrs :: "(string \<times> ('f status \<Rightarrow> string)) list"
  pv_split :: bool

datatype 'f prom_op = PAdd 'f | PSet 'f

type_synonym 'f prom_point = "string \<times> string list \<times> 'f prom_op"

record 'f proc_reporter =
  pr_cpu_time :: "'f prom_vec"
  pr_cpu_utilization :: "'f prom_vec"
  pr_memory :: "'f prom_vec"
  pr_memory_virtual :: "'f prom_vec"
  pr_disk :: "'f prom_vec"
  pr_net :: "'f prom_vec"

definition attributes_with_explicit ::
    "(metric_name \<Rightarrow> string list) \<Rightarrow> metric_name \<Rightarrow> string \<Rightarrow> string list \<times> (string \<times> ('f status \<Rightarrow> string)) list \<times> bool" where
  "attributes_with_explicit provider mn explicit =
     (let attr_names = provider mn; contains = explicit \<in> set attr_names;
          getters = getter_list prom_getter prom_name attr_names;
          names = (if contains then [prom_name explicit] else [])
      in (names @ map fst getters, getters, contains))"

definition new_proc_reporter :: "(metric_name \<Rightarrow> string list) \<Rightarrow> 'f proc_reporter" where
  "new_proc_reporter provider =
     (let (cpu_time_names, cpu_time_getters, cpu_time_split) = attributes_with_explicit provider process_cpu_time ''cpu.mode'';
          (cpu_util_names, cpu_util_getters, cpu_util_split) = attributes_with_explicit provider process_cpu_utilization ''cpu.mode'';
          (disk_names, disk_getters, disk_split) = attributes_with_explicit provider process_disk_io ''disk.io.direction'';
          (net_names, net_getters, net_split) = attributes_with_explicit provider process_disk_io ''network.io.direction'';
          memory = getter_list prom_getter prom_name (provider process_memory_usage);
          virtual = getter_list prom_getter prom_name (provider process_memory_virtual)
      in \<lparr>pr_cpu_time = \<lparr>pv_metric = mn_prom process_cpu_time, pv_labels = cpu_time_names,
            pv_attrs = cpu_time_getters, pv_split = cpu_time_split\<rparr>,
          pr_cpu_utilization = \<lparr>pv_metric = mn_prom process_cpu_utilization, pv_labels = cpu_util_names,
            pv_attrs = cpu_util_getters, pv_split = cpu_util_split\<rparr>,
          pr_memory = \<lparr>pv_metric = mn_prom process_memory_usage, pv_labels = label_names memory,
            pv_attrs = memory, pv_split = False\<rparr>,
          pr_memory_virtual = \<lparr>pv_metric = mn_prom process_memory_virtual, pv_labels = label_names virtual,
            pv_attrs = virtual, pv_split = False\<rparr>,
          pr_disk = \<lparr>pv_metric = mn_prom process_disk_io, pv_labels = disk_names,
            pv_attrs = disk_getters, pv_split = disk_split\<rparr>,
          pr_net = \<lparr>pv_metric = mn_prom process_net_io, pv_labels = net_names,
            pv_attrs = net_getters, pv_split = net_split\<rparr>\<rparr>)"

text \<open>The observers: one point, or one for each value of the explicit attribute.\<close>

definition aggregated :: "'f prom_vec \<Rightarrow> 'f status \<Rightarrow> 'f prom_op \<Rightarrow> 'f prom_point list" where
  "aggregated vec s op = [(pv_metric vec, label_values s (pv_attrs vec), op)]"

definition disaggregated :: "'f prom_vec \<Rightarrow> 'f status \<Rightarrow> (string \<times> 'f prom_op) list \<Rightarrow> 'f prom_point list" where
  "disaggregated vec s ops =
     (let common = label_values s (pv_attrs vec) in map (\<lambda>(v, op). (pv_metric vec, v # common, op)) ops)"

definition observe_cpu_time :: "'f machine \<Rightarrow> 'f prom_vec \<Rightarrow> 'f status \<Rightarrow> 'f prom_point list" where
  "observe_cpu_time m vec s =
     (let d = s_cpu_delta s in
      if pv_split vec
      then disaggregated vec s [(''user'', PAdd (user_time d)), (''system'', PAdd (system_time d)), (''wait'', PAdd (wait_time d))]
      else aggregated vec s (PAdd (f_add m (f_add m (user_time d) (system_time d)) (wait_time d))))"

definition observe_cpu_utilization :: "'f machine \<Rightarrow> 'f prom_vec \<Rightarrow> 'f status \<Rightarrow> 'f prom_point list" where
  "observe_cpu_utilization m vec s =
     (let d = s_cpu_utilisation s in
      if pv_split vec
      then disaggregated vec s [(''user'', PSet (user_time d)), (''system'', PSet (system_time d)), (''wait'', PSet (wait_time d))]
      else aggregated vec s (PSet (f_add m (f_add m (user_time d) (system_time d)) (wait_time d))))"

definition observe_disk :: "'f machine \<Rightarrow> 'f prom_vec \<Rightarrow> 'f status \<Rightarrow> 'f prom_point list" where
  "observe_disk m vec s =
     (if pv_split vec
      then disaggregated vec s [(''read'', PAdd (f_of_int m (uint (s_read_delta s)))),
                                (''write'', PAdd (f_of_int m (uint (s_write_delta s))))]
      else aggregated vec s (PAdd (f_of_int m (uint (s_read_delta s + s_write_delta s)))))"

definition observe_net :: "'f machine \<Rightarrow> 'f prom_vec \<Rightarrow> 'f status \<Rightarrow> 'f prom_point list" where
  "observe_net m vec s =
     (if pv_split vec
      then disaggregated vec s [(''transmit'', PAdd (f_of_int m (s_tx_delta s))), (''receive'', PAdd (f_of_int m (s_rx_delta s)))]
      else aggregated vec s (PAdd (f_of_int m (wrap64 (s_tx_delta s + s_rx_delta s)))))"

definition prom_observe :: "'f machine \<Rightarrow> 'f proc_reporter \<Rightarrow> 'f status \<Rightarrow> 'f prom_point list" where
  "prom_observe m r s =
     observe_cpu_time m (pr_cpu_time r) s @ observe_cpu_utilization m (pr_cpu_utilization r) s @
     aggregated (pr_memory r) s (PSet (f_of_int m (s_rss s))) @
     aggregated (pr_memory_virtual r) s (PSet (f_of_int m (s_vms s))) @
     observe_disk m (pr_disk r) s @ observe_net m (pr_net r) s"

definition prom_collect :: "'f machine \<Rightarrow> 'f proc_reporter \<Rightarrow> 'f status list list \<Rightarrow> 'f prom_point list" where
  "prom_collect m r input = concat (map (\<lambda>processes. concat (map (prom_observe m r) processes)) input)"

subsection \<open>OTEL\<close>

datatype attr_value = Str string | StrSlice "string list"

definition process_resource_attrs :: "process_id \<Rightarrow> (string \<times> attr_value) list" where
  "process_resource_attrs i =
     [(''service.instance.id'', Str (u_instance (id_uid i))), (''process.command'', Str (id_command i)),
      (''process.owner'', Str (id_user i)), (''process.parent_pid'', Str (itoa (id_ppid i))),
      (''process.pid'', Str (itoa (id_pid i))), (''process.command_line'', Str (id_line i)),
      (''process.command_args'', StrSlice (id_args i)), (''process.executable.name'', Str (id_exec_name i)),
      (''process.executable.path'', Str (id_exec_path i))]"

text \<open>
  The attributes of the resource: those of the service, and those of the process that pass
  the filter; both come from the vendored exporter.
\<close>

definition filtered_process_resource ::
    "(service_attrs \<Rightarrow> (string \<times> attr_value) list) \<Rightarrow> (string \<Rightarrow> bool) \<Rightarrow> process_id \<Rightarrow> (string \<times> attr_value) list" where
  "filtered_process_resource base included i =
     base (id_service i) @ filter (\<lambda>a. included (fst a)) (process_resource_attrs i)"

datatype instrument_kind = FloatCounter | FloatGauge | UpDownCounter | IntCounter

record 'f otel_vec =
  ov_metric :: string
  ov_attrs :: "(string \<times> ('f status \<Rightarrow> string)) list"

record 'f metric_set =
  ms_resource :: "(string \<times> attr_value) list"
  ms_cpu_time :: "'f otel_vec"
  ms_cpu_utilization :: "'f otel_vec"
  ms_memory :: "'f otel_vec"
  ms_memory_virtual :: "'f otel_vec"
  ms_disk :: "'f otel_vec"
  ms_net :: "'f otel_vec"

text \<open>The exporter: the attributes of each metric, and which observers are chosen.\<close>

record 'f proc_exporter =
  pe_attrs :: "metric_name \<Rightarrow> (string \<times> ('f status \<Rightarrow> string)) list"
  pe_cpu_time_split :: bool
  pe_cpu_utilization_split :: bool
  pe_disk_split :: bool
  pe_net_split :: bool

definition new_proc_exporter :: "(metric_name \<Rightarrow> string list) \<Rightarrow> 'f proc_exporter" where
  "new_proc_exporter provider =
     \<lparr>pe_attrs = (\<lambda>mn. getter_list otel_getter (\<lambda>n. n) (provider mn)),
      pe_cpu_time_split = (''cpu.mode'' \<in> set (provider process_cpu_time)),
      pe_cpu_utilization_split = (''cpu.mode'' \<in> set (provider process_cpu_utilization)),
      pe_disk_split = (''disk.io.direction'' \<in> set (provider process_disk_io)),
      pe_net_split = (''network.io.direction'' \<in> set (provider process_net_io))\<rparr>"

text \<open>\<open>newMetricSet\<close>: the meter may fail to create an instrument.\<close>

definition new_metric_set ::
    "'f proc_exporter \<Rightarrow> (process_id \<Rightarrow> (string \<times> attr_value) list) \<Rightarrow> (string \<Rightarrow> instrument_kind \<Rightarrow> string + unit)
     \<Rightarrow> process_id \<Rightarrow> string + 'f metric_set" where
  "new_metric_set pe resource meter i =
     (let vec = (\<lambda>mn. \<lparr>ov_metric = mn_otel mn, ov_attrs = pe_attrs pe mn\<rparr>) in
      and_then (meter (mn_otel process_cpu_time) FloatCounter) (\<lambda>_.
      and_then (meter (mn_otel process_cpu_utilization) FloatGauge) (\<lambda>_.
      and_then (meter (mn_otel process_memory_usage) UpDownCounter) (\<lambda>_.
      and_then (meter (mn_otel process_memory_virtual) UpDownCounter) (\<lambda>_.
      and_then (meter (mn_otel process_disk_io) IntCounter) (\<lambda>_.
      and_then (meter (mn_otel process_net_io) IntCounter) (\<lambda>_.
        Inr \<lparr>ms_resource = resource i, ms_cpu_time = vec process_cpu_time, ms_cpu_utilization = vec process_cpu_utilization,
             ms_memory = vec process_memory_usage, ms_memory_virtual = vec process_memory_virtual,
             ms_disk = vec process_disk_io, ms_net = vec process_net_io\<rparr>)))))))"

datatype 'f otel_op = AddFloat 'f | RecordFloat 'f | AddInt int

type_synonym 'f otel_point = "string \<times> (string \<times> string) list \<times> 'f otel_op"

text \<open>\<open>ForRecord\<close>: the attribute set of a point.\<close>

definition for_record :: "'f otel_vec \<Rightarrow> 'f status \<Rightarrow> (string \<times> string) list \<Rightarrow> 'f otel_op \<Rightarrow> 'f otel_point" where
  "for_record vec s extra op = (ov_metric vec, attr_set (map (\<lambda>(n, g). (n, g s)) (ov_attrs vec) @ extra), op)"

definition otel_cpu_time :: "'f machine \<Rightarrow> bool \<Rightarrow> 'f otel_vec \<Rightarrow> 'f status \<Rightarrow> 'f otel_point list" where
  "otel_cpu_time m split vec s =
     (let d = s_cpu_delta s in
      if split
      then [for_record vec s [(''cpu.mode'', ''wait'')] (AddFloat (wait_time d)),
            for_record vec s [(''cpu.mode'', ''user'')] (AddFloat (user_time d)),
            for_record vec s [(''cpu.mode'', ''system'')] (AddFloat (system_time d))]
      else [for_record vec s [] (AddFloat (f_add m (f_add m (user_time d) (system_time d)) (wait_time d)))])"

definition otel_cpu_utilization :: "'f machine \<Rightarrow> bool \<Rightarrow> 'f otel_vec \<Rightarrow> 'f status \<Rightarrow> 'f otel_point list" where
  "otel_cpu_utilization m split vec s =
     (let d = s_cpu_utilisation s in
      if split
      then [for_record vec s [(''cpu.mode'', ''wait'')] (RecordFloat (wait_time d)),
            for_record vec s [(''cpu.mode'', ''user'')] (RecordFloat (user_time d)),
            for_record vec s [(''cpu.mode'', ''system'')] (RecordFloat (system_time d))]
      else [for_record vec s [] (RecordFloat (f_add m (f_add m (user_time d) (system_time d)) (wait_time d)))])"

definition otel_disk :: "bool \<Rightarrow> 'f otel_vec \<Rightarrow> 'f status \<Rightarrow> 'f otel_point list" where
  "otel_disk split vec s =
     (if split
      then [for_record vec s [(''disk.io.direction'', ''read'')] (AddInt (sint (s_read_delta s))),
            for_record vec s [(''disk.io.direction'', ''write'')] (AddInt (sint (s_write_delta s)))]
      else [for_record vec s [] (AddInt (sint (s_read_delta s + s_write_delta s)))])"

definition otel_net :: "bool \<Rightarrow> 'f otel_vec \<Rightarrow> 'f status \<Rightarrow> 'f otel_point list" where
  "otel_net split vec s =
     (if split
      then [for_record vec s [(''network.io.direction'', ''transmit'')] (AddInt (s_tx_delta s)),
            for_record vec s [(''network.io.direction'', ''receive'')] (AddInt (s_rx_delta s))]
      else [for_record vec s [] (AddInt (wrap64 (s_tx_delta s + s_rx_delta s)))])"

definition otel_observe :: "'f machine \<Rightarrow> 'f proc_exporter \<Rightarrow> 'f metric_set \<Rightarrow> 'f status \<Rightarrow> 'f otel_point list" where
  "otel_observe m pe ms s =
     otel_cpu_time m (pe_cpu_time_split pe) (ms_cpu_time ms) s @
     otel_cpu_utilization m (pe_cpu_utilization_split pe) (ms_cpu_utilization ms) s @
     [for_record (ms_memory ms) s [] (AddInt (s_rss_delta s)), for_record (ms_memory_virtual ms) s [] (AddInt (s_vms_delta s))] @
     otel_disk (pe_disk_split pe) (ms_disk ms) s @ otel_net (pe_net_split pe) (ms_net ms) s"

text \<open>
  \<open>Do\<close>: for each status the metric set of its process, from a pool that makes one on demand;
  a status whose metric set cannot be made is skipped.
\<close>

definition otel_do ::
    "'f machine \<Rightarrow> 'f proc_exporter \<Rightarrow> (process_id \<Rightarrow> string + 'f metric_set) \<Rightarrow> 'f status list list \<Rightarrow> 'f otel_point list" where
  "otel_do m pe reporters input =
     concat (map (\<lambda>ss. concat (map (\<lambda>s.
       case reporters (s_id s) of Inl e \<Rightarrow> [] | Inr ms \<Rightarrow> otel_observe m pe ms s) ss)) input)"

subsection \<open>Which exporters run\<close>

definition otel_process_enabled :: "bool option \<Rightarrow> 64 word \<Rightarrow> bool" where
  "otel_process_enabled endpoint features \<longleftrightarrow>
     (case endpoint of None \<Rightarrow> False | Some enabled \<Rightarrow> enabled) \<and> features_has features feature_process"

record prom_endpoint =
  pe_port :: int
  pe_registry :: bool

definition prom_process_enabled :: "prom_endpoint option \<Rightarrow> 64 word \<Rightarrow> bool" where
  "prom_process_enabled metrics features \<longleftrightarrow>
     (case metrics of None \<Rightarrow> False | Some p \<Rightarrow> pe_port p \<noteq> 0 \<or> pe_registry p) \<and> features_has features feature_process"

subsection \<open>Properties\<close>

definition proc_vecs :: "'f proc_reporter \<Rightarrow> 'f prom_vec list" where
  "proc_vecs r = [pr_cpu_time r, pr_cpu_utilization r, pr_memory r, pr_memory_virtual r, pr_disk r, pr_net r]"

text \<open>A vector takes as many values as it has labels.\<close>

definition vec_fits :: "'f prom_vec \<Rightarrow> bool" where
  "vec_fits v \<longleftrightarrow> length (pv_labels v) = length (pv_attrs v) + (if pv_split v then 1 else 0)"

definition point_fits :: "'f prom_vec list \<Rightarrow> 'f prom_point \<Rightarrow> bool" where
  "point_fits vs p \<longleftrightarrow> list_ex (\<lambda>v. pv_metric v = fst p \<and> length (pv_labels v) = length (fst (snd p))) vs"

lemma new_reporter_fits: "list_all vec_fits (proc_vecs (new_proc_reporter provider))"
  by (simp add: proc_vecs_def new_proc_reporter_def vec_fits_def attributes_with_explicit_def label_names_def Let_def)

lemma aggregated_fits:
  "vec_fits v \<Longrightarrow> \<not> pv_split v \<Longrightarrow> v \<in> set vs \<Longrightarrow> list_all (point_fits vs) (aggregated v s op)"
  by (auto simp: aggregated_def point_fits_def vec_fits_def label_values_def list_ex_iff)

lemma disaggregated_fits:
  "vec_fits v \<Longrightarrow> pv_split v \<Longrightarrow> v \<in> set vs \<Longrightarrow> list_all (point_fits vs) (disaggregated v s ops)"
  by (auto simp: disaggregated_def point_fits_def vec_fits_def label_values_def list_ex_iff list_all_iff Let_def)

lemmas observers = observe_cpu_time_def observe_cpu_utilization_def observe_disk_def observe_net_def

lemma observers_fit:
  assumes "vec_fits v" and "v \<in> set vs"
  shows "list_all (point_fits vs) (observe_cpu_time m v s)" "list_all (point_fits vs) (observe_cpu_utilization m v s)"
    "list_all (point_fits vs) (observe_disk m v s)" "list_all (point_fits vs) (observe_net m v s)"
  using assms by (simp_all add: observers Let_def aggregated_fits disaggregated_fits)

text \<open>
  C27: every point that the Prometheus reporter writes has as many label values as its metric
  has label names, whichever attributes the user selects, so that the library never panics
  on it: where the CPU mode or the direction is selected, its value is prepended to the
  values of the getters as its name is to their names.
\<close>

theorem prom_points_match_labels:
  fixes m :: "'f machine"
  shows "list_all (point_fits (proc_vecs (new_proc_reporter provider))) (prom_collect m (new_proc_reporter provider) input)"
proof -
  let ?r = "new_proc_reporter provider :: 'f proc_reporter"
  have fits: "vec_fits v" if "v \<in> set (proc_vecs ?r)" for v :: "'f prom_vec"
    using new_reporter_fits [of provider, where 'a = 'f] that by (simp add: list_all_iff)
  have "\<not> pv_split (pr_memory ?r)" "\<not> pv_split (pr_memory_virtual ?r)"
    by (simp_all add: new_proc_reporter_def case_prod_beta Let_def)
  then have "list_all (point_fits (proc_vecs ?r)) (prom_observe m ?r s)" for s
    unfolding prom_observe_def list_all_append
    by (intro conjI observers_fit aggregated_fits fits) (simp_all add: proc_vecs_def)
  then show ?thesis by (simp add: prom_collect_def list_all_iff)
qed

text \<open>
  C28: the attributes that the user selects for \<open>process.network.io\<close> have no effect on the
  Prometheus metric, whose labels and break-down by direction follow the selection for
  \<open>process.disk.io\<close> instead; the OTEL metric does follow its own selection.
\<close>

theorem prom_ignores_network_selection:
  "pr_net (new_proc_reporter (provider(process_net_io := names))) = pr_net (new_proc_reporter provider) \<and>
   pv_split (pr_net (new_proc_reporter provider)) = (''network.io.direction'' \<in> set (provider process_disk_io)) \<and>
   pe_net_split (new_proc_exporter (provider(process_net_io := names))) = (''network.io.direction'' \<in> set names)"
proof -
  have "process_disk_io \<noteq> process_net_io" by (simp add: process_disk_io_def process_net_io_def)
  then show ?thesis
    by (simp add: new_proc_reporter_def new_proc_exporter_def attributes_with_explicit_def Let_def case_prod_beta)
qed

text \<open>The sum of what is added to an integer counter.\<close>

fun added :: "'f otel_op \<Rightarrow> int" where
  "added (AddInt n) = n"
| "added _ = 0"

definition counter_total :: "string \<Rightarrow> 'f otel_point list \<Rightarrow> int" where
  "counter_total mn ps = wrap64 (sum_list (map (\<lambda>p. if fst p = mn then added (snd (snd p)) else 0) ps))"
text \<open>What a status adds to the integer counters, whatever its break-down.\<close>

definition status_adds :: "string \<Rightarrow> 'f status \<Rightarrow> int" where
  "status_adds mn s =
     (if mn = mn_otel process_memory_usage then s_rss_delta s
      else if mn = mn_otel process_memory_virtual then s_vms_delta s
      else if mn = mn_otel process_disk_io then sint (s_read_delta s + s_write_delta s)
      else if mn = mn_otel process_net_io then s_tx_delta s + s_rx_delta s
      else 0)"

definition points_sum :: "string \<Rightarrow> 'f otel_point list \<Rightarrow> int" where
  "points_sum mn ps = sum_list (map (\<lambda>p. if fst p = mn then added (snd (snd p)) else 0) ps)"

lemma points_sum_append [simp]:
  "points_sum mn [] = 0" "points_sum mn (p # ps) = (if fst p = mn then added (snd (snd p)) else 0) + points_sum mn ps"
  "points_sum mn (ps @ qs) = points_sum mn ps + points_sum mn qs"
  by (simp_all add: points_sum_def)

lemma counter_total_sum: "counter_total mn ps = wrap64 (points_sum mn ps)"
  by (simp add: counter_total_def points_sum_def)

lemma for_record_simps [simp]: "fst (for_record vec s extra op) = ov_metric vec" "snd (snd (for_record vec s extra op)) = op"
  by (simp_all add: for_record_def)

lemma wrap64_sints: "wrap64 (sint (a :: 64 word) + sint b) = sint (a + b)"
  by (simp add: wrap64_def)

lemma wrap64_idem [simp]: "wrap64 (wrap64 a) = wrap64 a"
  using wrap64_add [of a 0] by simp

lemma wrap64_cong: "wrap64 a = wrap64 a' \<Longrightarrow> wrap64 b = wrap64 b' \<Longrightarrow> wrap64 (a + b) = wrap64 (a' + b')"
  by (metis wrap64_add add.commute)

lemmas process_metric_names = process_cpu_time_def process_cpu_utilization_def process_memory_usage_def
  process_memory_virtual_def process_disk_io_def process_net_io_def

lemma status_adds_memory:
  "status_adds ''process.memory.usage'' = s_rss_delta" "status_adds ''process.memory.virtual'' = s_vms_delta"
  by (simp_all add: status_adds_def process_metric_names fun_eq_iff)

lemma metric_set_names:
  assumes "new_metric_set pe resource meter i = Inr ms"
  shows "ov_metric (ms_cpu_time ms) = ''process.cpu.time''" "ov_metric (ms_cpu_utilization ms) = ''process.cpu.utilization''"
    "ov_metric (ms_memory ms) = ''process.memory.usage''" "ov_metric (ms_memory_virtual ms) = ''process.memory.virtual''"
    "ov_metric (ms_disk ms) = ''process.disk.io''" "ov_metric (ms_net ms) = ''process.network.io''"
  using assms by (auto simp: new_metric_set_def and_then_Inr process_metric_names)

lemma observe_adds:
  assumes "new_metric_set pe resource meter i = Inr ms"
  shows "wrap64 (points_sum mn (otel_observe m pe ms s)) = wrap64 (status_adds mn s)"
  using wrap64_sints [of "s_read_delta s" "s_write_delta s"]
  by (simp add: otel_observe_def otel_cpu_time_def otel_cpu_utilization_def otel_disk_def otel_net_def Let_def
      metric_set_names [OF assms] status_adds_def process_metric_names)
     (simp add: wrap64_def)

lemma points_sum_concat: "points_sum mn (concat pss) = sum_list (map (points_sum mn) pss)"
  by (induction pss) simp_all

lemma wrap64_sum_list:
  "(\<And>x. x \<in> set xs \<Longrightarrow> wrap64 (f x) = wrap64 (g x)) \<Longrightarrow> wrap64 (sum_list (map f xs)) = wrap64 (sum_list (map g xs))"
  by (induction xs) (auto intro: wrap64_cong)

lemma concat_concat_map: "concat (map (\<lambda>ss. concat (map f ss)) input) = concat (map f (concat input))"
  by (induction input) simp_all

text \<open>The pool makes a metric set for every process: no instrument fails.\<close>

definition metric_sets :: "'f proc_exporter \<Rightarrow> (process_id \<Rightarrow> (string \<times> attr_value) list) \<Rightarrow> process_id \<Rightarrow> string + 'f metric_set" where
  "metric_sets pe resource = new_metric_set pe resource (\<lambda>_ _. Inr ())"

lemma total_adds:
  "counter_total mn (otel_do m pe (metric_sets pe resource) input) = wrap64 (sum_list (map (status_adds mn) (concat input)))"
proof -
  have "wrap64 (points_sum mn (case metric_sets pe resource (s_id s) of Inl e \<Rightarrow> [] | Inr ms \<Rightarrow> otel_observe m pe ms s)) =
      wrap64 (status_adds mn s)" for s
  proof -
    obtain ms where ms: "new_metric_set pe resource (\<lambda>_ _. Inr ()) (s_id s) = Inr ms"
      by (simp add: new_metric_set_def)
    then show ?thesis using observe_adds [OF ms] by (simp add: metric_sets_def)
  qed
  then have "wrap64 (sum_list (map (\<lambda>s. points_sum mn (case metric_sets pe resource (s_id s) of Inl e \<Rightarrow> []
      | Inr ms \<Rightarrow> otel_observe m pe ms s)) (concat input))) = wrap64 (sum_list (map (status_adds mn) (concat input)))"
    by (intro wrap64_sum_list) simp
  then show ?thesis
    unfolding counter_total_sum otel_do_def concat_concat_map points_sum_concat by (simp add: comp_def)
qed
text \<open>The last value that a gauge was set to.\<close>

definition gauge_value :: "string \<Rightarrow> 'f prom_point list \<Rightarrow> 'f prom_op" where
  "gauge_value mn ps = snd (snd (last (filter (\<lambda>p. fst p = mn) ps)))"

lemma filter_disaggregated: "filter (\<lambda>p. fst p = mn) (disaggregated v s ops) = (if pv_metric v = mn then disaggregated v s ops else [])"
  by (induction ops) (auto simp: disaggregated_def Let_def)

lemma filter_aggregated: "filter (\<lambda>p. fst p = mn) (aggregated v s op) = (if pv_metric v = mn then aggregated v s op else [])"
  by (simp add: aggregated_def)

lemma reporter_metrics:
  "pv_metric (pr_cpu_time (new_proc_reporter p)) = ''process_cpu_time_seconds_total''"
  "pv_metric (pr_cpu_utilization (new_proc_reporter p)) = ''process_cpu_utilization_ratio''"
  "pv_metric (pr_memory (new_proc_reporter p)) = ''process_memory_usage_bytes''"
  "pv_metric (pr_memory_virtual (new_proc_reporter p)) = ''process_memory_virtual_bytes''"
  "pv_metric (pr_disk (new_proc_reporter p)) = ''process_disk_io_bytes_total''"
  "pv_metric (pr_net (new_proc_reporter p)) = ''process_network_io_bytes_total''"
  by (simp_all add: new_proc_reporter_def case_prod_beta Let_def process_metric_names)

lemma memory_points:
  "filter (\<lambda>p. fst p = ''process_memory_usage_bytes'') (prom_observe m (new_proc_reporter provider) s) =
    [(''process_memory_usage_bytes'', label_values s (pv_attrs (pr_memory (new_proc_reporter provider))), PSet (f_of_int m (s_rss s)))]"
  "filter (\<lambda>p. fst p = ''process_memory_virtual_bytes'') (prom_observe m (new_proc_reporter provider) s) =
    [(''process_memory_virtual_bytes'', label_values s (pv_attrs (pr_memory_virtual (new_proc_reporter provider))),
      PSet (f_of_int m (s_vms s)))]"
  by (simp_all add: prom_observe_def observers Let_def filter_aggregated filter_disaggregated reporter_metrics)
     (simp_all add: aggregated_def reporter_metrics)

lemma gauge_last:
  assumes "ss \<noteq> []"
  shows "gauge_value ''process_memory_usage_bytes'' (prom_collect m (new_proc_reporter provider) (map (\<lambda>s. [s]) ss)) =
      PSet (f_of_int m (s_rss (last ss)))"
    and "gauge_value ''process_memory_virtual_bytes'' (prom_collect m (new_proc_reporter provider) (map (\<lambda>s. [s]) ss)) =
      PSet (f_of_int m (s_vms (last ss)))"
proof -
  obtain xs x where ss: "ss = xs @ [x]" using assms by (cases ss rule: rev_cases) auto
  show "gauge_value ''process_memory_usage_bytes'' (prom_collect m (new_proc_reporter provider) (map (\<lambda>s. [s]) ss)) =
      PSet (f_of_int m (s_rss (last ss)))"
    by (simp add: ss gauge_value_def prom_collect_def memory_points)
  show "gauge_value ''process_memory_virtual_bytes'' (prom_collect m (new_proc_reporter provider) (map (\<lambda>s. [s]) ss)) =
      PSet (f_of_int m (s_vms (last ss)))"
    by (simp add: ss gauge_value_def prom_collect_def memory_points)
qed

text \<open>
  C29: the totals that the OTEL backend shows do not depend on how the user breaks the metrics
  down. For any two selections of attributes and any sequence of statuses, the memory, disk
  and network counters, which count in integers, add up to the same values, over all
  directions. (The CPU time is added up in floating point, where the order of the additions
  can matter; nothing is said of it here.)
\<close>

theorem totals_independent_of_selection:
  assumes "mn \<in> {''process.memory.usage'', ''process.memory.virtual'', ''process.disk.io'', ''process.network.io''}"
  shows "counter_total mn (otel_do m (new_proc_exporter p) (metric_sets (new_proc_exporter p) resource) input) =
    counter_total mn (otel_do m (new_proc_exporter q) (metric_sets (new_proc_exporter q) resource') input)"
  by (simp add: total_adds)

text \<open>
  C30: from /proc to the backends. For a process that is harvested for the first time and
  then again and again, that keeps its command and its parent, and whose snapshot is never
  pushed out of the cache (which has room for it), the OTEL counters of its resident and of
  its virtual memory, which only get deltas, and the two Prometheus gauges, which get absolute
  values, all show the sizes that the last harvest read. (C18 shows what the counters
  get where the process is another one than in the cache.)
\<close>

theorem exported_memory_agrees:
  assumes "roomy cache (sa_pid svc)" and "lru_lookup cache (sa_pid svc) = None" and "ws \<noteq> []"
    and "\<forall>w \<in> set ws. sees m cmd ppid (w (sa_pid svc))" and "pv_process (hd ws (sa_pid svc)) = Inr ()"
  shows "\<exists>ss. harvest_series m priv svc ws cache = map Inr ss \<and> length ss = length ws \<and>
    counter_total ''process.memory.usage'' (otel_do m (new_proc_exporter p) (metric_sets (new_proc_exporter p) resource)
      (map (\<lambda>s. [s]) ss)) = wrap64 (s_rss (last ss)) \<and>
    counter_total ''process.memory.virtual'' (otel_do m (new_proc_exporter p) (metric_sets (new_proc_exporter p) resource)
      (map (\<lambda>s. [s]) ss)) = wrap64 (s_vms (last ss)) \<and>
    gauge_value ''process_memory_usage_bytes'' (prom_collect m (new_proc_reporter p) (map (\<lambda>s. [s]) ss)) =
      PSet (f_of_int m (s_rss (last ss))) \<and>
    gauge_value ''process_memory_virtual_bytes'' (prom_collect m (new_proc_reporter p) (map (\<lambda>s. [s]) ss)) =
      PSet (f_of_int m (s_vms (last ss)))"
proof -
  obtain ss where ss: "harvest_series m priv svc ws cache = map Inr ss" "length ss = length ws"
    "wrap64 (sum_list (map s_rss_delta ss)) = wrap64 (s_rss (last ss))"
    "wrap64 (sum_list (map s_vms_delta ss)) = wrap64 (s_vms (last ss))"
    using memory_deltas_add_up [OF assms] by blast
  have "concat (map (\<lambda>s. [s]) ss) = ss" by (induction ss) simp_all
  moreover have "ss \<noteq> []" using ss(2) assms(3) by auto
  ultimately show ?thesis
    using ss by (intro exI [of _ ss])
      (simp add: total_adds gauge_last status_adds_memory)
qed

theorem totals_independent_of_selection_witness:
  "counter_total ''process.disk.io'' (otel_do sample_machine (new_proc_exporter (\<lambda>_. [''cpu.mode'']))
      (metric_sets (new_proc_exporter (\<lambda>_. [''cpu.mode''])) (\<lambda>_. [])) [[snd idle_sample]]) =
   counter_total ''process.disk.io'' (otel_do sample_machine (new_proc_exporter (\<lambda>_. [''disk.io.direction'']))
      (metric_sets (new_proc_exporter (\<lambda>_. [''disk.io.direction''])) (\<lambda>_. [])) [[snd idle_sample]])"
  by (rule totals_independent_of_selection) simp

theorem exported_memory_agrees_witness:
  "\<exists>ss. harvest_series sample_machine True sample_service [\<lambda>_. sample_view, \<lambda>_. sample_view] empty_proc_cache = map Inr ss \<and>
    length ss = length [\<lambda>_::int. sample_view, \<lambda>_. sample_view] \<and>
    counter_total ''process.memory.usage'' (otel_do sample_machine (new_proc_exporter (\<lambda>_. []))
      (metric_sets (new_proc_exporter (\<lambda>_. [])) (\<lambda>_. [])) (map (\<lambda>s. [s]) ss)) = wrap64 (s_rss (last ss)) \<and>
    counter_total ''process.memory.virtual'' (otel_do sample_machine (new_proc_exporter (\<lambda>_. []))
      (metric_sets (new_proc_exporter (\<lambda>_. [])) (\<lambda>_. [])) (map (\<lambda>s. [s]) ss)) = wrap64 (s_vms (last ss)) \<and>
    gauge_value ''process_memory_usage_bytes'' (prom_collect sample_machine (new_proc_reporter (\<lambda>_. [])) (map (\<lambda>s. [s]) ss)) =
      PSet (f_of_int sample_machine (s_rss (last ss))) \<and>
    gauge_value ''process_memory_virtual_bytes'' (prom_collect sample_machine (new_proc_reporter (\<lambda>_. [])) (map (\<lambda>s. [s]) ss)) =
      PSet (f_of_int sample_machine (s_vms (last ss)))"
proof (rule exported_memory_agrees [OF roomy_empty])
  show "\<forall>w \<in> set [\<lambda>_::int. sample_view, \<lambda>_. sample_view]. sees sample_machine ''app'' 1 (w (sa_pid sample_service))"
    by (simp add: sees_def sample_stat)
qed (simp_all add: empty_proc_cache_def lru_lookup_def sample_view_def)

end
