(* ===== verification/Beyla_Config.thy ===== *)
theory Beyla_Config
  imports Otlp_Exporter Proc_Metrics
begin

text \<open>
  The configuration as a whole: discovery with its default exclusions
  (pkg/services/criteria.go), which features run, validation and normalization
  (pkg/beyla/config.go), the configuration for the vendored library
  (pkg/beyla/config_obi.go), and which pipelines start
  (pkg/internal/pipe/proc_pipeline.go, instrumenter.go, pkg/internal/discover).

  The sections hold the values that this code reads. The check of the discovery section and
  the test for Cilium are those of the vendored library and of the host, and parameters.
\<close>

subsection \<open>Discovery\<close>

text \<open>A criterion: the pattern for the path, empty if there is none, and for metadata.\<close>

record criterion =
  cr_path :: string
  cr_metadata :: "(string \<times> string) list"

definition gke_regex :: string where
  "gke_regex = ''|^gke-connect$|^gke-gmp-system$|^gke-managed-cim$|^gke-managed-filestorecsi$|^gke-managed-metrics-server$'' @
     ''|^gke-managed-system$|^gke-system$|^gke-managed-volumepopulator$''"

definition gke_glob :: string where
  "gke_glob = '',gke-connect,gke-gmp-system,gke-managed-cim,gke-managed-filestorecsi,gke-managed-metrics-server'' @
     '',gke-managed-system,gke-system,gke-managed-volumepopulator''"

definition aks_regex :: string where
  "aks_regex = ''|^gatekeeper-system''"

definition aks_glob :: string where
  "aks_glob = '',gatekeeper-system''"

definition namespaces_regex :: string where
  "namespaces_regex =
     ''^kube-system$|^kube-node-lease$|^local-path-storage$|^grafana-alloy$|^cert-manager$|^monitoring$'' @
     gke_regex @ aks_regex"

definition namespaces_glob :: string where
  "namespaces_glob =
     ''{kube-system,kube-node-lease,local-path-storage,grafana-alloy,cert-manager,monitoring'' @
     gke_glob @ aks_glob @ ''}''"

definition survey_namespaces_regex :: string where
  "survey_namespaces_regex =
     ''^kube-system$|^kube-node-lease$|^local-path-storage$|^cert-manager$'' @ gke_regex @ aks_regex"

definition survey_namespaces_glob :: string where
  "survey_namespaces_glob =
     ''{kube-system,kube-node-lease,local-path-storage,cert-manager'' @ gke_glob @ aks_glob @ ''}''"

definition exclude_container_names :: string where
  "exclude_container_names = ''{beyla,ebpf-instrument,obi,alloy,prometheus-config-reloader,otelcol,otelcol-contrib}''"

definition default_exclude_services :: "criterion list" where
  "default_exclude_services =
     [\<lparr>cr_path = ''(?:^|/)(beyla$|alloy$|prometheus-config-reloader$|otelcol[^/]*$)'', cr_metadata = []\<rparr>,
      \<lparr>cr_path = [], cr_metadata = [(''k8s_namespace'', namespaces_regex)]\<rparr>]"

definition default_exclude_services_with_survey :: "criterion list" where
  "default_exclude_services_with_survey =
     [\<lparr>cr_path = ''(?:^|/)(beyla$|alloy$|prometheus-config-reloader$|otelcol[^/]*$)'', cr_metadata = []\<rparr>,
      \<lparr>cr_path = [], cr_metadata = [(''k8s_namespace'', survey_namespaces_regex)]\<rparr>]"

definition default_exclude_instrument :: "criterion list" where
  "default_exclude_instrument =
     [\<lparr>cr_path = ''{*beyla,*alloy,*prometheus-config-reloader,*ebpf-instrument,*obi,*otelcol,*otelcol-contrib,*otelcol-contrib[!/]*}'',
       cr_metadata = []\<rparr>,
      \<lparr>cr_path = [], cr_metadata = [(''k8s_namespace'', namespaces_glob)]\<rparr>,
      \<lparr>cr_path = [], cr_metadata = [(''k8s_container_name'', exclude_container_names)]\<rparr>]"

definition default_exclude_instrument_with_survey :: "criterion list" where
  "default_exclude_instrument_with_survey =
     [\<lparr>cr_path = ''{*beyla,*alloy,*prometheus-config-reloader,*ebpf-instrument,*obi,*otelcol,*otelcol-contrib,*otelcol-contrib[!/]*}'',
       cr_metadata = []\<rparr>,
      \<lparr>cr_path = [], cr_metadata = [(''k8s_namespace'', survey_namespaces_glob)]\<rparr>,
      \<lparr>cr_path = [], cr_metadata = [(''k8s_container_name'', exclude_container_names)]\<rparr>]"

record discovery_section =
  ds_services :: "criterion list"
  ds_survey :: "criterion list"
  ds_exclude_services :: "criterion list"
  ds_default_exclude_services :: "criterion list"
  ds_instrument :: "criterion list"
  ds_exclude_instrument :: "criterion list"
  ds_default_exclude_instrument :: "criterion list"

definition survey_enabled :: "discovery_section \<Rightarrow> bool" where
  "survey_enabled d \<longleftrightarrow> length (ds_survey d) > 0"

definition override_default_exclude_for_survey :: "discovery_section \<Rightarrow> discovery_section" where
  "override_default_exclude_for_survey d =
     (if ds_default_exclude_services d = default_exclude_services \<and>
         ds_default_exclude_instrument d = default_exclude_instrument
      then d\<lparr>ds_default_exclude_services := default_exclude_services_with_survey,
             ds_default_exclude_instrument := default_exclude_instrument_with_survey\<rparr>
      else d)"

definition app_discovery_enabled :: "discovery_section \<Rightarrow> bool" where
  "app_discovery_enabled d \<longleftrightarrow> length (ds_services d) > 0 \<or> length (ds_instrument d) > 0"

definition only_deprecated_selection :: "discovery_section \<Rightarrow> bool" where
  "only_deprecated_selection d \<longleftrightarrow>
     (length (ds_services d) > 0 \<or> length (ds_exclude_services d) > 0) \<and>
     length (ds_instrument d) = 0 \<and> length (ds_exclude_instrument d) = 0"

text \<open>The exclusion criteria of the survey: regular expressions or globs.\<close>

datatype survey_exclusion = ByRegex "criterion list" | ByGlob "criterion list"

definition survey_excluding_criteria :: "discovery_section \<Rightarrow> survey_exclusion" where
  "survey_excluding_criteria d =
     (if only_deprecated_selection d then ByRegex (ds_default_exclude_services d)
      else ByGlob (ds_default_exclude_instrument d))"

subsection \<open>The sections\<close>

record metrics_section =
  mt_consumer :: bool
  mt_common :: string
  mt_endpoint :: string
  mt_provider :: "(string \<times> bool) option"
  mt_depr_features :: bits

definition metrics_endpoint_enabled :: "metrics_section \<Rightarrow> bool" where
  "metrics_endpoint_enabled m \<longleftrightarrow>
     (if mt_consumer m then True
      else fst (case mt_provider m of Some r \<Rightarrow> r | None \<Rightarrow> obi_resolve_endpoint (mt_endpoint m) (mt_common m)) \<noteq> [])"

definition prom_endpoint_enabled :: "'a prom_endpoint_scheme \<Rightarrow> bool" where
  "prom_endpoint_enabled p \<longleftrightarrow> pe_port p \<noteq> 0 \<or> pe_registry p"

record prom_section = prom_endpoint +
  pr_depr_features :: bits

definition printer_valid :: "string \<Rightarrow> bool" where
  "printer_valid p \<longleftrightarrow> p \<in> {''disabled'', ''text'', ''json'', ''json_indent'', ''counter''}"

definition printer_enabled :: "string \<Rightarrow> bool" where
  "printer_enabled p \<longleftrightarrow> printer_valid p \<and> p \<noteq> ''disabled''"

record beyla_config =
  c_batch_length :: int
  c_tc_backend :: int
  c_context_propagation :: int
  c_net_enable :: bool
  c_net_print :: bool
  c_net_source :: string
  c_stats_print :: bool
  c_grafana :: grafana_otlp
  c_sync_timeout :: int
  c_metrics :: metrics_section
  c_traces :: traces_section
  c_prom :: prom_section
  c_features :: bits
  c_printer :: string
  c_wildcard :: "string option"
  c_internal_exporter :: string
  c_internal_prom_port :: int
  c_ports :: int
  c_target_exe :: bool
  c_target_language :: bool
  c_exec :: bool
  c_discovery :: discovery_section
  c_injector :: sdk_inject
  c_consumers :: nat
  c_topology :: "string list"

text \<open>\<open>AsOBI\<close> with \<open>overrideOBI\<close>: the sections that change on the way.\<close>

definition override_metrics :: "grafana_otlp \<Rightarrow> metrics_section \<Rightarrow> metrics_section" where
  "override_metrics g m =
     (if grafana_metrics_enabled g
      then m\<lparr>mt_provider := Some (resolve_otlp_endpoint (mt_endpoint m) (mt_common m) (Some g))\<rparr> else m)"

definition as_obi :: "beyla_config \<Rightarrow> beyla_config" where
  "as_obi c = c\<lparr>c_metrics := override_metrics (c_grafana c) (c_metrics c),
                c_traces := override_traces (c_grafana c) (c_traces c)\<rparr>"

subsection \<open>Features\<close>

datatype feature = FeatureAppO11y | FeatureNetO11y | FeatureStatsO11y

definition prom_net_enabled :: "beyla_config \<Rightarrow> bool" where
  "prom_net_enabled c \<longleftrightarrow> prom_endpoint_enabled (c_prom c) \<and> any_network (c_features c)"

definition otel_net_enabled :: "beyla_config \<Rightarrow> bool" where
  "otel_net_enabled c \<longleftrightarrow>
     (metrics_endpoint_enabled (c_metrics c) \<or> grafana_metrics_enabled (c_grafana c)) \<and> any_network (c_features c)"

definition prom_stats_enabled :: "beyla_config \<Rightarrow> bool" where
  "prom_stats_enabled c \<longleftrightarrow> prom_endpoint_enabled (c_prom c) \<and> stat_metrics (c_features c)"

definition otel_stats_enabled :: "beyla_config \<Rightarrow> bool" where
  "otel_stats_enabled c \<longleftrightarrow>
     (metrics_endpoint_enabled (c_metrics c) \<or> grafana_metrics_enabled (c_grafana c)) \<and> stat_metrics (c_features c)"

definition app_enabled :: "beyla_config \<Rightarrow> bool" where
  "app_enabled c \<longleftrightarrow>
     c_ports c > 0 \<or> c_target_exe c \<or> c_target_language c \<or> c_exec c \<or> c_exec c \<or>
     app_discovery_enabled (c_discovery c) \<or> survey_enabled (c_discovery c)"

fun feature_enabled :: "beyla_config \<Rightarrow> feature \<Rightarrow> bool" where
  "feature_enabled c FeatureNetO11y = (c_net_enable c \<or> prom_net_enabled c \<or> otel_net_enabled c)"
| "feature_enabled c FeatureAppO11y = app_enabled c"
| "feature_enabled c FeatureStatsO11y = (prom_stats_enabled c \<or> otel_stats_enabled c)"

definition will_use_tc :: "beyla_config \<Rightarrow> bool" where
  "will_use_tc c \<longleftrightarrow>
     c_context_propagation c = 3 \<or> c_context_propagation c = 2 \<or>
     (feature_enabled c FeatureNetO11y \<and> c_net_source c = ''tc'')"

subsection \<open>Validation\<close>

datatype config_error =
    DiscoveryInvalid string | NothingEnabled | BatchLengthZero | TcBackendInvalid | CiliumIncompatible string
  | SyncTimeoutZero | NetworkNeedsExporter | StatsNeedExporter | TracePrinterInvalid string | NoExporter
  | TwoSpanMetricFormats | WildcardTooLong | InternalOtelAndPrometheus | InternalOtelNeedsMetrics
  | InjectionNeedsTraces | InjectionProtocol string | InjectorInvalid inject_error

text \<open>
  \<open>Validate\<close>, where \<open>discovery\<close> is the vendored check of the discovery section and \<open>cilium\<close>
  the test of the host; \<open>check_that\<close> is an early return.
\<close>

definition check_that :: "bool \<Rightarrow> config_error \<Rightarrow> config_error option \<Rightarrow> config_error option" where
  "check_that ok e rest = (if \<not> ok then Some e else rest)"

definition validate_injection :: "(string \<Rightarrow> string + url) \<Rightarrow> beyla_config \<Rightarrow> config_error option" where
  "validate_injection parse c =
     (if webhook_enabled (inj_webhook (c_injector c)) then
        check_that (section_enabled parse (c_traces c)) InjectionNeedsTraces
        (let proto = section_protocol parse (c_traces c) in
         check_that (proto \<in> {''http/json'', ''http/protobuf'', ''grpc'', ''''}) (InjectionProtocol proto)
         (case inject_validate (c_injector c) of Some e \<Rightarrow> Some (InjectorInvalid e) | None \<Rightarrow> None))
      else None)"

definition validate ::
    "(string \<Rightarrow> string + url) \<Rightarrow> (discovery_section \<Rightarrow> string option) \<Rightarrow> (int \<Rightarrow> string option) \<Rightarrow> beyla_config \<Rightarrow> config_error option" where
  "validate parse discovery cilium c =
     (case discovery (c_discovery (as_obi c)) of
        Some e \<Rightarrow> Some (DiscoveryInvalid e)
      | None \<Rightarrow>
        check_that (\<not> (\<not> feature_enabled c FeatureNetO11y \<and> \<not> feature_enabled c FeatureAppO11y \<and>
            \<not> feature_enabled c FeatureStatsO11y \<and> \<not> webhook_enabled (inj_webhook (c_injector c)))) NothingEnabled
        (check_that (c_batch_length c \<noteq> 0) BatchLengthZero
        (check_that (c_tc_backend c \<in> {1, 2, 3}) TcBackendInvalid
        (case (if will_use_tc c then cilium (c_tc_backend c) else None) of
           Some e \<Rightarrow> Some (CiliumIncompatible e)
         | None \<Rightarrow>
        check_that (c_sync_timeout c \<noteq> 0) SyncTimeoutZero
        (check_that (\<not> (feature_enabled c FeatureNetO11y \<and> \<not> grafana_metrics_enabled (c_grafana c) \<and>
            \<not> metrics_endpoint_enabled (c_metrics c) \<and> \<not> prom_endpoint_enabled (c_prom c) \<and> \<not> c_net_print c))
          NetworkNeedsExporter
        (check_that (\<not> (feature_enabled c FeatureStatsO11y \<and> \<not> grafana_metrics_enabled (c_grafana c) \<and>
            \<not> metrics_endpoint_enabled (c_metrics c) \<and> \<not> prom_endpoint_enabled (c_prom c) \<and> \<not> c_stats_print c))
          StatsNeedExporter
        (check_that (printer_valid (c_printer c)) (TracePrinterInvalid (c_printer c))
        (check_that (\<not> (feature_enabled c FeatureAppO11y \<and> \<not> printer_enabled (c_printer c) \<and>
            \<not> grafana_metrics_enabled (c_grafana c) \<and> \<not> grafana_traces_enabled (c_grafana c) \<and>
            \<not> metrics_endpoint_enabled (c_metrics c) \<and> \<not> section_enabled parse (c_traces c) \<and>
            \<not> prom_endpoint_enabled (c_prom c) \<and> \<not> printer_enabled (c_printer c))) NoExporter
        (check_that (\<not> (feature_enabled c FeatureAppO11y \<and> invalid_span_metrics_config (c_features c) \<and>
            prom_endpoint_enabled (c_prom c) \<and> metrics_endpoint_enabled (c_metrics c))) TwoSpanMetricFormats
        (check_that (\<not> (case c_wildcard c of Some w \<Rightarrow> length w > 1 | None \<Rightarrow> False)) WildcardTooLong
        (check_that (\<not> (c_internal_exporter c = ''otel'' \<and> c_internal_prom_port c \<noteq> 0)) InternalOtelAndPrometheus
        (check_that (\<not> (c_internal_exporter c = ''otel'' \<and> \<not> metrics_endpoint_enabled (c_metrics c) \<and>
            \<not> grafana_metrics_enabled (c_grafana c))) InternalOtelNeedsMetrics
        (validate_injection parse c)))))))))))))"

subsection \<open>Normalization\<close>

text \<open>
  \<open>normalizeConfig\<close>, but for the names in the attribute selection, which the vendored library
  normalizes.
\<close>

definition normalize_config :: "beyla_config \<Rightarrow> beyla_config" where
  "normalize_config c =
     (let c = (if survey_enabled (c_discovery c)
               then c\<lparr>c_discovery := override_default_exclude_for_survey (c_discovery c)\<rparr> else c);
          c = (if metrics_endpoint_enabled (c_metrics c) \<and> mt_depr_features (c_metrics c) \<noteq> 0
               then c\<lparr>c_features := mt_depr_features (c_metrics c)\<rparr>
               else if prom_endpoint_enabled (c_prom c) \<and> pr_depr_features (c_prom c) \<noteq> 0
               then c\<lparr>c_features := pr_depr_features (c_prom c)\<rparr> else c)
      in if c_net_enable c then c\<lparr>c_features := c_features c OR featureNetwork\<rparr> else c)"

subsection \<open>Which pipelines run\<close>

definition process_pipe_enabled :: "beyla_config \<Rightarrow> bool" where
  "process_pipe_enabled c \<longleftrightarrow>
     (prom_endpoint_enabled (c_prom c) \<or> metrics_endpoint_enabled (c_metrics c)) \<and>
     features_any (c_features c) feature_process"

text \<open>The exporters of process metrics that start, in their order.\<close>

datatype process_exporter = OtelProcess | PromProcess

definition process_exporters :: "beyla_config \<Rightarrow> process_exporter list" where
  "process_exporters c =
     (if \<not> process_pipe_enabled c then []
      else
        (if otel_process_enabled (Some (metrics_endpoint_enabled (c_metrics c))) (c_features c) then [OtelProcess] else []) @
        (if prom_process_enabled (Some (prom_endpoint.truncate (c_prom c))) (c_features c) then [PromProcess] else []))"

text \<open>
  The sinks of connection spans: none unless the topology asks for them on Kubernetes and
  its store can be had (\<open>store_ok\<close>).
\<close>

datatype connection_sink = AlloyReceiver | OtlpExporter

definition connection_sinks :: "(string \<Rightarrow> string + url) \<Rightarrow> bool option \<Rightarrow> bool \<Rightarrow> beyla_config \<Rightarrow> connection_sink list" where
  "connection_sinks parse kube store_ok c =
     (if ''inter_cluster'' \<notin> set (c_topology c) then []
      else if (case kube of None \<Rightarrow> True | Some enabled \<Rightarrow> \<not> enabled) then []
      else if \<not> store_ok then []
      else (if c_consumers c > 0 then [AlloyReceiver] else []) @
           (if section_enabled parse (c_traces c) then [OtlpExporter] else []))"

text \<open>\<open>ProcessFinder.Start\<close>: with instrumentation, or the survey alone.\<close>

datatype finder_pipeline = MixedPipeline | SurveyPipeline

definition instrumentation_enabled :: "beyla_config \<Rightarrow> bool" where
  "instrumentation_enabled c \<longleftrightarrow>
     c_ports c > 0 \<or> c_target_exe c \<or> c_target_language c \<or> c_exec c \<or> c_exec c \<or>
     app_discovery_enabled (c_discovery c)"

definition finder_start :: "beyla_config \<Rightarrow> finder_pipeline" where
  "finder_start c = (if instrumentation_enabled c then MixedPipeline else SurveyPipeline)"

text \<open>\<open>RunBeyla\<close>: the parts that start, each in a goroutine of its own.\<close>

datatype beyla_part = AppO11y | NetO11y | StatsO11y | WebhookServer

definition run_beyla :: "beyla_config \<Rightarrow> beyla_part list" where
  "run_beyla c =
     (if feature_enabled c FeatureAppO11y then [AppO11y] else []) @
     (if feature_enabled c FeatureNetO11y then [NetO11y] else []) @
     (if feature_enabled c FeatureStatsO11y then [StatsO11y] else []) @
     (if webhook_enabled (inj_webhook (c_injector c)) then [WebhookServer] else [])"

datatype internal_metrics = OtelInternal | PrometheusInternal | RegistryInternal | NoInternal

definition internal_metrics_of :: "beyla_config \<Rightarrow> internal_metrics" where
  "internal_metrics_of c =
     (if c_internal_exporter c = ''otel'' then OtelInternal
      else if c_internal_exporter c = ''prometheus'' \<or> c_internal_prom_port c \<noteq> 0 then PrometheusInternal
      else if pe_registry (c_prom c) then RegistryInternal
      else NoInternal)"

text \<open>The resource labels with the deprecated ones in front, from \<open>buildCommonContextInfo\<close>.\<close>

definition resource_labels :: "string \<Rightarrow> string \<Rightarrow> (string, string list) gomap \<Rightarrow> (string, string list) gomap" where
  "resource_labels name_label namespace_label labels =
     (let old = (\<lambda>m k. case mget m k of Some v \<Rightarrow> v | None \<Rightarrow> []);
          labels = (if name_label \<noteq> [] then mput labels ''service.name'' (name_label # old labels ''service.name'')
                    else labels)
      in if namespace_label \<noteq> []
         then mput labels ''service.namespace'' (namespace_label # old labels ''service.namespace'') else labels)"

subsection \<open>Lemmas\<close>

lemma check_that_None [simp]: "check_that ok e rest = None \<longleftrightarrow> ok \<and> rest = None"
  by (simp add: check_that_def)

lemma check_that_Some: "check_that ok e rest = Some e' \<longleftrightarrow> (\<not> ok \<and> e = e') \<or> (ok \<and> rest = Some e')"
  by (simp add: check_that_def)

lemma and_single_bit: "and f (push_bit k 1) = (if bit f k then push_bit k 1 else (0 :: 64 word))"
  by (rule bit_eqI) (auto simp: bit_simps)

lemma features_process: "features_any f feature_process \<longleftrightarrow> features_has f feature_process"
proof -
  have "and f feature_process = (if bit f 63 then feature_process else 0)"
    unfolding feature_process_def drop_bit_0 id_apply by (rule and_single_bit)
  moreover have "feature_process \<noteq> 0"
    by (simp add: feature_process_def)
  ultimately show ?thesis
    by (simp add: features_any_def features_has_def)
qed

lemma process_pipe_iff_exporter: "process_pipe_enabled c \<longleftrightarrow> process_exporters c \<noteq> []"
  by (auto simp: process_exporters_def process_pipe_enabled_def otel_process_enabled_def prom_process_enabled_def
      features_process prom_endpoint_enabled_def prom_endpoint.truncate_def)

lemma mutator_protocol_ok:
  assumes "get_protocol port (mc_traces cfg) \<in> {''http/json'', ''http/protobuf'', ''grpc'', ''''}"
    and "new_pod_mutator port http_opts grpc_opts cfg matcher = Inl e"
  shows "http_opts = Inl e \<or> grpc_opts = Inl e"
  using assms by (auto simp: new_pod_mutator_def Let_def split: if_splits sum.splits)

lemma survey_defaults_differ:
  "default_exclude_services_with_survey \<noteq> default_exclude_services"
  by (simp add: default_exclude_services_with_survey_def default_exclude_services_def namespaces_regex_def
      survey_namespaces_regex_def)

lemma override_survey_idem:
  "override_default_exclude_for_survey (override_default_exclude_for_survey d) = override_default_exclude_for_survey d"
  using survey_defaults_differ by (simp add: override_default_exclude_for_survey_def)

lemma override_survey_enabled [simp]: "survey_enabled (override_default_exclude_for_survey d) = survey_enabled d"
  by (simp add: override_default_exclude_for_survey_def survey_enabled_def)

lemma parts_iff:
  "AppO11y \<in> set (run_beyla c) \<longleftrightarrow> feature_enabled c FeatureAppO11y"
  "NetO11y \<in> set (run_beyla c) \<longleftrightarrow> feature_enabled c FeatureNetO11y"
  "StatsO11y \<in> set (run_beyla c) \<longleftrightarrow> feature_enabled c FeatureStatsO11y"
  "WebhookServer \<in> set (run_beyla c) \<longleftrightarrow> webhook_enabled (inj_webhook (c_injector c))"
  by (auto simp: run_beyla_def)

subsection \<open>Properties\<close>

text \<open>
  C25: what a validated configuration guarantees. At least one part starts; each part that
  produces data has an exporter configured, where Grafana Cloud counts as one; and the webhook
  starts only with traces enabled and a valid injector section, so that the construction of
  its mutator cannot fail for the protocol, only for the endpoint.
\<close>

theorem validated_config:
  assumes "validate parse discovery cilium c = None"
  shows "run_beyla c \<noteq> [] \<and>
    (AppO11y \<in> set (run_beyla c) \<longrightarrow> printer_enabled (c_printer c) \<or> grafana_metrics_enabled (c_grafana c) \<or>
       grafana_traces_enabled (c_grafana c) \<or> metrics_endpoint_enabled (c_metrics c) \<or>
       section_enabled parse (c_traces c) \<or> prom_endpoint_enabled (c_prom c)) \<and>
    (NetO11y \<in> set (run_beyla c) \<longrightarrow> grafana_metrics_enabled (c_grafana c) \<or> metrics_endpoint_enabled (c_metrics c) \<or>
       prom_endpoint_enabled (c_prom c) \<or> c_net_print c) \<and>
    (StatsO11y \<in> set (run_beyla c) \<longrightarrow> grafana_metrics_enabled (c_grafana c) \<or> metrics_endpoint_enabled (c_metrics c) \<or>
       prom_endpoint_enabled (c_prom c) \<or> c_stats_print c) \<and>
    (WebhookServer \<in> set (run_beyla c) \<longrightarrow> section_enabled parse (c_traces c) \<and> inject_validate (c_injector c) = None \<and>
       (\<forall>cfg http grpc matcher e. mc_traces cfg = traces_config.truncate (c_traces c) \<longrightarrow>
          new_pod_mutator (case parse_traces_endpoint parse (c_traces c) of Inl _ \<Rightarrow> None | Inr (u, _) \<Rightarrow> Some (url_port u))
            http grpc cfg matcher = Inl e \<longrightarrow> http = Inl e \<or> grpc = Inl e))"
proof -
  have inj: "validate_injection parse c = None"
    and checks: "feature_enabled c FeatureNetO11y \<or> feature_enabled c FeatureAppO11y \<or>
        feature_enabled c FeatureStatsO11y \<or> webhook_enabled (inj_webhook (c_injector c))"
      "feature_enabled c FeatureNetO11y \<Longrightarrow> grafana_metrics_enabled (c_grafana c) \<or>
        metrics_endpoint_enabled (c_metrics c) \<or> prom_endpoint_enabled (c_prom c) \<or> c_net_print c"
      "feature_enabled c FeatureStatsO11y \<Longrightarrow> grafana_metrics_enabled (c_grafana c) \<or>
        metrics_endpoint_enabled (c_metrics c) \<or> prom_endpoint_enabled (c_prom c) \<or> c_stats_print c"
      "feature_enabled c FeatureAppO11y \<Longrightarrow> printer_enabled (c_printer c) \<or>
        grafana_metrics_enabled (c_grafana c) \<or> grafana_traces_enabled (c_grafana c) \<or>
        metrics_endpoint_enabled (c_metrics c) \<or> section_enabled parse (c_traces c) \<or> prom_endpoint_enabled (c_prom c)"
    using assms unfolding validate_def by (auto split: option.splits)
  have hook: "section_enabled parse (c_traces c) \<and> inject_validate (c_injector c) = None \<and>
      section_protocol parse (c_traces c) \<in> {''http/json'', ''http/protobuf'', ''grpc'', ''''}"
    if "webhook_enabled (inj_webhook (c_injector c))"
    using inj that unfolding validate_injection_def Let_def by (simp split: option.splits)
  have mutator: "http = Inl e \<or> grpc = Inl e"
    if "webhook_enabled (inj_webhook (c_injector c))"
      "mc_traces cfg = traces_config.truncate (c_traces c)"
      "new_pod_mutator (case parse_traces_endpoint parse (c_traces c) of Inl _ \<Rightarrow> None | Inr (u, _) \<Rightarrow> Some (url_port u))
        http grpc cfg matcher = Inl e" for cfg http grpc matcher e
    using hook [OF that(1)] that(3) by (intro mutator_protocol_ok) (simp_all add: section_protocol_def that(2))
  show ?thesis
  proof (intro conjI impI allI)
    show "run_beyla c \<noteq> []"
      using checks(1) by (auto simp: run_beyla_def)
  qed (use checks hook mutator in \<open>simp_all add: parts_iff\<close>)
qed

text \<open>
  The checks of \<open>Validate\<close> that are left where there is no metrics exporter and no traces
  section; none of them asks for an exporter of the application's telemetry.
\<close>

definition other_checks :: "(discovery_section \<Rightarrow> string option) \<Rightarrow> (int \<Rightarrow> string option) \<Rightarrow> beyla_config \<Rightarrow> bool" where
  "other_checks discovery cilium c \<longleftrightarrow>
     discovery (c_discovery c) = None \<and> (app_enabled c \<or> c_net_enable c) \<and> c_batch_length c \<noteq> 0 \<and>
     c_tc_backend c \<in> {1, 2, 3} \<and> (will_use_tc c \<longrightarrow> cilium (c_tc_backend c) = None) \<and> c_sync_timeout c \<noteq> 0 \<and>
     (c_net_enable c \<longrightarrow> c_net_print c) \<and> printer_valid (c_printer c) \<and>
     (case c_wildcard c of Some w \<Rightarrow> length w \<le> 1 | None \<Rightarrow> True) \<and> c_internal_exporter c \<noteq> ''otel'' \<and>
     \<not> webhook_enabled (inj_webhook (c_injector c))"

lemma validate_without_exporters:
  assumes "\<not> grafana_metrics_enabled (c_grafana c)" and "\<not> section_enabled parse (c_traces c)"
    and "\<not> metrics_endpoint_enabled (c_metrics c)" and "\<not> prom_endpoint_enabled (c_prom c)"
  shows "validate parse discovery cilium c = None \<longleftrightarrow>
    other_checks discovery cilium c \<and> (app_enabled c \<longrightarrow> printer_enabled (c_printer c) \<or> grafana_traces_enabled (c_grafana c))"
proof -
  have net: "feature_enabled c FeatureNetO11y = c_net_enable c" and stats: "\<not> feature_enabled c FeatureStatsO11y"
    using assms(1,3,4) by (simp_all add: prom_net_enabled_def otel_net_enabled_def prom_stats_enabled_def otel_stats_enabled_def)
  have inj: "validate_injection parse c = None \<longleftrightarrow> \<not> webhook_enabled (inj_webhook (c_injector c))"
    using assms(2) by (simp add: validate_injection_def check_that_None)
  have disc: "c_discovery (as_obi c) = c_discovery c" by (simp add: as_obi_def)
  show ?thesis
    unfolding validate_def disc other_checks_def
    using assms net stats inj
    by (auto simp: check_that_None split: option.splits if_splits)
qed

text \<open>
  C23: a configuration whose only exporter settings are the credentials of Grafana Cloud, which
  submit traces, counts as one with an exporter and exports nothing. It is valid exactly where
  the other checks pass, that is, the check for an exporter never fails; without the
  credentials the same configuration is invalid, if the application is to be observed and
  nothing is printed. Yet neither the traces nor the metrics section that the vendored library
  gets is enabled, and no exporter of process metrics and no sink of connection spans starts.
\<close>

theorem grafana_config_exports_nothing:
  assumes "grafana_traces_enabled (c_grafana c)" and "\<not> grafana_metrics_enabled (c_grafana c)"
    and "ts_endpoint (c_traces c) = []" and "ts_common (c_traces c) = []" and "\<not> has_traces_consumer (c_traces c)"
    and "traces_protocol (c_traces c) \<noteq> ''debug''" and "common_protocol (c_traces c) \<noteq> ''debug''"
    and "\<not> metrics_endpoint_enabled (c_metrics c)" and "\<not> prom_endpoint_enabled (c_prom c)" and "c_consumers c = 0"
  shows "(validate parse discovery cilium c = None \<longleftrightarrow> other_checks discovery cilium c) \<and>
    (\<forall>g. \<not> grafana_traces_enabled g \<and> \<not> grafana_metrics_enabled g \<and> app_enabled c \<and> \<not> printer_enabled (c_printer c) \<longrightarrow>
      validate parse discovery cilium (c\<lparr>c_grafana := g\<rparr>) \<noteq> None) \<and>
    otlp_traces_endpoint (c_traces (as_obi c)) =
      resolve_otlp_endpoint [] [] (Some (c_grafana c)) \<and>
    \<not> section_enabled parse (c_traces (as_obi c)) \<and> \<not> metrics_endpoint_enabled (c_metrics (as_obi c)) \<and>
    process_exporters c = [] \<and> connection_sinks parse kube store_ok c = []"
proof -
  have traces: "\<not> section_enabled parse (c_traces (as_obi c))" "\<not> section_enabled parse (c_traces c)"
    using assms protocol_not_debug [of "c_traces c" parse] protocol_not_debug [of "c_traces (as_obi c)" parse]
    by (simp_all add: as_obi_def override_traces_def section_enabled_def)
  have valid: "validate parse discovery cilium c = None \<longleftrightarrow> other_checks discovery cilium c"
    using validate_without_exporters [OF assms(2) traces(2) assms(8,9)] assms(1) by simp
  have without: "validate parse discovery cilium (c\<lparr>c_grafana := g\<rparr>) \<noteq> None"
    if "\<not> grafana_traces_enabled g \<and> \<not> grafana_metrics_enabled g \<and> app_enabled c \<and> \<not> printer_enabled (c_printer c)" for g
    using validate_without_exporters [of "c\<lparr>c_grafana := g\<rparr>" parse discovery cilium] that traces(2) assms(8,9)
    by (simp add: app_enabled_def)
  have "process_exporters c = []"
    using assms by (simp add: process_exporters_def process_pipe_enabled_def)
  then have "otlp_traces_endpoint (c_traces (as_obi c)) = resolve_otlp_endpoint [] [] (Some (c_grafana c)) \<and>
    \<not> section_enabled parse (c_traces (as_obi c)) \<and> \<not> metrics_endpoint_enabled (c_metrics (as_obi c)) \<and>
    process_exporters c = [] \<and> connection_sinks parse kube store_ok c = []"
    using assms traces by (simp add: as_obi_def override_traces_def override_metrics_def otlp_traces_endpoint_def
        connection_sinks_def)
  with valid without show ?thesis by blast
qed

text \<open>The features after the deprecated sections are taken into account.\<close>

definition deprecated_features :: "beyla_config \<Rightarrow> bits" where
  "deprecated_features c =
     (if metrics_endpoint_enabled (c_metrics c) \<and> mt_depr_features (c_metrics c) \<noteq> 0 then mt_depr_features (c_metrics c)
      else if prom_endpoint_enabled (c_prom c) \<and> pr_depr_features (c_prom c) \<noteq> 0 then pr_depr_features (c_prom c)
      else c_features c)"

lemma select_features:
  "(if metrics_endpoint_enabled (c_metrics c) \<and> mt_depr_features (c_metrics c) \<noteq> 0
    then c\<lparr>c_features := mt_depr_features (c_metrics c)\<rparr>
    else if prom_endpoint_enabled (c_prom c) \<and> pr_depr_features (c_prom c) \<noteq> 0
    then c\<lparr>c_features := pr_depr_features (c_prom c)\<rparr> else c) = c\<lparr>c_features := deprecated_features c\<rparr>"
  by (simp add: deprecated_features_def)

lemma normalize_config_eq:
  "normalize_config c = c\<lparr>
     c_discovery := (if survey_enabled (c_discovery c) then override_default_exclude_for_survey (c_discovery c)
                     else c_discovery c),
     c_features := deprecated_features c OR (if c_net_enable c then featureNetwork else 0)\<rparr>"
  unfolding normalize_config_def select_features
  by (simp add: Let_def deprecated_features_def cong: if_cong)

lemma normalize_config_idem: "normalize_config (normalize_config c) = normalize_config c"
  unfolding normalize_config_eq
  by (simp add: override_survey_idem or.assoc deprecated_features_def cong: if_cong)

text \<open>
  Normalization is idempotent. It keeps everything but the default exclusions, which
  change only for a survey and only where the user changed neither of them, and the features:
  those of the OTEL section come before those of Prometheus, a section without an endpoint is
  ignored, and the deprecated switch for network metrics adds its feature.
\<close>

lemma normalization:
  "normalize_config (normalize_config c) = normalize_config c \<and>
   normalize_config c = c\<lparr>
     c_discovery := (if survey_enabled (c_discovery c) then override_default_exclude_for_survey (c_discovery c)
                     else c_discovery c),
     c_features := deprecated_features c OR (if c_net_enable c then featureNetwork else 0)\<rparr>"
  by (rule conjI [OF normalize_config_idem normalize_config_eq])

subsection \<open>A configuration for Grafana Cloud\<close>

definition sample_beyla :: beyla_config where
  "sample_beyla = \<lparr>c_batch_length = 100, c_tc_backend = 3, c_context_propagation = 0, c_net_enable = False,
     c_net_print = False, c_net_source = ''socket_filter'', c_stats_print = False, c_grafana = sample_grafana,
     c_sync_timeout = 30, c_metrics = \<lparr>mt_consumer = False, mt_common = [], mt_endpoint = [], mt_provider = None,
       mt_depr_features = 0\<rparr>,
     c_traces = sample_section, c_prom = \<lparr>pe_port = 0, pe_registry = False, pr_depr_features = 0\<rparr>, c_features = 16,
     c_printer = ''disabled'', c_wildcard = None, c_internal_exporter = [], c_internal_prom_port = 0, c_ports = 1,
     c_target_exe = False, c_target_language = False, c_exec = False,
     c_discovery = \<lparr>ds_services = [], ds_survey = [], ds_exclude_services = [],
       ds_default_exclude_services = default_exclude_services, ds_instrument = [], ds_exclude_instrument = [],
       ds_default_exclude_instrument = default_exclude_instrument\<rparr>,
     c_injector = \<lparr>inj_instrument = [], inj_webhook = \<lparr>wh_enable = False, wh_port = 8443, wh_cert_path = [],
         wh_key_path = [], wh_timeout = 30\<rparr>, no_auto_restart = False, image_volume_path = [], host_path_volume_dir = [],
       sdk_pkg_version = [], host_mount_path = [], manage_sdk_versions = True, default_sampler = None, propagators = [],
       inj_export = \<lparr>exp_traces = None, exp_metrics = None, exp_logs = None\<rparr>,
       inj_resources = \<lparr>res_attributes = [], add_k8s_uid_attributes = False, use_labels_for_resource_attributes = False\<rparr>, enabled_sdks = [],
       inj_debug = False\<rparr>,
     c_consumers = 0, c_topology = [''inter_cluster'']\<rparr>"

lemma sample_beyla_valid: "validate (\<lambda>_. Inl []) (\<lambda>_. None) (\<lambda>_. None) sample_beyla = None"
  by code_simp

theorem validated_config_witness:
  "run_beyla sample_beyla \<noteq> []"
  using validated_config [OF sample_beyla_valid] by simp

theorem grafana_config_exports_nothing_witness:
  "validate (\<lambda>_. Inl []) (\<lambda>_. None) (\<lambda>_. None) sample_beyla = None \<and>
   otlp_traces_endpoint (c_traces (as_obi sample_beyla)) = (''https://otlp-gateway-prod-eu.grafana.net/otlp'', True) \<and>
   \<not> section_enabled (\<lambda>_. Inl []) (c_traces (as_obi sample_beyla)) \<and> process_exporters sample_beyla = [] \<and>
   connection_sinks (\<lambda>_. Inl []) (Some True) True sample_beyla = []"
proof -
  have "resolve_otlp_endpoint [] [] (Some (c_grafana sample_beyla)) =
      (''https://otlp-gateway-prod-eu.grafana.net/otlp'', True)" "\<not> grafana_metrics_enabled (c_grafana sample_beyla)"
    by code_simp+
  then show ?thesis
    using grafana_config_exports_nothing [of sample_beyla "\<lambda>_. Inl []" "\<lambda>_. None" "\<lambda>_. None" "Some True" True]
      sample_beyla_valid sample_grafana_on
    by (simp add: sample_beyla_def sample_section_def metrics_endpoint_enabled_def obi_resolve_endpoint_def
        prom_endpoint_enabled_def)
qed

end
