(* ===== verification/Config_Env.thy ===== *)
theory Config_Env
  imports Beyla_Config
begin

text \<open>
  Where a configuration comes from: references to environment variables in the YAML text
  (pkg/config/env_replacer.go), the second names of the variables
  (\<open>OverrideOBIGlobalConfig\<close> in pkg/beyla/config_obi.go), and \<open>LoadConfig\<close>
  (pkg/beyla/config.go). The decoders of YAML and of variables are parameters.
\<close>

subsection \<open>References\<close>

definition name_start :: "char \<Rightarrow> bool" where
  "name_start c \<longleftrightarrow> (CHR ''a'' \<le> c \<and> c \<le> CHR ''z'') \<or> (CHR ''A'' \<le> c \<and> c \<le> CHR ''Z'') \<or> c = CHR ''_''"

definition name_char :: "char \<Rightarrow> bool" where
  "name_char c \<longleftrightarrow> name_start c \<or> (CHR ''0'' \<le> c \<and> c \<le> CHR ''9'')"

text \<open>
  The expression \<open>envVarRegex\<close> behind the opening brace: a name, a default behind \<open>:-\<close>, and
  the closing brace, with the text that follows.
\<close>

definition match_default :: "string \<Rightarrow> (string \<times> string) option" where
  "match_default s =
     (case s of
        [] \<Rightarrow> None
      | c # t \<Rightarrow>
          if c = CHR ''}'' then Some ([], t)
          else if has_prefix s '':-'' then
            (case dropWhile (\<lambda>c. c \<noteq> CHR ''}'') (drop 2 s) of
               [] \<Rightarrow> None
             | _ # rest \<Rightarrow> Some (takeWhile (\<lambda>c. c \<noteq> CHR ''}'') (drop 2 s), rest))
          else None)"

definition match_name :: "string \<Rightarrow> (string \<times> string \<times> string) option" where
  "match_name s =
     (case s of
        [] \<Rightarrow> None
      | c # t \<Rightarrow>
          if name_start c
          then map_option (\<lambda>(d, rest). (takeWhile name_char s, d, rest)) (match_default (dropWhile name_char s))
          else None)"

definition match_ref :: "string \<Rightarrow> (string \<times> string \<times> string) option" where
  "match_ref s =
     (if has_prefix s ''env:'' \<and> match_name (drop 4 s) \<noteq> None then match_name (drop 4 s) else match_name s)"

lemma match_default_length: "match_default s = Some (d, rest) \<Longrightarrow> length rest < length s"
proof -
  have "length (dropWhile p s) \<le> length s" for p and s :: string
    by (induction s) auto
  note le = this [of _ "drop 2 s"]
  show "match_default s = Some (d, rest) \<Longrightarrow> length rest < length s"
    using le [of "\<lambda>c. c \<noteq> CHR ''}''"] by (auto simp: match_default_def split: list.splits if_splits)
qed

lemma match_ref_length: "match_ref s = Some (n, d, rest) \<Longrightarrow> length rest < length s"
proof -
  have name: "match_name s = Some (n, d, rest) \<Longrightarrow> length rest < length s" for s
    using match_default_length [of "dropWhile name_char s" d rest] length_dropWhile_le [of name_char s]
    by (auto simp: match_name_def split: list.splits if_splits)
  then show "match_ref s = Some (n, d, rest) \<Longrightarrow> length rest < length s"
    using name [of s] name [of "drop 4 s"] by (auto simp: match_ref_def split: if_splits)
qed

text \<open>\<open>bytes.ReplaceAll(match, "$$", "$")\<close>.\<close>

fun unescape :: "string \<Rightarrow> string" where
  "unescape (CHR ''$'' # CHR ''$'' # s) = CHR ''$'' # unescape s"
| "unescape (c # s) = c # unescape s"
| "unescape [] = []"

definition env_value :: "strmap \<Rightarrow> string \<Rightarrow> string \<Rightarrow> string" where
  "env_value env n d = (if mstr env n = [] \<and> d \<noteq> [] then d else mstr env n)"

text \<open>
  \<open>ReplaceEnv\<close>: the leftmost matches from left to right; a second dollar in front escapes the
  reference.
\<close>

function replace_env :: "strmap \<Rightarrow> string \<Rightarrow> string" where
  "replace_env env [] = []"
| "replace_env env (c # s) =
     (if has_prefix (c # s) ''$${'' then
        (case match_ref (drop 2 s) of
           Some (n, d, rest) \<Rightarrow> unescape (take (length (c # s) - length rest) (c # s)) @ replace_env env rest
         | None \<Rightarrow> c # replace_env env s)
      else if has_prefix (c # s) ''${'' then
        (case match_ref (drop 1 s) of
           Some (n, d, rest) \<Rightarrow> env_value env n d @ replace_env env rest
         | None \<Rightarrow> c # replace_env env s)
      else c # replace_env env s)"
  by pat_completeness auto
termination
  by (relation "measure (\<lambda>(_, s). length s)") (auto dest!: match_ref_length)

subsection \<open>What replacing does to a text\<close>

text \<open>A text as a sequence of literal text, references and escaped references.\<close>

datatype segment = Text string | Ref bool string "string option" | Escaped bool string "string option"

definition ref_text :: "bool \<Rightarrow> string \<Rightarrow> string option \<Rightarrow> string" where
  "ref_text p n d =
     (if p then ''env:'' else []) @ n @ (case d of None \<Rightarrow> [] | Some v \<Rightarrow> '':-'' @ v) @ ''}''"

fun segment_text :: "segment \<Rightarrow> string" where
  "segment_text (Text t) = t"
| "segment_text (Ref p n d) = ''${'' @ ref_text p n d"
| "segment_text (Escaped p n d) = ''$${'' @ ref_text p n d"

fun segment_value :: "strmap \<Rightarrow> segment \<Rightarrow> string" where
  "segment_value env (Text t) = t"
| "segment_value env (Ref p n d) = env_value env n (case d of None \<Rightarrow> [] | Some v \<Rightarrow> v)"
| "segment_value env (Escaped p n d) = ''${'' @ ref_text p n d"

definition name_ok :: "string \<Rightarrow> bool" where
  "name_ok n \<longleftrightarrow> n \<noteq> [] \<and> name_start (hd n) \<and> list_all name_char n"

fun segment_ok :: "segment \<Rightarrow> bool" where
  "segment_ok (Text t) \<longleftrightarrow> CHR ''$'' \<notin> set t"
| "segment_ok (Ref p n d) \<longleftrightarrow> name_ok n \<and> (case d of None \<Rightarrow> True | Some v \<Rightarrow> CHR ''}'' \<notin> set v)"
| "segment_ok (Escaped p n d) \<longleftrightarrow>
     name_ok n \<and> (case d of None \<Rightarrow> True | Some v \<Rightarrow> CHR ''}'' \<notin> set v \<and> CHR ''$'' \<notin> set v)"

lemma name_char_special: "\<not> name_char CHR '':''" "\<not> name_char CHR ''}''" "\<not> name_char CHR ''$''" "\<not> name_start CHR ''-''"
  by (simp_all add: name_char_def name_start_def less_eq_char_def)

lemma take_while_stop: "list_all p xs \<Longrightarrow> \<not> p c \<Longrightarrow> takeWhile p (xs @ c # ys) = xs \<and> dropWhile p (xs @ c # ys) = c # ys"
  by (induction xs) auto

lemma match_default_text:
  "(case d of None \<Rightarrow> True | Some v \<Rightarrow> CHR ''}'' \<notin> set v) \<Longrightarrow>
   match_default ((case d of None \<Rightarrow> [] | Some v \<Rightarrow> '':-'' @ v) @ CHR ''}'' # s) =
     Some (case d of None \<Rightarrow> [] | Some v \<Rightarrow> v, s)"
proof (cases d)
  case (Some v)
  assume "case d of None \<Rightarrow> True | Some v \<Rightarrow> CHR ''}'' \<notin> set v"
  then have "list_all (\<lambda>c. c \<noteq> CHR ''}'') v"
    by (auto simp: Some list_all_iff)
  from take_while_stop [OF this, of "CHR ''}''" s] show ?thesis
    by (simp add: Some match_default_def)
qed (simp add: match_default_def)

lemma name_text:
  assumes "name_ok n" and "case d of None \<Rightarrow> True | Some v \<Rightarrow> CHR ''}'' \<notin> set v"
  shows "match_name (n @ (case d of None \<Rightarrow> [] | Some v \<Rightarrow> '':-'' @ v) @ CHR ''}'' # s) =
    Some (n, case d of None \<Rightarrow> [] | Some v \<Rightarrow> v, s)"
proof -
  define t where "t = (case d of None \<Rightarrow> [] | Some v \<Rightarrow> '':-'' @ v) @ CHR ''}'' # s"
  have "\<exists>c u. t = c # u \<and> \<not> name_char c"
    by (cases d) (auto simp: t_def name_char_special)
  then have stop: "takeWhile name_char (n @ t) = n" "dropWhile name_char (n @ t) = t"
    using take_while_stop [of name_char n] assms(1) by (auto simp: name_ok_def)
  obtain c u where n: "n = c # u" "name_start c"
    using assms(1) by (cases n) (auto simp: name_ok_def)
  show ?thesis
    using stop match_default_text [OF assms(2), of s] n
    unfolding t_def [symmetric] by (auto simp: match_name_def)
qed

lemma match_ref_text:
  assumes ok: "name_ok n" "case d of None \<Rightarrow> True | Some v \<Rightarrow> CHR ''}'' \<notin> set v"
  shows "match_ref (ref_text p n d @ s) = Some (n, case d of None \<Rightarrow> [] | Some v \<Rightarrow> v, s)"
proof -
  let ?t = "n @ (case d of None \<Rightarrow> [] | Some v \<Rightarrow> '':-'' @ v) @ CHR ''}'' # s"
  have prefix: "match_name (drop 4 ?t) = None" if "has_prefix ?t ''env:''"
  proof -
    have "CHR '':'' \<notin> set n"
      using ok(1) name_char_special(1) by (auto simp: name_ok_def list_all_iff)
    with that have "n = ''env''"
      by (cases d) (auto simp: has_prefix_iff append_eq_Cons_conv)
    with that show ?thesis
      by (cases d) (auto simp: match_name_def name_char_special)
  qed
  show ?thesis
  proof (cases p)
    case True
    then show ?thesis
      using name_text [OF ok, of s] by (simp add: ref_text_def match_ref_def)
  next
    case False
    then show ?thesis
      using name_text [OF ok, of s] prefix by (auto simp: ref_text_def match_ref_def)
  qed
qed

lemma unescape_plain: "CHR ''$'' \<notin> set s \<Longrightarrow> unescape s = s"
  by (induction s rule: unescape.induct) auto

lemma ref_text_no_dollar:
  "name_ok n \<Longrightarrow> (case d of None \<Rightarrow> True | Some v \<Rightarrow> CHR ''$'' \<notin> set v) \<Longrightarrow> CHR ''$'' \<notin> set (ref_text p n d)"
  using name_char_special(3) by (cases d) (auto simp: ref_text_def name_ok_def list_all_iff)

lemma replace_text: "CHR ''$'' \<notin> set t \<Longrightarrow> replace_env env (t @ s) = t @ replace_env env s"
  by (induction t) auto

lemma replace_segment:
  assumes "segment_ok g"
  shows "replace_env env (segment_text g @ s) = segment_value env g @ replace_env env s"
proof (cases g)
  case (Text t)
  then show ?thesis using assms by (simp add: replace_text)
next
  case (Ref p n d)
  then show ?thesis
    using assms match_ref_text [of n d p s] by simp
next
  case (Escaped p n d)
  have ok: "name_ok n" "case d of None \<Rightarrow> True | Some v \<Rightarrow> CHR ''}'' \<notin> set v"
    "case d of None \<Rightarrow> True | Some v \<Rightarrow> CHR ''$'' \<notin> set v"
    using assms by (auto simp: Escaped split: option.splits)
  have "unescape (''${'' @ ref_text p n d) = ''${'' @ ref_text p n d"
    using unescape_plain [OF ref_text_no_dollar [OF ok(1,3)]] by simp
  moreover have "unescape (''$${'' @ ref_text p n d) = ''${'' @ ref_text p n d"
    using unescape_plain [OF ref_text_no_dollar [OF ok(1,3), of p]] by simp
  moreover have "take (3 + length r) (a # b # c # r @ s) = a # b # c # r" for r and a b c :: char
    by (simp add: numeral_3_eq_3)
  ultimately show ?thesis
    using match_ref_text [OF ok(1,2), of p s] by (simp add: Escaped)
qed

lemma replace_segments:
  "list_all segment_ok gs \<Longrightarrow>
   replace_env env (concat (map segment_text gs)) = concat (map (segment_value env) gs)"
  by (induction gs) (simp_all add: replace_segment)

text \<open>
  C35: in a text of literal parts without dollars, references and escaped references, every
  reference with a well-formed name and a default without a closing brace is replaced by the
  value of its variable, or by its default where the variable is empty; an escaped reference
  loses one dollar and is not expanded, a value is not expanded again, and the rest is
  unchanged. This includes the name \<open>env\<close> and the optional prefix \<open>env:\<close>.
\<close>

theorem references_replaced:
  "list_all segment_ok gs \<Longrightarrow>
   replace_env env (concat (map segment_text gs)) = concat (map (segment_value env) gs)"
  by (rule replace_segments)

theorem references_replaced_witness:
  "replace_env [(''KEY'', ''${X}'')] ''a: ${env:-1} ${KEY:-0} $${KEY}'' = ''a: 1 ${X} ${KEY}''"
  using references_replaced [of
      "[Text ''a: '', Ref False ''env'' (Some ''1''), Text '' '', Ref False ''KEY'' (Some ''0''), Text '' '',
        Escaped False ''KEY'' None]" "[(''KEY'', ''${X}'')]"]
  by (simp add: ref_text_def name_ok_def name_start_def name_char_def less_eq_char_def env_value_def mstr_def)

subsection \<open>Second names of variables\<close>

text \<open>\<open>os.Environ\<close> and \<open>os.Setenv\<close>, which rejects an empty name.\<close>

definition environ_entries :: "strmap \<Rightarrow> string list" where
  "environ_entries env = map (\<lambda>(k, v). k @ CHR ''='' # v) env"

definition setenv :: "strmap \<Rightarrow> string \<Rightarrow> string \<Rightarrow> strmap" where
  "setenv env k v = (if k = [] then env else mput env k v)"

text \<open>The expression \<open>^BEYLA_(OTEL_)?\<close>.\<close>

definition replacing_prefix :: "string \<Rightarrow> string" where
  "replacing_prefix s =
     (if has_prefix s ''BEYLA_OTEL_'' then ''OTEL_EBPF_'' @ drop 11 s
      else if has_prefix s ''BEYLA_'' then ''OTEL_EBPF_'' @ drop 6 s
      else s)"

definition override_entry :: "strmap \<Rightarrow> string \<Rightarrow> strmap" where
  "override_entry env e =
     (case split2 (CHR ''='') (replacing_prefix e) of
        [k, v] \<Rightarrow> if mstr env k = [] then setenv env k v else env
      | _ \<Rightarrow> env)"

definition override_env :: "strmap \<Rightarrow> strmap" where
  "override_env env = foldl override_entry env (environ_entries env)"

lemma has_prefix_key: "b \<notin> set p \<Longrightarrow> has_prefix (k @ b # v) p \<longleftrightarrow> has_prefix k p"
proof (induction k p rule: has_prefix.induct)
  case (2 p ps)
  then show ?case by auto
qed auto

lemma replacing_prefix_entry:
  "CHR ''='' \<notin> set k \<Longrightarrow> replacing_prefix (k @ CHR ''='' # v) = replacing_prefix k @ CHR ''='' # v"
  using has_prefix_key [of "CHR ''=''" "''BEYLA_OTEL_''" k v] has_prefix_key [of "CHR ''=''" "''BEYLA_''" k v]
  by (auto simp: replacing_prefix_def has_prefix_iff)

lemma replacing_prefix_no_equals: "CHR ''='' \<notin> set k \<Longrightarrow> CHR ''='' \<notin> set (replacing_prefix k)"
  by (auto simp: replacing_prefix_def dest: in_set_dropD)

lemma override_entry_get:
  assumes "CHR ''='' \<notin> set k" and "x \<noteq> []"
  shows "mstr (override_entry env (k @ CHR ''='' # v)) x =
    (if mstr env x = [] \<and> replacing_prefix k = x then v else mstr env x)"
  using assms
  by (simp add: override_entry_def replacing_prefix_entry setenv_def split2_append [OF replacing_prefix_no_equals])

definition first_named :: "string \<Rightarrow> strmap \<Rightarrow> string" where
  "first_named x es =
     (case find (\<lambda>(k, v). replacing_prefix k = x \<and> v \<noteq> []) es of Some (k, v) \<Rightarrow> v | None \<Rightarrow> [])"

lemma override_entries_get:
  "list_all (\<lambda>(k, v). CHR ''='' \<notin> set k) es \<Longrightarrow> x \<noteq> [] \<Longrightarrow>
   mstr (foldl override_entry env (environ_entries es)) x = (if mstr env x \<noteq> [] then mstr env x else first_named x es)"
proof (induction es arbitrary: env)
  case (Cons e es)
  then show ?case
    by (cases e) (auto simp: environ_entries_def first_named_def override_entry_get)
qed (auto simp: environ_entries_def first_named_def)

text \<open>
  After the variables got their second names, a variable keeps a value that is not empty;
  any other variable has the value of the first variable with a value whose name becomes its
  name, where \<open>BEYLA_\<close> and \<open>BEYLA_OTEL_\<close> in front become \<open>OTEL_EBPF_\<close>. The variables
  that are set during the loop do not take part in it.
\<close>

lemma variables_renamed:
  "list_all (\<lambda>(k, v). CHR ''='' \<notin> set k) env \<Longrightarrow> x \<noteq> [] \<Longrightarrow>
   mstr (override_env env) x = (if mstr env x \<noteq> [] then mstr env x else first_named x env)"
  unfolding override_env_def by (rule override_entries_get)

subsection \<open>Loading\<close>

text \<open>
  \<open>DefaultConfig\<close> on top of the defaults of the vendored library, for the sections of the
  model. The argument is what \<open>FromOBI\<close> returns, with the injector at its zero value.
\<close>

definition default_grafana :: grafana_otlp where
  "default_grafana = \<lparr>gr_submit = [''traces''], gr_zone = [], gr_instance = [], gr_key = []\<rparr>"

definition default_config :: "beyla_config \<Rightarrow> beyla_config" where
  "default_config obi =
     obi\<lparr>c_grafana := default_grafana,
         c_discovery := (c_discovery obi)\<lparr>ds_default_exclude_services := default_exclude_services,
                                          ds_default_exclude_instrument := default_exclude_instrument\<rparr>,
         c_injector := (c_injector obi)\<lparr>
           inj_webhook := \<lparr>wh_enable = False, wh_port = 8443, wh_cert_path = ''/etc/webhook/certs/tls.crt'',
                           wh_key_path = ''/etc/webhook/certs/tls.key'', wh_timeout = 30\<rparr>,
           host_path_volume_dir := ''/var/lib/beyla/instrumentation'',
           manage_sdk_versions := True,
           enabled_sdks := [InstrumentableJava, InstrumentableDotnet, InstrumentableNodejs, InstrumentablePython]\<rparr>\<rparr>"

datatype load_error = ReadError string | YamlError string | EnvError string

text \<open>
  \<open>LoadConfig\<close>. The file is its contents or the error of reading it; \<open>yaml\<close> and \<open>env_parse\<close>
  are the decoders, which write over the configuration they get.
\<close>

definition load_config ::
  "beyla_config \<Rightarrow> (string \<Rightarrow> beyla_config \<Rightarrow> string + beyla_config) \<Rightarrow>
   (strmap \<Rightarrow> beyla_config \<Rightarrow> string + beyla_config) \<Rightarrow> strmap \<Rightarrow> (string + string) option \<Rightarrow>
   load_error + beyla_config" where
  "load_config obi yaml env_parse env file =
     (let env = override_env env;
          cfg = default_config obi;
          cfg = (case file of
              None \<Rightarrow> Inr cfg
            | Some (Inl e) \<Rightarrow> Inl (ReadError e)
            | Some (Inr buf) \<Rightarrow>
                (case yaml (replace_env env buf) cfg of Inl e \<Rightarrow> Inl (YamlError e) | Inr cfg \<Rightarrow> Inr cfg))
      in case cfg of
           Inl e \<Rightarrow> Inl e
         | Inr cfg \<Rightarrow>
             (case env_parse env cfg of Inl e \<Rightarrow> Inl (EnvError e) | Inr cfg \<Rightarrow> Inr (normalize_config cfg)))"

text \<open>
  What is loaded is a normalised configuration, which a second normalization keeps; it fails
  with the error of the reader, of the YAML decoder, or of the decoder of variables, in this order.
\<close>

lemma loaded_normalised: "load_config obi yaml env_parse env file = Inr c \<Longrightarrow> normalize_config c = c"
  by (auto simp: load_config_def Let_def normalize_config_idem split: sum.splits option.splits)

lemma load_read_error: "load_config obi yaml env_parse env (Some (Inl e)) = Inl (ReadError e)"
  by (simp add: load_config_def)

lemma load_without_file:
  "load_config obi yaml env_parse env None =
     (case env_parse (override_env env) (default_config obi) of
        Inl e \<Rightarrow> Inl (EnvError e) | Inr c \<Rightarrow> Inr (normalize_config c))"
  by (simp add: load_config_def)

lemma load_references:
  "list_all segment_ok gs \<Longrightarrow>
   load_config obi yaml env_parse env (Some (Inr (concat (map segment_text gs)))) =
     (case yaml (concat (map (segment_value (override_env env)) gs)) (default_config obi) of
        Inl e \<Rightarrow> Inl (YamlError e)
      | Inr c \<Rightarrow> (case env_parse (override_env env) c of
            Inl e \<Rightarrow> Inl (EnvError e) | Inr c \<Rightarrow> Inr (normalize_config c)))"
  by (simp add: load_config_def Let_def replace_segments split: sum.split)

subsection \<open>Names of the vendored library\<close>

text \<open>
  The rest of \<open>OverrideOBIGlobalConfig\<close>: the globals of the library that it sets, after the
  variables.
\<close>

record obi_metric =
  om_section :: string
  om_prom :: string
  om_otel :: string

record obi_globals =
  og_version :: string
  og_revision :: string
  og_otel_host_id :: string
  og_prom_host_id :: string
  og_vendor_prefix :: string
  og_sdk_name :: string
  og_ip :: string
  og_network_flow :: obi_metric
  og_inter_zone :: obi_metric
  og_tcp_rtt :: obi_metric

definition override_obi_globals :: "string \<Rightarrow> string \<Rightarrow> strmap \<times> obi_globals \<Rightarrow> strmap \<times> obi_globals" where
  "override_obi_globals version revision s =
     (override_env (fst s),
      (snd s)\<lparr>og_version := version, og_revision := revision, og_otel_host_id := ''grafana_host_id'',
        og_prom_host_id := ''grafana_host_id'', og_vendor_prefix := ''beyla'', og_sdk_name := ''beyla'', og_ip := ''beyla.ip'',
        og_network_flow := \<lparr>om_section = ''beyla.network.flow'', om_prom = ''beyla_network_flow_bytes_total'',
          om_otel = ''beyla.network.flow.bytes''\<rparr>,
        og_inter_zone := \<lparr>om_section = ''beyla.network.inter.zone'', om_prom = ''beyla_network_inter_zone_bytes_total'',
          om_otel = ''beyla.network.inter.zone.bytes''\<rparr>,
        og_tcp_rtt := \<lparr>om_section = ''beyla.stat.tcp.rtt'', om_prom = ''beyla_stat_tcp_rtt_seconds'',
          om_otel = ''beyla.stat.tcp.rtt''\<rparr>\<rparr>)"

text \<open>The cache of Kubernetes metadata sets the prefix only.\<close>

definition override_obi_prefix :: "obi_globals \<Rightarrow> obi_globals" where
  "override_obi_prefix g = g\<lparr>og_vendor_prefix := ''beyla''\<rparr>"

text \<open>
  Each call of \<open>LoadConfig\<close> overrides again. The second time changes nothing: a variable that has
  its second name is not touched, also when its first name was changed in between.
\<close>

lemma override_env_settled:
  assumes "list_all (\<lambda>(k, v). CHR ''='' \<notin> set k) env" and "x \<noteq> []" and "mstr (override_env env) x \<noteq> []"
    and "list_all (\<lambda>(k, v). CHR ''='' \<notin> set k) (override_env env)"
  shows "mstr (override_env (override_env env)) x = mstr (override_env env) x"
  using assms(3) override_entries_get [OF assms(4,2)] by (simp add: override_env_def)

subsection \<open>The configuration of the library\<close>

text \<open>\<open>AsOBI\<close> keeps its first result in the configuration.\<close>

record cached_config =
  cc_config :: beyla_config
  cc_obi :: "beyla_config option"

definition as_obi_cached :: "cached_config \<Rightarrow> beyla_config \<times> cached_config" where
  "as_obi_cached s =
     (case cc_obi s of
        None \<Rightarrow> (let o1 = as_obi (cc_config s) in (o1, s\<lparr>cc_obi := Some o1\<rparr>))
      | Some o1 \<Rightarrow> (o1, s))"

text \<open>A change after the first call does not reach the library.\<close>

lemma as_obi_first_call:
  "as_obi_cached s = (o1, t) \<Longrightarrow> fst (as_obi_cached (t\<lparr>cc_config := f (cc_config t)\<rparr>)) = o1"
  by (auto simp: as_obi_cached_def Let_def split: option.splits)

text \<open>
  \<open>ExternalLogger\<close>, without the handler: the configuration, and whether the two debug switches of
  the eBPF section are set.
\<close>

definition external_logger :: "bool \<Rightarrow> beyla_config \<Rightarrow> beyla_config \<times> bool" where
  "external_logger debug c =
     (if debug then (c\<lparr>c_printer := ''text'', c_net_print := c_net_enable c \<or> c_net_print c\<rparr>, True) else (c, False))"

lemma external_logger_prints:
  "printer_enabled (c_printer (fst (external_logger True c)))"
  "c_net_enable c \<Longrightarrow> c_net_print (fst (external_logger True c))"
  by (simp_all add: external_logger_def printer_enabled_def printer_valid_def)

text \<open>When the library's configuration was asked for before, the debug mode of the logger has no effect on it.\<close>

lemma external_logger_late:
  "as_obi_cached s = (o1, t) \<Longrightarrow>
   fst (as_obi_cached (t\<lparr>cc_config := fst (external_logger True (cc_config t))\<rparr>)) = o1"
  by (rule as_obi_first_call)

end
