(* ===== verification/K8s_Cache.thy ===== *)
theory K8s_Cache
  imports Config_Convert Config_Env
begin

text \<open>
  The service that caches Kubernetes metadata (cmd/k8s-cache): its configuration
  (cfg/config.go) and its start (main.go), which converts the configuration into that of the
  vendored service by reflection. The cache itself is that of the vendored library.
\<close>

subsection \<open>Configuration\<close>

text \<open>Durations are in nanoseconds.\<close>

record cache_config =
  kc_log_level :: string
  kc_port :: int
  kc_max_connections :: int
  kc_profile_port :: int
  kc_resync :: int
  kc_send_timeout :: int
  kc_metrics_port :: int
  kc_metrics_path :: string

definition default_cache_config :: cache_config where
  "default_cache_config = \<lparr>kc_log_level = ''info'', kc_port = 50055, kc_max_connections = 150, kc_profile_port = 0,
     kc_resync = 30 * 60 * 10 ^ 9, kc_send_timeout = 10 * 10 ^ 9, kc_metrics_port = 0, kc_metrics_path = []\<rparr>"

text \<open>\<open>LoadConfig\<close>; the decoders are parameters, as for the configuration of the program.\<close>

definition load_cache_config ::
  "(string \<Rightarrow> cache_config \<Rightarrow> string + cache_config) \<Rightarrow> (strmap \<Rightarrow> cache_config \<Rightarrow> string + cache_config) \<Rightarrow>
   strmap \<Rightarrow> (string + string) option \<Rightarrow> load_error + cache_config" where
  "load_cache_config yaml env_parse env file =
     and_then
       (case file of
          None \<Rightarrow> Inr default_cache_config
        | Some (Inl e) \<Rightarrow> Inl (ReadError e)
        | Some (Inr buf) \<Rightarrow>
            (case yaml (replace_env env buf) default_cache_config of Inl e \<Rightarrow> Inl (YamlError e) | Inr c \<Rightarrow> Inr c))
       (\<lambda>c. case env_parse env c of Inl e \<Rightarrow> Inl (EnvError e) | Inr c \<Rightarrow> Inr c)"

subsection \<open>The two types\<close>

definition int_type :: gtype where
  "int_type = TScalar (IntKind True 64)"

definition duration_type :: gtype where
  "duration_type = TNamed ''time.Duration'' (TScalar (IntKind True 64))"

text \<open>The tags differ in the names of the variables and in the validation of the vendored library.\<close>

definition cache_type :: gtype where
  "cache_type = TNamed ''cfg.Config'' (TStruct
     [GField ''LogLevel'' True ''env:BEYLA_K8S_CACHE_LOG_LEVEL'' (TScalar StringKind),
      GField ''Port'' True ''env:BEYLA_K8S_CACHE_PORT'' int_type,
      GField ''MaxConnections'' True ''env:BEYLA_K8S_CACHE_MAX_CONNECTIONS'' int_type,
      GField ''ProfilePort'' True ''env:BEYLA_K8S_CACHE_PROFILE_PORT'' int_type,
      GField ''InformerResyncPeriod'' True ''env:BEYLA_K8S_CACHE_INFORMER_RESYNC_PERIOD'' duration_type,
      GField ''SendTimeout'' True ''env:BEYLA_K8S_CACHE_INFORMER_SEND_TIMEOUT'' duration_type,
      GField ''InternalMetrics'' True ''yaml:internal_metrics'' (TNamed ''cfg.InternalMetricsConfig'' (TStruct
        [GField ''Port'' True ''env:BEYLA_K8S_CACHE_INTERNAL_METRICS_PROMETHEUS_PORT'' int_type,
         GField ''Path'' True ''env:BEYLA_K8S_CACHE_INTERNAL_METRICS_PROMETHEUS_PATH'' (TScalar StringKind)]))])"

definition kubecache_type :: gtype where
  "kubecache_type = TNamed ''kubecache.Config'' (TStruct
     [GField ''LogLevel'' True ''env:OTEL_EBPF_K8S_CACHE_LOG_LEVEL'' (TNamed ''kubecache.LogLevel'' (TScalar StringKind)),
      GField ''Port'' True ''env:OTEL_EBPF_K8S_CACHE_PORT,validate:gte=0'' int_type,
      GField ''MaxConnections'' True ''env:OTEL_EBPF_K8S_CACHE_MAX_CONNECTIONS,validate:gte=0'' int_type,
      GField ''ProfilePort'' True ''env:OTEL_EBPF_K8S_CACHE_PROFILE_PORT,validate:gte=0'' int_type,
      GField ''InformerResyncPeriod'' True ''env:OTEL_EBPF_K8S_CACHE_INFORMER_RESYNC_PERIOD,validate:gte=0'' duration_type,
      GField ''SendTimeout'' True ''env:OTEL_EBPF_K8S_CACHE_INFORMER_SEND_TIMEOUT,validate:gte=0'' duration_type,
      GField ''InternalMetrics'' True ''yaml:internal_metrics'' (TNamed ''instrument.InternalMetricsConfig'' (TStruct
        [GField ''Port'' True ''env:OTEL_EBPF_K8S_CACHE_INTERNAL_METRICS_PROMETHEUS_PORT'' int_type,
         GField ''Path'' True ''env:OTEL_EBPF_K8S_CACHE_INTERNAL_METRICS_PROMETHEUS_PATH'' (TScalar StringKind)]))])"

definition cache_value :: "cache_config \<Rightarrow> gval" where
  "cache_value c = VStruct
     [(''LogLevel'', VStr (kc_log_level c)), (''Port'', VInt (kc_port c)), (''MaxConnections'', VInt (kc_max_connections c)),
      (''ProfilePort'', VInt (kc_profile_port c)), (''InformerResyncPeriod'', VInt (kc_resync c)),
      (''SendTimeout'', VInt (kc_send_timeout c)),
      (''InternalMetrics'', VStruct [(''Port'', VInt (kc_metrics_port c)), (''Path'', VStr (kc_metrics_path c))])]"

lemmas cache_types = cache_type_def kubecache_type_def int_type_def duration_type_def

subsection \<open>The start\<close>

datatype cache_failure =
    CannotOpenCache string | WrongCacheConfig load_error | CachePanic convert_panic
  | UnknownCacheLogLevel string | CacheStopped string

definition cache_config_path :: "strmap \<Rightarrow> string \<Rightarrow> string" where
  "cache_config_path env flag =
     (if mstr env ''BEYLA_K8S_CACHE_CONFIG_PATH'' \<noteq> [] then mstr env ''BEYLA_K8S_CACHE_CONFIG_PATH'' else flag)"

text \<open>\<open>loadFromFile\<close>.\<close>

definition load_from_file ::
  "(string \<Rightarrow> cache_config \<Rightarrow> string + cache_config) \<Rightarrow> (strmap \<Rightarrow> cache_config \<Rightarrow> string + cache_config) \<Rightarrow>
   strmap \<Rightarrow> (string \<Rightarrow> string + (string + string)) \<Rightarrow> string \<Rightarrow> cache_failure + cache_config" where
  "load_from_file yaml env_parse env open_file path =
     (let load = (\<lambda>file. case load_cache_config yaml env_parse env file of
                           Inl e \<Rightarrow> Inl (WrongCacheConfig e) | Inr c \<Rightarrow> Inr c)
      in if path \<noteq> [] then (case open_file path of Inl e \<Rightarrow> Inl (CannotOpenCache e) | Inr contents \<Rightarrow> load (Some contents))
         else load None)"

text \<open>\<open>main\<close>: the value that the service gets, and what it returns.\<close>

definition start_cache ::
  "(string \<Rightarrow> cache_config \<Rightarrow> string + cache_config) \<Rightarrow> (strmap \<Rightarrow> cache_config \<Rightarrow> string + cache_config) \<Rightarrow>
   strmap \<Rightarrow> (string \<Rightarrow> string + (string + string)) \<Rightarrow> string \<Rightarrow> (gval \<Rightarrow> string option) \<Rightarrow> (gval \<Rightarrow> string option) \<Rightarrow>
   cache_failure + gval" where
  "start_cache yaml env_parse env open_file flag log_level serve =
     and_then (load_from_file yaml env_parse env open_file (cache_config_path env flag)) (\<lambda>c.
     case convert_config [] (TPtr cache_type) (VPtr (Some (cache_value c))) (TPtr kubecache_type)
            (VPtr (Some (zero_value kubecache_type))) of
       Inl e \<Rightarrow> Inl (CachePanic e)
     | Inr (VPtr (Some v)) \<Rightarrow>
         (case log_level v of
            Some e \<Rightarrow> Inl (UnknownCacheLogLevel e)
          | None \<Rightarrow> (case serve v of Some e \<Rightarrow> Inl (CacheStopped e) | None \<Rightarrow> Inr v))
     | Inr v \<Rightarrow> Inr v)"

text \<open>No field is lost or changed on the way into the vendored configuration.\<close>

lemma cache_converted:
  "convert_config [] (TPtr cache_type) (VPtr (Some (cache_value c))) (TPtr kubecache_type)
     (VPtr (Some (zero_value kubecache_type))) = Inr (VPtr (Some (cache_value c)))"
  by (simp add: convert_config_def convert_def cache_types cache_value_def handle_field.simps assignable_def
      convertible_def int_kind_def pointers_convertible_def convert_value_def Let_def)

text \<open>
  The conversion of the configuration never panics, and the service gets the loaded
  configuration field by field: with the vendored service and the check of the log level
  without errors, it runs with exactly what was loaded.
\<close>

lemma cache_gets_configuration:
  "load_from_file yaml env_parse env open_file (cache_config_path env flag) = Inr c \<Longrightarrow>
   start_cache yaml env_parse env open_file flag log_level serve =
     (case log_level (cache_value c) of
        Some e \<Rightarrow> Inl (UnknownCacheLogLevel e)
      | None \<Rightarrow> (case serve (cache_value c) of Some e \<Rightarrow> Inl (CacheStopped e) | None \<Rightarrow> Inr (cache_value c)))"
  by (simp add: start_cache_def cache_converted)

lemma cache_gets_configuration_example:
  "start_cache (\<lambda>s c. Inr c) (\<lambda>env c. Inr c) [] (\<lambda>p. Inl ''no file'') [] (\<lambda>v. None) (\<lambda>v. None) =
     Inr (cache_value default_cache_config)"
proof -
  have "load_from_file (\<lambda>s c. Inr c) (\<lambda>env c. Inr c) [] (\<lambda>p. Inl ''no file'') (cache_config_path [] []) =
      Inr default_cache_config"
    by (simp add: load_from_file_def load_cache_config_def cache_config_path_def mstr_def)
  from cache_gets_configuration [OF this, of "\<lambda>v. None" "\<lambda>v. None"] show ?thesis by simp
qed

end
