(* ===== verification/Instrumenter.thy ===== *)
theory Instrumenter
  imports Beyla_Config
begin

text \<open>
  The instrumenter of the application (pkg/internal/appolly/appolly.go): the loop that starts a
  tracer for every process found and forwards process events, the pipeline that reads traces,
  and the graceful stop, as goroutines that interleave in any way.

  The process finder, the tracers and the pipelines are those of the vendored library: here they
  are steps that may happen. A send on the queue of process events appends to what was sent.
\<close>

subsection \<open>Events and state\<close>

record instrumentable_process =
  ip_file :: nat
  ip_tracer :: "nat option"

datatype event_type = EventCreated | EventDeleted | EventInstanceDeleted | EventOther

record found_event =
  fe_type :: event_type
  fe_obj :: instrumentable_process

datatype process_event = ProcessCreated nat | ProcessTerminated nat

datatype waiter = NoWaiter | WaitsForTracers | SendsStopped | WaiterDone

datatype stop_phase = NotStopping | Stopping | StopTimedOut | StopDone

text \<open>
  Besides the state of the program: the events that the loop has taken so far.
\<close>

record instrumenter =
  in_cancelled :: bool
  in_input :: "found_event list"
  in_closed :: bool
  in_loop :: bool
  in_wait_group :: nat
  in_running :: "nat list"
  in_unlinked :: "(nat \<times> nat) list"
  in_sent :: "process_event list"
  in_waiter :: waiter
  in_stop :: stop_phase
  in_taken :: "found_event list"

definition start_instrumenter :: instrumenter where
  "start_instrumenter = \<lparr>in_cancelled = False, in_input = [], in_closed = False, in_loop = True, in_wait_group = 0,
     in_running = [], in_unlinked = [], in_sent = [], in_waiter = NoWaiter, in_stop = NotStopping, in_taken = []\<rparr>"

subsection \<open>One event\<close>

definition dispatch :: "process_event \<Rightarrow> instrumenter \<Rightarrow> instrumenter" where
  "dispatch e s = s\<lparr>in_sent := in_sent s @ [e]\<rparr>"

text \<open>The body of \<open>instrumentedEventLoop\<close>.\<close>

definition handle_found :: "found_event \<Rightarrow> instrumenter \<Rightarrow> instrumenter" where
  "handle_found ev s =
     (let p = fe_obj ev
      in case fe_type ev of
           EventCreated \<Rightarrow>
             dispatch (ProcessCreated (ip_file p))
               (case ip_tracer p of
                  None \<Rightarrow> s
                | Some t \<Rightarrow> s\<lparr>in_wait_group := in_wait_group s + 1, in_running := in_running s @ [t]\<rparr>)
         | EventDeleted \<Rightarrow>
             dispatch (ProcessTerminated (ip_file p))
               (case ip_tracer p of
                  None \<Rightarrow> s
                | Some t \<Rightarrow> s\<lparr>in_unlinked := in_unlinked s @ [(t, ip_file p)]\<rparr>)
         | EventInstanceDeleted \<Rightarrow> dispatch (ProcessTerminated (ip_file p)) s
         | EventOther \<Rightarrow> s)"

subsection \<open>Steps\<close>

text \<open>
  The finder sends events and closes its channel; the context is cancelled; the loop takes an
  event or ends; a tracer returns; \<open>ReadAndForward\<close> reaches \<open>stop\<close> when its pipeline is done,
  which starts the goroutine that waits for the tracers and hands over on an unbuffered channel.
\<close>

inductive istep :: "instrumenter \<Rightarrow> instrumenter \<Rightarrow> bool" where
  find_event: "\<not> in_closed s \<Longrightarrow> istep s (s\<lparr>in_input := in_input s @ [ev]\<rparr>)"
| close_events: "\<not> in_closed s \<Longrightarrow> istep s (s\<lparr>in_closed := True\<rparr>)"
| cancel: "istep s (s\<lparr>in_cancelled := True\<rparr>)"
| loop_event: "in_loop s \<Longrightarrow> in_input s = ev # evs \<Longrightarrow>
    istep s (handle_found ev (s\<lparr>in_input := evs, in_taken := in_taken s @ [ev]\<rparr>))"
| loop_cancelled: "in_loop s \<Longrightarrow> in_cancelled s \<Longrightarrow> istep s (s\<lparr>in_loop := False\<rparr>)"
| loop_closed: "in_loop s \<Longrightarrow> in_closed s \<Longrightarrow> in_input s = [] \<Longrightarrow> istep s (s\<lparr>in_loop := False\<rparr>)"
| tracer_returns: "in_running s = xs @ t # ys \<Longrightarrow>
    istep s (s\<lparr>in_running := xs @ ys, in_wait_group := in_wait_group s - 1\<rparr>)"
| stop_starts: "in_stop s = NotStopping \<Longrightarrow> istep s (s\<lparr>in_stop := Stopping, in_waiter := WaitsForTracers\<rparr>)"
| tracers_done: "in_waiter s = WaitsForTracers \<Longrightarrow> in_wait_group s = 0 \<Longrightarrow> istep s (s\<lparr>in_waiter := SendsStopped\<rparr>)"
| stop_received: "in_stop s = Stopping \<Longrightarrow> in_waiter s = SendsStopped \<Longrightarrow>
    istep s (s\<lparr>in_stop := StopDone, in_waiter := WaiterDone\<rparr>)"
| stop_timeout: "in_stop s = Stopping \<Longrightarrow> istep s (s\<lparr>in_stop := StopTimedOut\<rparr>)"

abbreviation isteps :: "instrumenter \<Rightarrow> instrumenter \<Rightarrow> bool" where
  "isteps \<equiv> istep\<^sup>*\<^sup>*"

inductive_cases istepE: "istep s t"

subsection \<open>What holds in every state\<close>

text \<open>The process event that stands for an event of the finder.\<close>

fun process_event_of :: "found_event \<Rightarrow> process_event list" where
  "process_event_of ev =
     (case fe_type ev of
        EventCreated \<Rightarrow> [ProcessCreated (ip_file (fe_obj ev))]
      | EventDeleted \<Rightarrow> [ProcessTerminated (ip_file (fe_obj ev))]
      | EventInstanceDeleted \<Rightarrow> [ProcessTerminated (ip_file (fe_obj ev))]
      | EventOther \<Rightarrow> [])"

definition instrumenter_inv :: "instrumenter \<Rightarrow> bool" where
  "instrumenter_inv s \<longleftrightarrow>
     in_wait_group s = length (in_running s) \<and>
     in_sent s = concat (map process_event_of (in_taken s)) \<and>
     (in_stop s = NotStopping \<longleftrightarrow> in_waiter s = NoWaiter) \<and>
     (in_stop s = StopDone \<longleftrightarrow> in_waiter s = WaiterDone)"

lemma handle_found_fields [simp]:
  "in_input (handle_found ev s) = in_input s" "in_loop (handle_found ev s) = in_loop s"
  "in_taken (handle_found ev s) = in_taken s" "in_stop (handle_found ev s) = in_stop s"
  "in_waiter (handle_found ev s) = in_waiter s" "in_sent (handle_found ev s) = in_sent s @ process_event_of ev"
  "in_cancelled (handle_found ev s) = in_cancelled s" "in_closed (handle_found ev s) = in_closed s"
  by (simp_all add: handle_found_def dispatch_def Let_def split: event_type.split option.split)

lemma handle_found_count:
  "in_wait_group s = length (in_running s) \<Longrightarrow> in_wait_group (handle_found ev s) = length (in_running (handle_found ev s))"
  by (simp add: handle_found_def dispatch_def Let_def split: event_type.split option.split)

lemma instrumenter_inv_step: "istep s t \<Longrightarrow> instrumenter_inv s \<Longrightarrow> instrumenter_inv t"
  by (induction rule: istep.induct) (auto simp: instrumenter_inv_def handle_found_count simp del: process_event_of.simps)

lemma instrumenter_inv_steps: "isteps s t \<Longrightarrow> instrumenter_inv s \<Longrightarrow> instrumenter_inv t"
  by (induction rule: rtranclp_induct) (auto intro: instrumenter_inv_step)

lemma instrumenter_inv_start: "instrumenter_inv start_instrumenter"
  by (simp add: instrumenter_inv_def start_instrumenter_def)

text \<open>No tracer is started once the loop has ended; the loop does not start again.\<close>

lemma loop_ended_step: "istep s t \<Longrightarrow> \<not> in_loop s \<Longrightarrow> \<not> in_loop t \<and> (in_running s = [] \<longrightarrow> in_running t = [])"
  by (induction rule: istep.induct) auto

definition ended_inv :: "instrumenter \<Rightarrow> bool" where
  "ended_inv s \<longleftrightarrow> instrumenter_inv s \<and> \<not> in_loop s \<and> (in_waiter s \<in> {SendsStopped, WaiterDone} \<longrightarrow> in_running s = [])"

lemma released_step:
  "istep s t \<Longrightarrow> in_wait_group s = length (in_running s) \<Longrightarrow> \<not> in_loop s \<Longrightarrow>
   (in_waiter s \<in> {SendsStopped, WaiterDone} \<longrightarrow> in_running s = []) \<Longrightarrow>
   in_waiter t \<in> {SendsStopped, WaiterDone} \<longrightarrow> in_running t = []"
  by (induction rule: istep.induct) auto

lemma ended_inv_step: "istep s t \<Longrightarrow> ended_inv s \<Longrightarrow> ended_inv t"
  using instrumenter_inv_step [of s t] loop_ended_step [of s t] released_step [of s t]
  unfolding ended_inv_def by (simp add: instrumenter_inv_def)

lemma ended_inv_steps: "isteps s t \<Longrightarrow> ended_inv s \<Longrightarrow> ended_inv t"
  by (induction rule: rtranclp_induct) (auto intro: ended_inv_step)

text \<open>After a timeout nobody receives from the goroutine that waits, so it never ends.\<close>

lemma timed_out_step: "istep s t \<Longrightarrow> in_stop s = StopTimedOut \<and> in_waiter s \<noteq> WaiterDone \<Longrightarrow>
    in_stop t = StopTimedOut \<and> in_waiter t \<noteq> WaiterDone"
  by (induction rule: istep.induct) auto

lemma timed_out_steps: "isteps s t \<Longrightarrow> in_stop s = StopTimedOut \<and> in_waiter s \<noteq> WaiterDone \<Longrightarrow>
    in_stop t = StopTimedOut \<and> in_waiter t \<noteq> WaiterDone"
  by (induction rule: rtranclp_induct) (auto dest: timed_out_step)


subsection \<open>Properties\<close>

text \<open>
  In every state the instrumenter can reach, the wait group counts the tracers that run,
  and what was sent is one process event for each event taken from the finder, in their order,
  and nothing for an event of an unknown type.
\<close>

lemma process_events_in_order:
  "isteps start_instrumenter s \<Longrightarrow>
   in_wait_group s = length (in_running s) \<and> in_sent s = concat (map process_event_of (in_taken s))"
  using instrumenter_inv_steps [OF _ instrumenter_inv_start] by (simp add: instrumenter_inv_def)

text \<open>
  C39: when the event loop has ended before the stop begins, a stop without error means that no
  tracer runs any more. A stop that timed out leaves a goroutine behind that never ends.
\<close>

theorem graceful_stop:
  "isteps start_instrumenter s \<Longrightarrow> \<not> in_loop s \<Longrightarrow> in_stop s = NotStopping \<Longrightarrow> isteps s t \<Longrightarrow>
   (in_stop t = StopDone \<longrightarrow> in_running t = []) \<and> (in_stop t = StopTimedOut \<longrightarrow> in_waiter t \<noteq> WaiterDone)"
proof -
  assume s: "isteps start_instrumenter s" "\<not> in_loop s" "in_stop s = NotStopping" and t: "isteps s t"
  have inv: "instrumenter_inv s" by (rule instrumenter_inv_steps [OF s(1) instrumenter_inv_start])
  with s have "ended_inv s" by (simp add: ended_inv_def instrumenter_inv_def)
  from ended_inv_steps [OF t this] show ?thesis by (auto simp: ended_inv_def instrumenter_inv_def)
qed

text \<open>
  A run in which the pipeline is done while the loop still runs: the stop sees no tracer and
  returns without error, and then the loop starts one.
\<close>

definition late_event :: found_event where
  "late_event = \<lparr>fe_type = EventCreated, fe_obj = \<lparr>ip_file = 7, ip_tracer = Some 3\<rparr>\<rparr>"

lemmas run_defs = start_instrumenter_def late_event_def handle_found_def dispatch_def Let_def

lemma istep_then: "istep s t \<Longrightarrow> isteps t u \<Longrightarrow> isteps s u"
  by (rule converse_rtranclp_into_rtranclp)

definition stopped_early :: instrumenter where
  "stopped_early = start_instrumenter\<lparr>in_cancelled := True, in_input := [late_event], in_stop := StopDone, in_waiter := WaiterDone\<rparr>"

lemma stopped_early_reachable: "isteps start_instrumenter stopped_early"
proof -
  let ?a = "start_instrumenter\<lparr>in_input := [late_event]\<rparr>"
  let ?b = "?a\<lparr>in_cancelled := True\<rparr>"
  let ?c = "?b\<lparr>in_stop := Stopping, in_waiter := WaitsForTracers\<rparr>"
  let ?d = "?c\<lparr>in_waiter := SendsStopped\<rparr>"
  have "istep start_instrumenter ?a" using find_event [of start_instrumenter late_event] by (simp add: run_defs)
  moreover have "istep ?a ?b" by (rule cancel)
  moreover have "istep ?b ?c" by (rule stop_starts) (simp add: run_defs)
  moreover have "istep ?c ?d" by (rule tracers_done) (simp_all add: run_defs)
  moreover have "istep ?d stopped_early"
    using stop_received [of ?d] by (simp add: stopped_early_def run_defs)
  ultimately show ?thesis by (meson istep_then r_into_rtranclp)
qed

text \<open>
  C40: there is a run in which the stop returns without error, though the context is cancelled
  and an event of the finder is pending, and then the event loop takes it and starts a tracer
  that nobody waits for.
\<close>

theorem tracer_after_stop:
  "\<exists>s t. isteps start_instrumenter s \<and> in_stop s = StopDone \<and> in_cancelled s \<and> istep s t \<and>
     in_stop t = StopDone \<and> in_running t = [3] \<and> in_sent t = [ProcessCreated 7]"
proof (intro exI conjI)
  show "istep stopped_early (handle_found late_event (stopped_early\<lparr>in_input := [], in_taken := in_taken stopped_early @ [late_event]\<rparr>))"
    by (rule loop_event) (simp_all add: stopped_early_def run_defs)
qed (rule stopped_early_reachable, simp_all add: stopped_early_def run_defs)

theorem graceful_stop_witness:
  "\<exists>t. isteps (start_instrumenter\<lparr>in_cancelled := True, in_loop := False\<rparr>) t \<and> in_stop t = StopDone \<and> in_running t = []"
proof -
  let ?s = "start_instrumenter\<lparr>in_cancelled := True, in_loop := False\<rparr>"
  let ?b = "?s\<lparr>in_stop := Stopping, in_waiter := WaitsForTracers\<rparr>"
  let ?c = "?b\<lparr>in_waiter := SendsStopped\<rparr>"
  let ?d = "?c\<lparr>in_stop := StopDone, in_waiter := WaiterDone\<rparr>"
  have "istep start_instrumenter (start_instrumenter\<lparr>in_cancelled := True\<rparr>)" by (rule cancel)
  moreover have "istep (start_instrumenter\<lparr>in_cancelled := True\<rparr>) ?s"
    using loop_cancelled [of "start_instrumenter\<lparr>in_cancelled := True\<rparr>"] by (simp add: run_defs)
  ultimately have s: "isteps start_instrumenter ?s" by (meson istep_then r_into_rtranclp)
  have "istep ?s ?b" by (rule stop_starts) (simp add: run_defs)
  moreover have "istep ?b ?c" by (rule tracers_done) (simp_all add: run_defs)
  moreover have "istep ?c ?d" by (rule stop_received) (simp_all add: run_defs)
  ultimately have t: "isteps ?s ?d" by (meson istep_then r_into_rtranclp)
  from graceful_stop [OF s _ _ t] have "in_running ?d = []" by (simp add: run_defs)
  with t show ?thesis by (intro exI [of _ ?d]) simp
qed

subsection \<open>Setting up\<close>

text \<open>
  \<open>FindAndInstrument\<close>: the errors of the finder and of the process event pipeline; otherwise the
  loop runs if the finder has a channel, which it has not in survey mode.
\<close>

datatype find_error = FinderError string | EventPipelineError string

definition find_and_instrument :: "string + bool \<Rightarrow> string option \<Rightarrow> find_error + instrumenter" where
  "find_and_instrument finder graph =
     (case finder of
        Inl e \<Rightarrow> Inl (FinderError e)
      | Inr has_events \<Rightarrow>
          (case graph of
             Some e \<Rightarrow> Inl (EventPipelineError e)
           | None \<Rightarrow> Inr (start_instrumenter\<lparr>in_loop := has_events\<rparr>)))"

text \<open>\<open>ReadAndForward\<close>, once \<open>stop\<close> has returned: whether it fails.\<close>

definition read_and_forward :: "stop_phase \<Rightarrow> bool option" where
  "read_and_forward p =
     (case p of StopDone \<Rightarrow> Some False | StopTimedOut \<Rightarrow> Some True | _ \<Rightarrow> None)"

text \<open>\<open>setupKubernetes\<close>: whether Kubernetes stays enabled after the cache has been asked for.\<close>

definition setup_kubernetes :: "bool \<Rightarrow> string option \<Rightarrow> bool" where
  "setup_kubernetes enabled failure = (if \<not> enabled then False else (case failure of Some e \<Rightarrow> False | None \<Rightarrow> True))"

lemma survey_mode_takes_nothing:
  "find_and_instrument (Inr False) None = Inr s \<Longrightarrow> isteps s t \<Longrightarrow> in_taken t = [] \<and> in_running t = []"
proof -
  assume s: "find_and_instrument (Inr False) None = Inr s" and st: "isteps s t"
  have step: "istep u v \<Longrightarrow> \<not> in_loop u \<and> in_taken u = [] \<and> in_running u = [] \<Longrightarrow>
      \<not> in_loop v \<and> in_taken v = [] \<and> in_running v = []" for u v
    by (induction rule: istep.induct) auto
  from st have "\<not> in_loop t \<and> in_taken t = [] \<and> in_running t = []"
    by (induction rule: rtranclp_induct) (use s step in \<open>auto simp: find_and_instrument_def start_instrumenter_def\<close>)
  then show ?thesis by simp
qed

end
