(* ===== verification/Main_Program.thy ===== *)
theory Main_Program
  imports Config_Env Instrumenter "HOL-Library.Multiset"
begin

text \<open>
  The program as a whole: \<open>main\<close> (cmd/beyla/main.go) from its flags to the exit, \<open>RunBeyla\<close> with
  its group of goroutines and the shared context (pkg/components/beyla.go), the generator of
  survey events (pkg/internal/discover/survey_informer.go) and the traces receiver
  (pkg/export/alloy/traces.go).
\<close>

subsection \<open>The parts that run\<close>

text \<open>The errors of the parts, with the step that failed.\<close>

datatype part_error =
    CannotCreateInstrumenter string | CannotFindTarget find_error | CannotReadAndForward
  | CannotStartNetwork string | CannotRunNetwork string
  | CannotStartStats string | CannotRunStats string
  | CannotCreateWebhook string | WebhookStopped string

text \<open>\<open>setupAppO11y\<close>: \<open>stop\<close> is the phase that \<open>ReadAndForward\<close> ends in.\<close>

definition setup_app :: "string option \<Rightarrow> find_error + instrumenter \<Rightarrow> stop_phase \<Rightarrow> part_error option" where
  "setup_app created found stop =
     (case created of
        Some e \<Rightarrow> Some (CannotCreateInstrumenter e)
      | None \<Rightarrow>
          (case found of
             Inl e \<Rightarrow> Some (CannotFindTarget e)
           | Inr s \<Rightarrow> if read_and_forward stop = Some True then Some CannotReadAndForward else None))"

definition setup_net :: "string option \<Rightarrow> string option \<Rightarrow> part_error option" where
  "setup_net created result =
     (case created of
        Some e \<Rightarrow> Some (CannotStartNetwork e)
      | None \<Rightarrow> map_option CannotRunNetwork result)"

definition setup_stats :: "string option \<Rightarrow> string option \<Rightarrow> part_error option" where
  "setup_stats created result =
     (case created of
        Some e \<Rightarrow> Some (CannotStartStats e)
      | None \<Rightarrow> map_option CannotRunStats result)"

definition setup_webhook :: "string option \<Rightarrow> string option \<Rightarrow> part_error option" where
  "setup_webhook created result =
     (case created of
        Some e \<Rightarrow> Some (CannotCreateWebhook e)
      | None \<Rightarrow> map_option WebhookStopped result)"

text \<open>
  The group of \<open>RunBeyla\<close>: the first error is kept and cancels the context of the others;
  \<open>Wait\<close> returns when every part has returned.
\<close>

record part_group =
  gr_running :: "beyla_part list"
  gr_error :: "(beyla_part \<times> part_error) option"
  gr_cancelled :: bool

definition group_start :: "beyla_config \<Rightarrow> part_group" where
  "group_start c = \<lparr>gr_running = run_beyla c, gr_error = None, gr_cancelled = False\<rparr>"

definition part_returns :: "beyla_part \<times> part_error option \<Rightarrow> part_group \<Rightarrow> part_group" where
  "part_returns r g =
     (case r of (p, e) \<Rightarrow>
        g\<lparr>gr_running := remove1 p (gr_running g),
          gr_error := (case gr_error g of
              None \<Rightarrow> (case e of None \<Rightarrow> None | Some x \<Rightarrow> Some (p, x))
            | Some x \<Rightarrow> Some x),
          gr_cancelled := (gr_cancelled g \<or> e \<noteq> None)\<rparr>)"

definition group_wait :: "part_group \<Rightarrow> (beyla_part \<times> part_error) option option" where
  "group_wait g = (if gr_running g = [] then Some (gr_error g) else None)"

lemma parts_distinct: "distinct (run_beyla c)"
  by (simp add: run_beyla_def)

lemma part_returns_fields:
  "gr_running (part_returns r g) = remove1 (fst r) (gr_running g)"
  "gr_cancelled (part_returns r g) = (gr_cancelled g \<or> snd r \<noteq> None)"
  "gr_error (part_returns r g) = (case gr_error g of
     None \<Rightarrow> (case snd r of None \<Rightarrow> None | Some x \<Rightarrow> Some (fst r, x)) | Some x \<Rightarrow> Some x)"
  unfolding part_returns_def case_prod_beta by simp_all

definition first_error :: "(beyla_part \<times> part_error option) list \<Rightarrow> (beyla_part \<times> part_error) option" where
  "first_error rs = (case find (\<lambda>r. snd r \<noteq> None) rs of None \<Rightarrow> None | Some r \<Rightarrow> Some (fst r, the (snd r)))"

lemma group_fold:
  "gr_running (fold part_returns rs g) = foldl (\<lambda>ps r. remove1 (fst r) ps) (gr_running g) rs"
  "gr_error (fold part_returns rs g) = (case gr_error g of Some x \<Rightarrow> Some x | None \<Rightarrow> first_error rs)"
  by (induction rs arbitrary: g) (auto simp: part_returns_fields first_error_def split: option.split)

lemma group_cancelled: "gr_cancelled g = (gr_error g \<noteq> None) \<Longrightarrow>
    gr_cancelled (fold part_returns rs g) = (gr_error (fold part_returns rs g) \<noteq> None)"
  by (induction rs arbitrary: g) (auto simp: part_returns_fields split: option.split)

lemma remove_all:
  "mset ps = mset (map fst rs) \<Longrightarrow> foldl (\<lambda>ps r. remove1 (fst r) ps) ps rs = []"
proof (induction rs arbitrary: ps)
  case (Cons r rs)
  then have "mset (remove1 (fst r) ps) = mset (map fst rs)" by simp
  from Cons.IH [OF this] show ?case by simp
qed simp

lemma mset_remove_all: "mset (foldl (\<lambda>ps r. remove1 (fst r) ps) ps rs) = mset ps - mset (map fst rs)"
  by (induction rs arbitrary: ps) simp_all

subsection \<open>The start of the program\<close>

datatype start_failure =
    UnsupportedOs string | CannotOpenConfig string | WrongConfig load_error | InvalidConfig config_error
  | UnknownLogLevel string | MissingCapabilities string | CannotBuildContext string

text \<open>What \<open>main\<close> asks of the host and of the libraries.\<close>

record program_host =
  ph_os_support :: "string option"
  ph_flag :: string
  ph_env :: strmap
  ph_open :: "string \<Rightarrow> string + (string + string)"
  ph_log_level :: "beyla_config \<Rightarrow> string option"
  ph_capabilities :: "beyla_config \<Rightarrow> string option"
  ph_enforce :: "beyla_config \<Rightarrow> bool"
  ph_context :: "beyla_config \<Rightarrow> string option"

record decoders =
  dc_default :: beyla_config
  dc_yaml :: "string \<Rightarrow> beyla_config \<Rightarrow> string + beyla_config"
  dc_env :: "strmap \<Rightarrow> beyla_config \<Rightarrow> string + beyla_config"
  dc_url :: "string \<Rightarrow> string + url"
  dc_discovery :: "discovery_section \<Rightarrow> string option"
  dc_cilium :: "int \<Rightarrow> string option"

definition config_path :: "program_host \<Rightarrow> string" where
  "config_path h =
     (if mstr (ph_env h) ''BEYLA_CONFIG_PATH'' \<noteq> [] then mstr (ph_env h) ''BEYLA_CONFIG_PATH'' else ph_flag h)"

text \<open>\<open>loadConfig\<close> of main.go: without a path there is no reader.\<close>

definition load_config_file :: "decoders \<Rightarrow> program_host \<Rightarrow> string \<Rightarrow> start_failure + beyla_config" where
  "load_config_file d h path =
     (let load = (\<lambda>file. case load_config (dc_default d) (dc_yaml d) (dc_env d) (ph_env h) file of
                           Inl e \<Rightarrow> Inl (WrongConfig e) | Inr c \<Rightarrow> Inr c)
      in if path \<noteq> [] then (case ph_open h path of Inl e \<Rightarrow> Inl (CannotOpenConfig e) | Inr contents \<Rightarrow> load (Some contents))
         else load None)"

text \<open>
  \<open>main\<close> up to \<open>RunBeyla\<close>, which fails before it starts any part if the context cannot be built.
\<close>

definition start_program :: "decoders \<Rightarrow> program_host \<Rightarrow> start_failure + beyla_config" where
  "start_program d h =
     (case ph_os_support h of
        Some e \<Rightarrow> Inl (UnsupportedOs e)
      | None \<Rightarrow>
          and_then (load_config_file d h (config_path h)) (\<lambda>c.
          case validate (dc_url d) (dc_discovery d) (dc_cilium d) c of
            Some e \<Rightarrow> Inl (InvalidConfig e)
          | None \<Rightarrow>
              (case ph_log_level h c of
                 Some e \<Rightarrow> Inl (UnknownLogLevel e)
               | None \<Rightarrow>
                   (case (if ph_enforce h c then ph_capabilities h c else None) of
                      Some e \<Rightarrow> Inl (MissingCapabilities e)
                    | None \<Rightarrow>
                        (case ph_context h c of
                           Some e \<Rightarrow> Inl (CannotBuildContext e)
                         | None \<Rightarrow> Inr c)))))"

text \<open>
  The exit of the program, given the order in which the parts of a configuration return:
  \<open>None\<close> while it runs.
\<close>

datatype exit_state = StartFailed start_failure | RanWithErrors beyla_part part_error | ExitedNormally

definition main_program ::
  "decoders \<Rightarrow> program_host \<Rightarrow> (beyla_part \<times> part_error option) list \<Rightarrow> exit_state option" where
  "main_program d h rs =
     (case start_program d h of
        Inl e \<Rightarrow> Some (StartFailed e)
      | Inr c \<Rightarrow>
          map_option (\<lambda>err. case err of None \<Rightarrow> ExitedNormally | Some (p, e) \<Rightarrow> RanWithErrors p e)
            (group_wait (fold part_returns rs (group_start c))))"

lemma start_program_ok:
  "start_program d h = Inr c \<Longrightarrow>
   normalize_config c = c \<and> validate (dc_url d) (dc_discovery d) (dc_cilium d) c = None \<and>
   (ph_enforce h c \<longrightarrow> ph_capabilities h c = None)"
  by (auto simp: start_program_def load_config_file_def and_then_def Let_def loaded_normalised
      split: option.splits sum.splits if_splits)

lemma group_wait_all:
  assumes "mset (map fst rs) = mset (run_beyla c)"
  shows "group_wait (fold part_returns rs (group_start c)) = Some (first_error rs)"
  using remove_all [of "run_beyla c" rs] assms by (simp add: group_wait_def group_start_def group_fold)

text \<open>
  C36: what the end of the program says. It ends for a start that failed before any part ran; or
  with the first error that a part returned, which also cancels the others; or normally, and
  then no part failed. When it starts, its configuration is normalised and valid, and while a
  part of this configuration has not returned the program does not end.
\<close>

theorem program_ends:
  "(start_program d h = Inl e \<longrightarrow> main_program d h rs = Some (StartFailed e)) \<and>
   (start_program d h = Inr c \<longrightarrow>
      normalize_config c = c \<and> validate (dc_url d) (dc_discovery d) (dc_cilium d) c = None \<and>
      (mset (map fst rs) \<subset># mset (run_beyla c) \<longrightarrow> main_program d h rs = None) \<and>
      (mset (map fst rs) = mset (run_beyla c) \<longrightarrow>
        main_program d h rs = Some (case first_error rs of None \<Rightarrow> ExitedNormally | Some (p, x) \<Rightarrow> RanWithErrors p x)) \<and>
      gr_cancelled (fold part_returns rs (group_start c)) = (first_error rs \<noteq> None))"
proof (intro conjI impI)
  show "start_program d h = Inl e \<Longrightarrow> main_program d h rs = Some (StartFailed e)"
    by (simp add: main_program_def)
  assume c: "start_program d h = Inr c"
  show "normalize_config c = c" "validate (dc_url d) (dc_discovery d) (dc_cilium d) c = None"
    using start_program_ok [OF c] by blast+
  show "main_program d h rs = None" if less: "mset (map fst rs) \<subset># mset (run_beyla c)"
  proof -
    have "mset (gr_running (fold part_returns rs (group_start c))) = mset (run_beyla c) - mset (map fst rs)"
      by (simp add: group_fold(1) group_start_def mset_remove_all)
    moreover have "mset (run_beyla c) - mset (map fst rs) \<noteq> {#}"
      using less by (simp add: Diff_eq_empty_iff_mset subset_mset.less_le_not_le)
    ultimately have "gr_running (fold part_returns rs (group_start c)) \<noteq> []" by force
    then show ?thesis by (simp add: main_program_def c group_wait_def)
  qed
  show "main_program d h rs = Some (case first_error rs of None \<Rightarrow> ExitedNormally | Some (p, x) \<Rightarrow> RanWithErrors p x)"
    if "mset (map fst rs) = mset (run_beyla c)"
    using group_wait_all [OF that] by (simp add: main_program_def c)
  show "gr_cancelled (fold part_returns rs (group_start c)) = (first_error rs \<noteq> None)"
    using group_cancelled [of "group_start c" rs] by (simp add: group_fold(2) group_start_def)
qed

definition sample_decoders :: decoders where
  "sample_decoders = \<lparr>dc_default = sample_beyla, dc_yaml = \<lambda>s c. Inr c, dc_env = \<lambda>env c. Inr sample_beyla, dc_url = \<lambda>_. Inl [],
     dc_discovery = \<lambda>_. None, dc_cilium = \<lambda>_. None\<rparr>"

definition sample_program :: program_host where
  "sample_program = \<lparr>ph_os_support = None, ph_flag = [], ph_env = [(''BEYLA_OPEN_PORT'', ''8080'')], ph_open = \<lambda>_. Inl ''no file'',
     ph_log_level = \<lambda>_. None, ph_capabilities = \<lambda>_. Some ''CAP_BPF'', ph_enforce = \<lambda>_. False, ph_context = \<lambda>_. None\<rparr>"

lemma sample_parts: "run_beyla sample_beyla = [AppO11y]"
  by code_simp

lemma sample_start: "start_program sample_decoders sample_program = Inr sample_beyla"
proof -
  have "normalize_config sample_beyla = sample_beyla"
    by (simp add: normalize_config_eq deprecated_features_def sample_beyla_def survey_enabled_def
        metrics_endpoint_enabled_def prom_endpoint_enabled_def)
  then have "load_config_file sample_decoders sample_program [] = Inr sample_beyla"
    by (simp add: load_config_file_def load_config_def sample_decoders_def)
  moreover have "config_path sample_program = []"
    by (simp add: config_path_def sample_program_def mstr_def)
  ultimately show ?thesis
    using sample_beyla_valid by (simp add: start_program_def) (simp add: sample_decoders_def sample_program_def)
qed

theorem program_ends_witness:
  "main_program sample_decoders sample_program [] = None \<and>
   main_program sample_decoders sample_program [(AppO11y, Some CannotReadAndForward)] =
     Some (RanWithErrors AppO11y CannotReadAndForward)"
  using program_ends [of sample_decoders sample_program undefined "[]" sample_beyla]
    program_ends [of sample_decoders sample_program undefined "[(AppO11y, Some CannotReadAndForward)]" sample_beyla]
  by (simp add: sample_start sample_parts first_error_def)

subsection \<open>Attribute groups\<close>

text \<open>\<open>attributeGroups\<close>: what it reads of the configuration and of the host.\<close>

record group_flags =
  gf_kube :: bool
  gf_docker :: bool
  gf_routes :: bool
  gf_deduper_none :: bool
  gf_cidrs :: bool
  gf_geoip :: bool

datatype attribute_group =
    GroupKubernetes | GroupContainer | GroupHTTPRoutes | GroupNetIfaceDirection | GroupNetCIDR | GroupNetGeoIP

definition attribute_groups :: "group_flags \<Rightarrow> attribute_group list" where
  "attribute_groups f =
     (if gf_kube f then [GroupKubernetes] else if gf_docker f then [GroupContainer] else []) @
     (if gf_routes f then [GroupHTTPRoutes] else []) @
     (if gf_deduper_none f then [GroupNetIfaceDirection] else []) @
     (if gf_cidrs f then [GroupNetCIDR] else []) @
     (if gf_geoip f then [GroupNetGeoIP] else [])"

lemma one_orchestrator: "\<not> (GroupKubernetes \<in> set (attribute_groups f) \<and> GroupContainer \<in> set (attribute_groups f))"
  by (simp add: attribute_groups_def)

subsection \<open>Printing the configuration\<close>

text \<open>\<open>logConfig\<close>: what is printed, if anything; the encoders are parameters.\<close>

definition log_config ::
  "('c \<Rightarrow> string + string) \<Rightarrow> (string \<Rightarrow> string + 'm) \<Rightarrow> ('m \<Rightarrow> string + string) \<Rightarrow> string \<Rightarrow> 'c \<Rightarrow> string option" where
  "log_config to_yaml from_yaml to_json opt c =
     (if opt = [] then None
      else case to_yaml c of
             Inl e \<Rightarrow> None
           | Inr y \<Rightarrow>
               (let text =
                  (if opt = ''yaml'' then y
                   else if opt = ''json''
                     then (case from_yaml y of
                             Inl e \<Rightarrow> []
                           | Inr m \<Rightarrow> (case to_json m of Inl e \<Rightarrow> [] | Inr j \<Rightarrow> j))
                   else [])
                in if text \<noteq> [] then Some text else None))"

lemma log_config_formats:
  "to_yaml c = Inr y \<Longrightarrow> y \<noteq> [] \<Longrightarrow> log_config to_yaml from_yaml to_json ''yaml'' c = Some y"
  "to_yaml c = Inr y \<Longrightarrow> from_yaml y = Inr m \<Longrightarrow> to_json m = Inr j \<Longrightarrow> j \<noteq> [] \<Longrightarrow>
   log_config to_yaml from_yaml to_json ''json'' c = Some j"
  "opt \<noteq> ''yaml'' \<Longrightarrow> opt \<noteq> ''json'' \<Longrightarrow> log_config to_yaml from_yaml to_json opt c = None"
  by (simp_all add: log_config_def split: sum.split)

end
