(* ===== verification/Survey_Events.thy ===== *)
theory Survey_Events
  imports Connect_Spans Instrumenter
begin

text \<open>
  The events that feed the survey reporters (pkg/internal/discover/survey_informer.go), with what
  the vendored library adds to a service for its executable (pkg/ebpf/tracer.go) and its pod
  (pkg/transform/k8s.go); and the receiver that hands traces over to consumers
  (pkg/export/alloy/traces.go).

  The store of Kubernetes objects is a parameter: the pod and container of a PID namespace, and
  the name and namespace of the service of a container.
\<close>

subsection \<open>Services of processes\<close>

record survey_process =
  sy_pid :: int
  sy_ns :: nat
  sy_exe :: string
  sy_language :: instrumentable
  sy_service :: span_service

definition executable_name :: "string \<Rightarrow> string" where
  "executable_name path = List.last (split_byte (CHR ''/'') path)"

definition auto_name :: "span_service \<Rightarrow> bool" where
  "auto_name s \<longleftrightarrow> ss_flags s AND 1 = 1"

text \<open>\<open>CopyToServiceAttributes\<close>.\<close>

definition copy_to_service_attributes :: "survey_process \<Rightarrow> span_service" where
  "copy_to_service_attributes p =
     (let s = sy_service p;
          s = (if u_name (sa_uid s) = []
               then s\<lparr>sa_uid := (sa_uid s)\<lparr>u_name := executable_name (sy_exe p)\<rparr>, ss_flags := ss_flags s OR 1\<rparr>
               else s)
      in s\<lparr>sv_language := sy_language p\<rparr>)"

record kube_pod =
  kp_node :: string
  kp_uid :: string
  kp_start :: string
  kp_owners :: "(string \<times> string) list"

record kube_meta =
  km_name :: string
  km_namespace :: string
  km_pod :: "kube_pod option"
  km_resource :: strmap

record kube_store =
  ks_container :: "nat \<Rightarrow> (kube_meta \<times> string) option"
  ks_service :: "kube_meta \<Rightarrow> string \<Rightarrow> string \<times> string"

definition owner_attr :: "string \<Rightarrow> string" where
  "owner_attr kind =
     (if kind = ''Deployment'' then ''k8s.deployment.name''
      else if kind = ''StatefulSet'' then ''k8s.statefulset.name''
      else if kind = ''DaemonSet'' then ''k8s.daemonset.name''
      else if kind = ''ReplicaSet'' then ''k8s.replicaset.name''
      else if kind = ''Job'' then ''k8s.job.name''
      else if kind = ''CronJob'' then ''k8s.cronjob.name''
      else [])"

text \<open>The loop over the owners; the last owner is the top one.\<close>

definition owner_metadata :: "(string \<times> string) list \<Rightarrow> strmap \<Rightarrow> strmap" where
  "owner_metadata owners m =
     fold (\<lambda>(kind, name) m.
        (let m = (if mget m ''k8s.kind'' = None then mput m ''k8s.kind'' kind else m)
         in if owner_attr kind \<noteq> [] then mput m (owner_attr kind) name else m)) owners
       (if owners = [] then m
        else mput (mput m ''k8s.owner.name'' (snd (List.last owners))) ''k8s.kind'' (fst (List.last owners)))"

definition pod_metadata :: "kube_meta \<Rightarrow> kube_pod \<Rightarrow> string \<Rightarrow> string \<Rightarrow> strmap" where
  "pod_metadata meta pod cluster container =
     [(''k8s.namespace.name'', km_namespace meta), (''k8s.pod.name'', km_name meta),
      (''k8s.container.name'', container), (''k8s.node.name'', kp_node pod), (''k8s.pod.uid'', kp_uid pod),
      (''k8s.pod.start_time'', kp_start pod), (''k8s.cluster.name'', cluster)]"

text \<open>\<open>AppendKubeMetadata\<close>.\<close>

definition append_kube_metadata ::
  "kube_store \<Rightarrow> string \<Rightarrow> kube_meta \<Rightarrow> string \<Rightarrow> span_service \<Rightarrow> span_service" where
  "append_kube_metadata store cluster meta container s =
     (case km_pod meta of
        None \<Rightarrow> s
      | Some pod \<Rightarrow>
          (let (name, namespace) = ks_service store meta container;
               uid = sa_uid s;
               uid = (if auto_name s then uid\<lparr>u_name := name\<rparr> else uid);
               uid = (if u_namespace uid = [] then uid\<lparr>u_namespace := namespace\<rparr> else uid);
               uid = uid\<lparr>u_instance := km_namespace meta @ ''.'' @ km_name meta @ ''.'' @ container\<rparr>;
               m = mput_all (sa_metadata s) (pod_metadata meta pod cluster container);
               m = mput_all (owner_metadata (kp_owners pod) m) (km_resource meta)
           in s\<lparr>sa_uid := uid, sa_metadata := m, sa_host := km_name meta\<rparr>))"

text \<open>\<open>fetchMetadata\<close> and \<open>run\<close> of the surveyor; without Kubernetes it has no store.\<close>

definition fetch_metadata :: "kube_store option \<Rightarrow> string \<Rightarrow> survey_process \<Rightarrow> span_service" where
  "fetch_metadata store cluster p =
     (let s = copy_to_service_attributes p
      in case store of
           None \<Rightarrow> s
         | Some st \<Rightarrow>
             (case ks_container st (sy_ns p) of
                None \<Rightarrow> s
              | Some (meta, container) \<Rightarrow> append_kube_metadata st cluster meta container s))"

definition surveyor_event :: "kube_store option \<Rightarrow> string \<Rightarrow> event_type \<times> survey_process \<Rightarrow> survey_event" where
  "surveyor_event store cluster e =
     (case e of (ty, p) \<Rightarrow>
        (let s = survey_service.truncate (fetch_metadata store cluster p)
         in if ty = EventDeleted then Terminated (sy_pid p) s else Created (sy_pid p) s))"

definition surveyor_run :: "kube_store option \<Rightarrow> string \<Rightarrow> (event_type \<times> survey_process) list list \<Rightarrow> survey_event list" where
  "surveyor_run store cluster batches = concat (map (map (surveyor_event store cluster)) batches)"

text \<open>\<open>SurveyEventGenerator\<close>: it fails if Kubernetes is enabled and its store cannot be had.\<close>

definition survey_event_generator ::
  "bool \<Rightarrow> string + kube_store \<Rightarrow> string \<Rightarrow> string + (kube_store option \<times> string)" where
  "survey_event_generator kube store cluster =
     (if kube then (case store of Inl e \<Rightarrow> Inl e | Inr st \<Rightarrow> Inr (Some st, cluster)) else Inr (None, []))"

subsection \<open>The survey as a whole\<close>

text \<open>From batches of processes to the state of both reporters.\<close>

definition survey_pipeline ::
  "kube_store option \<Rightarrow> string \<Rightarrow> (survey_service \<Rightarrow> attr_list) \<Rightarrow> survey_config \<Rightarrow>
   (event_type \<times> survey_process) list list \<Rightarrow> otel_survey \<times> prom_survey" where
  "survey_pipeline store cluster attrs cfg batches =
     (let es = surveyor_run store cluster batches
      in (fold (otel_event attrs) es new_otel_survey, fold (prom_event cfg) es new_prom_survey))"

lemma fetch_without_pod:
  "(\<And>st. store = Some st \<Longrightarrow> ks_container st (sy_ns p) = None) \<Longrightarrow>
   fetch_metadata store cluster p = copy_to_service_attributes p"
  by (cases store) (simp_all add: fetch_metadata_def Let_def)

lemma auto_name_set: "u_name (sa_uid (sy_service p)) = [] \<Longrightarrow> auto_name (copy_to_service_attributes p)"
  by (simp add: copy_to_service_attributes_def auto_name_def Let_def bit_eq_iff bit_simps)

lemma copy_keeps:
  "u_name (sa_uid (sy_service p)) \<noteq> [] \<Longrightarrow> copy_to_service_attributes p = (sy_service p)\<lparr>sv_language := sy_language p\<rparr>"
  by (simp add: copy_to_service_attributes_def)

text \<open>
  What the survey says of a process in a pod: the name that the user gave, or that of the
  service of the container; the namespace in the same way; an instance of its own for the
  container; the language of its executable, and the name of its pod as the host.
\<close>

lemma surveyed_service:
  assumes "ks_container st (sy_ns p) = Some (meta, container)" and "km_pod meta = Some pod"
    and "ks_service st meta container = (name, namespace)" and "\<not> auto_name (sy_service p)"
  shows "sa_uid (fetch_metadata (Some st) cluster p) =
      \<lparr>u_name = (if u_name (sa_uid (sy_service p)) = [] then name else u_name (sa_uid (sy_service p))),
       u_namespace = (if u_namespace (sa_uid (sy_service p)) = [] then namespace else u_namespace (sa_uid (sy_service p))),
       u_instance = km_namespace meta @ ''.'' @ km_name meta @ ''.'' @ container\<rparr> \<and>
    sv_language (fetch_metadata (Some st) cluster p) = sy_language p \<and>
    sa_host (fetch_metadata (Some st) cluster p) = km_name meta"
proof -
  let ?s = "copy_to_service_attributes p"
  have uid: "u_namespace (sa_uid ?s) = u_namespace (sa_uid (sy_service p))" "sv_language ?s = sy_language p"
    by (simp_all add: copy_to_service_attributes_def Let_def)
  have auto: "auto_name ?s \<longleftrightarrow> u_name (sa_uid (sy_service p)) = []"
  proof (cases "u_name (sa_uid (sy_service p)) = []")
    case True
    then show ?thesis using auto_name_set by simp
  next
    case False
    then show ?thesis using assms(4) by (simp add: copy_keeps auto_name_def)
  qed
  have name: "u_name (sa_uid (sy_service p)) \<noteq> [] \<Longrightarrow> u_name (sa_uid ?s) = u_name (sa_uid (sy_service p))"
    using copy_keeps [of p] by simp
  show ?thesis
    using name by (auto simp: fetch_metadata_def append_kube_metadata_def assms(1-3) Let_def auto uid service_uid.defs)
qed

lemma survey_terminates_deleted:
  "surveyor_event store cluster (ty, p) = Terminated pid s \<Longrightarrow> ty = EventDeleted \<and> pid = sy_pid p"
  by (auto simp: surveyor_event_def Let_def split: if_splits)

subsection \<open>The traces receiver\<close>

text \<open>
  \<open>provideLoop\<close>: the calls of the consumers for the batches of spans, with grouping, the export
  modes of the first span of a group and the generation of traces as in the vendored library.
  An error of a consumer is logged and changes nothing.
\<close>

definition offer_group :: "('s \<Rightarrow> bool) \<Rightarrow> ('s list \<Rightarrow> 't) \<Rightarrow> 'c list \<Rightarrow> 's list \<Rightarrow> ('c \<times> 't) list" where
  "offer_group can_export generate consumers spans =
     (if length spans > 0
      then (if \<not> can_export (hd spans) then [] else map (\<lambda>c. (c, generate spans)) consumers)
      else [])"

definition receiver_loop ::
  "('b \<Rightarrow> 's list list) \<Rightarrow> ('s \<Rightarrow> bool) \<Rightarrow> ('s list \<Rightarrow> 't) \<Rightarrow> 'c list \<Rightarrow> 'b list \<Rightarrow> ('c \<times> 't) list" where
  "receiver_loop grouping can_export generate consumers batches =
     concat (map (\<lambda>b. concat (map (offer_group can_export generate consumers) (grouping b))) batches)"

definition traces_receiver ::
  "('b \<Rightarrow> 's list list) \<Rightarrow> ('s \<Rightarrow> bool) \<Rightarrow> ('s list \<Rightarrow> 't) \<Rightarrow> 'c list \<Rightarrow> 'b list \<Rightarrow> ('c \<times> 't) list" where
  "traces_receiver grouping can_export generate consumers batches =
     (if consumers = [] then [] else receiver_loop grouping can_export generate consumers batches)"

lemma offer_group_for:
  "distinct consumers \<Longrightarrow> c \<in> set consumers \<Longrightarrow>
   map snd (filter (\<lambda>(c', t). c' = c) (offer_group can_export generate consumers spans)) =
     (if spans \<noteq> [] \<and> can_export (hd spans) then [generate spans] else [])"
proof -
  assume c: "distinct consumers" "c \<in> set consumers"
  have only: "map snd (filter (\<lambda>(c', t). c' = c) (map (\<lambda>c. (c, x)) cs)) = (if c \<in> set cs then [x] else [])"
    if "distinct cs" for cs and x
    using that by (induction cs) auto
  show ?thesis
  proof (cases "spans \<noteq> [] \<and> can_export (hd spans)")
    case True
    then have "offer_group can_export generate consumers spans = map (\<lambda>c. (c, generate spans)) consumers"
      by (simp add: offer_group_def)
    then show ?thesis unfolding only [OF c(1)] using c(2) True by (simp only: only [OF c(1)] if_True simp_thms)
  qed (auto simp: offer_group_def)
qed

text \<open>Every consumer gets the traces of every exportable group once, and in the same order.\<close>

lemma consumers_agree:
  assumes "distinct consumers" and "c \<in> set consumers"
  shows "map snd (filter (\<lambda>(c', t). c' = c) (traces_receiver grouping can_export generate consumers batches)) =
    map generate (filter (\<lambda>g. g \<noteq> [] \<and> can_export (hd g)) (concat (map grouping batches)))"
proof -
  have one: "map snd (filter (\<lambda>(c', t). c' = c) (concat (map (offer_group can_export generate consumers) gs))) =
      map generate (filter (\<lambda>g. g \<noteq> [] \<and> can_export (hd g)) gs)" for gs
    by (induction gs) (simp_all add: offer_group_for [OF assms])
  have "consumers \<noteq> []" using assms(2) by auto
  then show ?thesis
    unfolding traces_receiver_def receiver_loop_def by (induction batches) (simp_all add: one)
qed

end
