(* ===== verification/Pipelines.thy ===== *)
theory Pipelines
  imports Beyla_Config
begin

text \<open>
  How the pipelines of the application are wired: the process finder
  (pkg/internal/discover/finder.go), the annotation of process events
  (pkg/internal/appolly/appolly.go), and the processing of spans
  (pkg/internal/pipe/instrumenter.go, proc_pipeline.go).

  A node has a name and the queues that it subscribes to and sends to; a provider whose
  exporter is off returns an empty function and does not subscribe. A provider that has
  nothing to do bypasses its node (\<open>swarm.Bypass\<close>): what is sent to its first queue goes to the
  subscribers of the second, which is how a node between the two counts here. A queue without
  a subscriber drops what is sent; a node whose queue nobody sends to waits.

  The process finder of the vendored library (discover/finder.go) is written out, because the
  queue of enriched events that Beyla passes in is sent to and read inside it. Of the library's
  application (appolly/instrumenter.go) only what touches Beyla's queues appears: whether its
  exporters subscribe is a parameter.
\<close>

subsection \<open>Nodes\<close>

text \<open>The queues, by the names they are made with, and the channel of tracers.\<close>

datatype pipe_queue =
    ProcessEventsQueue | EnrichedProcessEventsQueue | SurveyFilteredEventsQueue | SurveyExecutablesQueue
  | SurveyExecutableTypesQueue | SurveyEventsQueue | TracesInputQueue | TracerEventsQueue
  | ProcessEventsInputQueue | ProcessEventsHostDecoratedQueue | ProcessEventsKubeDecoratedQueue | ProcessEventsDockerDecoratedQueue
  | OverriddenAppExportQueue | ExternalTracesQueue | ProcessCollectStatusQueue
  | KubeEnrichedEventsQueue | LanguageEnrichedEventsQueue | CriteriaFilteredEventsQueue | ExecutableTypesQueue
  | StoredExecutableTypesQueue

record pipe_node =
  pn_id :: string
  pn_reads :: "pipe_queue list"
  pn_sends :: "pipe_queue list"

abbreviation node :: "string \<Rightarrow> pipe_queue list \<Rightarrow> pipe_queue list \<Rightarrow> pipe_node" where
  "node i r s \<equiv> \<lparr>pn_id = i, pn_reads = r, pn_sends = s\<rparr>"

definition reads :: "pipe_node list \<Rightarrow> pipe_queue set" where
  "reads ns = (\<Union>n\<in>set ns. set (pn_reads n))"

definition sends :: "pipe_node list \<Rightarrow> pipe_queue set" where
  "sends ns = (\<Union>n\<in>set ns. set (pn_sends n))"

lemma reads_simps [simp]:
  "reads [] = {}" "reads (n # ns) = set (pn_reads n) \<union> reads ns" "reads (ns @ ms) = reads ns \<union> reads ms"
  by (auto simp: reads_def)

lemma sends_simps [simp]:
  "sends [] = {}" "sends (n # ns) = set (pn_sends n) \<union> sends ns" "sends (ns @ ms) = sends ns \<union> sends ms"
  by (auto simp: sends_def)

subsection \<open>The process finder\<close>

text \<open>\<open>connectSurveySubPipeline\<close>.\<close>

definition survey_nodes :: "beyla_config \<Rightarrow> pipe_node list" where
  "survey_nodes c =
     (if \<not> survey_enabled (c_discovery c) then []
      else [node ''SurveyCriteriaMatcherProvider'' [EnrichedProcessEventsQueue] [SurveyFilteredEventsQueue],
            node ''SurveyExecTyperProvider'' [SurveyFilteredEventsQueue] [SurveyExecutablesQueue],
            node ''SurveyContainerStoreUpdaterProvider'' [SurveyExecutablesQueue] [SurveyExecutableTypesQueue],
            node ''SurveyEventGenerator'' [SurveyExecutableTypesQueue] [SurveyEventsQueue],
            node ''SurveyInfoMetrics'' (if metrics_endpoint_enabled (c_metrics c) then [SurveyEventsQueue] else []) [],
            node ''SurveyPrometheusEndpoint'' (if prom_endpoint_enabled (c_prom c) then [SurveyEventsQueue] else []) []])"

text \<open>\<open>startSuveyPipeline\<close>: it returns no channel of tracers.\<close>

definition survey_only_pipeline :: "beyla_config \<Rightarrow> pipe_node list" where
  "survey_only_pipeline c =
     [node ''ProcessWatcher'' [] [ProcessEventsQueue],
      node ''WatcherKubeEnricher'' [ProcessEventsQueue] [EnrichedProcessEventsQueue]] @ survey_nodes c"

text \<open>
  The finder of the library: its Docker decorator sends the enriched events and its language
  decorator reads them; the attacher sends a span for every found process and, on the queue
  whose channel is returned, the tracers. Beyla gives it no selector of PIDs, so that the
  dynamic matcher does not run.
\<close>

definition obi_finder_nodes :: "pipe_node list" where
  "obi_finder_nodes =
     [node ''ProcessWatcher'' [] [ProcessEventsQueue],
      node ''WatcherKubeEnricher'' [ProcessEventsQueue] [KubeEnrichedEventsQueue],
      node ''DockerDiscoveryDecoratorProvider'' [KubeEnrichedEventsQueue] [EnrichedProcessEventsQueue],
      node ''LanguageDecoratorProvider'' [EnrichedProcessEventsQueue] [LanguageEnrichedEventsQueue],
      node ''CriteriaMatcher'' [LanguageEnrichedEventsQueue] [CriteriaFilteredEventsQueue],
      node ''ExecTyper'' [CriteriaFilteredEventsQueue] [ExecutableTypesQueue],
      node ''ContainerStoreUpdater'' [ExecutableTypesQueue] [StoredExecutableTypesQueue],
      node ''traceAttacher'' [StoredExecutableTypesQueue] [TracerEventsQueue, TracesInputQueue]]"

text \<open>\<open>startMixedPipeline\<close>.\<close>

definition mixed_pipeline :: "beyla_config \<Rightarrow> pipe_node list" where
  "mixed_pipeline c = survey_nodes c @ obi_finder_nodes"

text \<open>\<open>Start\<close>.\<close>

definition finder_nodes :: "beyla_config \<Rightarrow> pipe_node list" where
  "finder_nodes c = (case finder_start c of MixedPipeline \<Rightarrow> mixed_pipeline c | SurveyPipeline \<Rightarrow> survey_only_pipeline c)"

subsection \<open>Process events and spans\<close>

text \<open>
  \<open>FindAndInstrument\<close>: the event loop runs when the finder returned a channel. It sends the
  process events, and the tracers that it starts send their spans.
\<close>

definition event_loop_nodes :: "beyla_config \<Rightarrow> pipe_node list" where
  "event_loop_nodes c =
     (case finder_start c of
        MixedPipeline \<Rightarrow> [node ''instrumentedEventLoop'' [TracerEventsQueue] [ProcessEventsInputQueue, TracesInputQueue]]
      | SurveyPipeline \<Rightarrow> [])"

text \<open>\<open>New\<close>: the nodes that annotate process events.\<close>

definition event_nodes :: "pipe_node list" where
  "event_nodes =
     [node ''HostProcessEventDecorator'' [ProcessEventsInputQueue] [ProcessEventsHostDecoratedQueue],
      node ''KubeProcessEventDecorator'' [ProcessEventsHostDecoratedQueue] [ProcessEventsKubeDecoratedQueue],
      node ''DockerProcessEventDecorator'' [ProcessEventsKubeDecoratedQueue] [ProcessEventsDockerDecoratedQueue]]"

text \<open>\<open>clusterConnectorsSubpipeline\<close>, with the conditions of \<open>connection_sinks\<close>.\<close>

definition connection_nodes :: "(string \<Rightarrow> string + url) \<Rightarrow> bool option \<Rightarrow> bool \<Rightarrow> beyla_config \<Rightarrow> pipe_node list" where
  "connection_nodes parse kube store_ok c =
     (if ''inter_cluster'' \<notin> set (c_topology c) then []
      else if (case kube of None \<Rightarrow> True | Some enabled \<Rightarrow> \<not> enabled) then []
      else if \<not> store_ok then []
      else [node ''SelectExternal'' [OverriddenAppExportQueue] [ExternalTracesQueue],
            node ''ConnectionSpansReceiver'' (if c_consumers c > 0 then [ExternalTracesQueue] else []) [],
            node ''ConnectionSpansExport'' (if section_enabled parse (c_traces c) then [ExternalTracesQueue] else []) []])"

text \<open>\<open>ProcessMetricsSwarmInstancer\<close>.\<close>

definition process_nodes :: "beyla_config \<Rightarrow> pipe_node list" where
  "process_nodes c =
     (if \<not> process_pipe_enabled c then []
      else [node ''Collector'' [OverriddenAppExportQueue] [ProcessCollectStatusQueue],
            node ''ProcMetricsExporter'' (if OtelProcess \<in> set (process_exporters c) then [ProcessCollectStatusQueue] else []) [],
            node ''ProcPrometheusEndpoint'' (if PromProcess \<in> set (process_exporters c) then [ProcessCollectStatusQueue] else []) []])"

text \<open>
  The application of the library (\<open>appolly.Build\<close>), with what its providers decide:
  \<open>oe_spans\<close> when one of its exporters or its printer subscribes to the exported spans,
  \<open>oe_events\<close> when one of its metrics exporters runs, which then subscribes to process events.
\<close>

record obi_exports =
  oe_spans :: bool
  oe_events :: bool

definition obi_application_nodes :: "obi_exports \<Rightarrow> pipe_node list" where
  "obi_application_nodes ex =
     [node ''OBIApplication'' [TracesInputQueue] [OverriddenAppExportQueue],
      node ''OBIExporters'' (if oe_spans ex then [OverriddenAppExportQueue] else []) [],
      node ''OBIMetricsExporters'' (if oe_events ex then [ProcessEventsDockerDecoratedQueue] else []) []]"

text \<open>\<open>Build\<close>.\<close>

definition build_nodes :: "obi_exports \<Rightarrow> (string \<Rightarrow> string + url) \<Rightarrow> bool option \<Rightarrow> bool \<Rightarrow> beyla_config \<Rightarrow> pipe_node list" where
  "build_nodes ex parse kube store_ok c =
     obi_application_nodes ex @
     [node ''TracesReceiver'' (if c_consumers c > 0 then [OverriddenAppExportQueue] else []) []] @
     connection_nodes parse kube store_ok c @ process_nodes c"

definition app_nodes :: "obi_exports \<Rightarrow> (string \<Rightarrow> string + url) \<Rightarrow> bool option \<Rightarrow> bool \<Rightarrow> beyla_config \<Rightarrow> pipe_node list" where
  "app_nodes ex parse kube store_ok c =
     finder_nodes c @ event_loop_nodes c @ event_nodes @ build_nodes ex parse kube store_ok c"

subsection \<open>Graphs of nodes\<close>

text \<open>A rank that grows along every node, so there is no cycle.\<close>

primrec queue_rank :: "pipe_queue \<Rightarrow> nat" where
  "queue_rank ProcessEventsQueue = 0"
| "queue_rank KubeEnrichedEventsQueue = 1"
| "queue_rank EnrichedProcessEventsQueue = 2"
| "queue_rank SurveyFilteredEventsQueue = 3"
| "queue_rank SurveyExecutablesQueue = 4"
| "queue_rank SurveyExecutableTypesQueue = 5"
| "queue_rank SurveyEventsQueue = 6"
| "queue_rank LanguageEnrichedEventsQueue = 3"
| "queue_rank CriteriaFilteredEventsQueue = 4"
| "queue_rank ExecutableTypesQueue = 5"
| "queue_rank StoredExecutableTypesQueue = 6"
| "queue_rank TracerEventsQueue = 7"
| "queue_rank TracesInputQueue = 8"
| "queue_rank ProcessEventsInputQueue = 8"
| "queue_rank ProcessEventsHostDecoratedQueue = 9"
| "queue_rank ProcessEventsKubeDecoratedQueue = 10"
| "queue_rank ProcessEventsDockerDecoratedQueue = 11"
| "queue_rank OverriddenAppExportQueue = 12"
| "queue_rank ExternalTracesQueue = 13"
| "queue_rank ProcessCollectStatusQueue = 14"

definition forward :: "pipe_node list \<Rightarrow> bool" where
  "forward ns \<longleftrightarrow> (\<forall>n\<in>set ns. \<forall>q\<in>set (pn_reads n). \<forall>p\<in>set (pn_sends n). queue_rank q < queue_rank p)"

lemma forward_simps [simp]:
  "forward []" "forward (ns @ ms) \<longleftrightarrow> forward ns \<and> forward ms"
  "forward (n # ns) \<longleftrightarrow> (\<forall>q\<in>set (pn_reads n). \<forall>p\<in>set (pn_sends n). queue_rank q < queue_rank p) \<and> forward ns"
  by (auto simp: forward_def)

text \<open>A message that a node sends can come back to it only along a cycle of queues.\<close>

definition passes_on :: "pipe_node list \<Rightarrow> (pipe_queue \<times> pipe_queue) set" where
  "passes_on ns = {(q, p). \<exists>n\<in>set ns. q \<in> set (pn_reads n) \<and> p \<in> set (pn_sends n)}"

lemma forward_acyclic: "forward ns \<Longrightarrow> acyclic (passes_on ns)"
proof (rule acyclicI, rule allI)
  fix q assume f: "forward ns"
  have "(q, p) \<in> (passes_on ns)\<^sup>+ \<Longrightarrow> queue_rank q < queue_rank p" for q p
    by (induction rule: trancl_induct) (use f in \<open>fastforce simp: passes_on_def forward_def\<close>)+
  then show "(q, q) \<notin> (passes_on ns)\<^sup>+" by blast
qed

lemmas node_defs = survey_nodes_def survey_only_pipeline_def mixed_pipeline_def event_loop_nodes_def event_nodes_def
  connection_nodes_def process_nodes_def build_nodes_def obi_finder_nodes_def obi_application_nodes_def

lemma app_forward: "forward (app_nodes ex parse kube store_ok c)"
  by (simp add: app_nodes_def finder_nodes_def node_defs split: finder_pipeline.split option.split)

subsection \<open>What is read and what is sent\<close>

lemma some_process_exporter:
  "process_pipe_enabled c \<Longrightarrow> OtelProcess \<in> set (process_exporters c) \<or> PromProcess \<in> set (process_exporters c)"
  unfolding process_pipe_iff_exporter by (metis (full_types) list.set_intros(1) neq_Nil_conv process_exporter.exhaust)

lemma process_queues:
  "reads (process_nodes c) = (if process_pipe_enabled c then {OverriddenAppExportQueue, ProcessCollectStatusQueue} else {})"
  "sends (process_nodes c) = (if process_pipe_enabled c then {ProcessCollectStatusQueue} else {})"
  using some_process_exporter [of c] by (auto simp: process_nodes_def)

lemma connection_queues:
  "sends (connection_nodes parse kube store_ok c) =
     (if connection_nodes parse kube store_ok c = [] then {} else {ExternalTracesQueue})"
  "reads (connection_nodes parse kube store_ok c) =
     (if connection_nodes parse kube store_ok c = [] then {} else {OverriddenAppExportQueue}) \<union>
     (if connection_sinks parse kube store_ok c = [] then {} else {ExternalTracesQueue})"
  by (auto simp: connection_nodes_def connection_sinks_def split: option.split)

lemma no_sinks: "connection_nodes parse kube store_ok c = [] \<Longrightarrow> connection_sinks parse kube store_ok c = []"
  by (simp add: connection_nodes_def connection_sinks_def split: if_splits option.splits)

lemma survey_queues:
  "sends (survey_nodes c) =
     (if survey_enabled (c_discovery c) then {SurveyFilteredEventsQueue, SurveyExecutablesQueue, SurveyExecutableTypesQueue, SurveyEventsQueue} else {})"
  "reads (survey_nodes c) =
     (if survey_enabled (c_discovery c)
      then {EnrichedProcessEventsQueue, SurveyFilteredEventsQueue, SurveyExecutablesQueue, SurveyExecutableTypesQueue} \<union>
        (if metrics_endpoint_enabled (c_metrics c) \<or> prom_endpoint_enabled (c_prom c) then {SurveyEventsQueue} else {})
      else {})"
  by (auto simp: survey_nodes_def)

lemma finder_queues:
  "sends (finder_nodes c) = sends (survey_nodes c) \<union> {ProcessEventsQueue, EnrichedProcessEventsQueue} \<union>
     (case finder_start c of
        MixedPipeline \<Rightarrow> {KubeEnrichedEventsQueue, LanguageEnrichedEventsQueue, CriteriaFilteredEventsQueue, ExecutableTypesQueue,
          StoredExecutableTypesQueue, TracerEventsQueue, TracesInputQueue}
      | SurveyPipeline \<Rightarrow> {})"
  "reads (finder_nodes c) = reads (survey_nodes c) \<union> {ProcessEventsQueue} \<union>
     (case finder_start c of
        MixedPipeline \<Rightarrow> {KubeEnrichedEventsQueue, EnrichedProcessEventsQueue, LanguageEnrichedEventsQueue,
          CriteriaFilteredEventsQueue, ExecutableTypesQueue, StoredExecutableTypesQueue}
      | SurveyPipeline \<Rightarrow> {})"
  by (auto simp: finder_nodes_def mixed_pipeline_def obi_finder_nodes_def survey_only_pipeline_def split: finder_pipeline.split)

text \<open>The nodes that send to a queue.\<close>

definition senders :: "pipe_queue \<Rightarrow> pipe_node list \<Rightarrow> string list" where
  "senders q ns = map pn_id (filter (\<lambda>n. q \<in> set (pn_sends n)) ns)"

lemma senders_append [simp]: "senders q (ns @ ms) = senders q ns @ senders q ms"
  by (simp add: senders_def)

lemma one_sender:
  "distinct (concat (map (\<lambda>n. removeAll p (pn_sends n)) ns)) \<Longrightarrow> q \<noteq> p \<Longrightarrow> length (senders q ns) \<le> 1"
proof (induction ns)
  case (Cons n ns)
  show ?case
  proof (cases "q \<in> set (pn_sends n)")
    case True
    with Cons.prems have "q \<notin> set (pn_sends m)" if "m \<in> set ns" for m
      using that by fastforce
    then have "filter (\<lambda>m. q \<in> set (pn_sends m)) ns = []" by (simp add: filter_empty_conv)
    with True show ?thesis by (simp add: senders_def)
  next
    case False
    with Cons show ?thesis by (simp add: senders_def)
  qed
qed (simp add: senders_def)

lemma app_senders: "distinct (concat (map (\<lambda>n. removeAll TracesInputQueue (pn_sends n)) (app_nodes ex parse kube store_ok c)))"
  by (simp add: app_nodes_def finder_nodes_def node_defs split: finder_pipeline.split option.split)

lemma span_senders:
  "senders TracesInputQueue (app_nodes ex parse kube store_ok c) =
     (if finder_start c = MixedPipeline then [''traceAttacher'', ''instrumentedEventLoop''] else [])"
  by (simp add: senders_def app_nodes_def finder_nodes_def node_defs split: finder_pipeline.split option.split)

text \<open>
  C37: the wiring of the application, whichever exporters of the library run. No message can
  come back to a node, so no node waits for itself. Each queue has one sender, except for the
  queue of incoming spans: there the attacher of the library announces processes and the
  tracers of the event loop send theirs. With instrumentation every queue that is read is
  sent to; in the survey mode the annotation of process events and the processing of spans run
  without any input. What is sent reaches a node, except for the enriched events when only
  a survey could read them and there is none, the survey events without a metrics
  endpoint, the annotated process events when no metrics exporter of the library runs, the
  spans when nobody wants them, and the external spans when both of their sinks are off.
\<close>

theorem pipelines_wired:
  "let ns = app_nodes ex parse kube store_ok c in
    acyclic (passes_on ns) \<and>
    (\<forall>q. q = TracesInputQueue \<or> length (senders q ns) \<le> 1) \<and>
    senders TracesInputQueue ns =
      (if finder_start c = MixedPipeline then [''traceAttacher'', ''instrumentedEventLoop''] else []) \<and>
    reads ns - sends ns = (if finder_start c = SurveyPipeline then {TracesInputQueue, ProcessEventsInputQueue} else {}) \<and>
    sends ns - reads ns =
      (if survey_enabled (c_discovery c)
       then (if metrics_endpoint_enabled (c_metrics c) \<or> prom_endpoint_enabled (c_prom c) then {} else {SurveyEventsQueue})
       else (if finder_start c = SurveyPipeline then {EnrichedProcessEventsQueue} else {})) \<union>
      (if oe_events ex then {} else {ProcessEventsDockerDecoratedQueue}) \<union>
      (if \<not> oe_spans ex \<and> c_consumers c = 0 \<and> \<not> process_pipe_enabled c \<and> connection_nodes parse kube store_ok c = []
       then {OverriddenAppExportQueue} else {}) \<union>
      (if connection_nodes parse kube store_ok c \<noteq> [] \<and> connection_sinks parse kube store_ok c = []
       then {ExternalTracesQueue} else {})"
proof -
  let ?ns = "app_nodes ex parse kube store_ok c"
  have reads: "reads ?ns = reads (finder_nodes c) \<union> reads (event_loop_nodes c) \<union>
      {ProcessEventsInputQueue, ProcessEventsHostDecoratedQueue, ProcessEventsKubeDecoratedQueue, TracesInputQueue} \<union>
      (if oe_events ex then {ProcessEventsDockerDecoratedQueue} else {}) \<union>
      (if oe_spans ex \<or> c_consumers c > 0 then {OverriddenAppExportQueue} else {}) \<union>
      reads (connection_nodes parse kube store_ok c) \<union> reads (process_nodes c)"
    by (auto simp: app_nodes_def event_nodes_def build_nodes_def obi_application_nodes_def)
  have sends: "sends ?ns = sends (finder_nodes c) \<union> sends (event_loop_nodes c) \<union>
      {ProcessEventsHostDecoratedQueue, ProcessEventsKubeDecoratedQueue, ProcessEventsDockerDecoratedQueue,
       OverriddenAppExportQueue} \<union> sends (connection_nodes parse kube store_ok c) \<union> sends (process_nodes c)"
    by (auto simp: app_nodes_def event_nodes_def build_nodes_def obi_application_nodes_def)
  have loop: "reads (event_loop_nodes c) = (case finder_start c of MixedPipeline \<Rightarrow> {TracerEventsQueue} | SurveyPipeline \<Rightarrow> {})"
    "sends (event_loop_nodes c) =
      (case finder_start c of MixedPipeline \<Rightarrow> {ProcessEventsInputQueue, TracesInputQueue} | SurveyPipeline \<Rightarrow> {})"
    by (simp_all add: event_loop_nodes_def split: finder_pipeline.split)
  have "\<forall>q. q = TracesInputQueue \<or> length (senders q ?ns) \<le> 1"
    using one_sender [OF app_senders] by blast
  then show ?thesis
    unfolding Let_def reads sends loop finder_queues survey_queues process_queues connection_queues
    using span_senders [of ex parse kube store_ok c] forward_acyclic [OF app_forward] no_sinks [of parse kube store_ok c]
    by (cases "finder_start c") auto
qed

end
