(* ===== verification/Test_Collector.thy ===== *)
theory Test_Collector
  imports Prelude "HOL-Library.Word"
begin

text \<open>
  The OTLP collector that the tests of the exporters run against
  (pkg/test/collector/collector.go): requests with metrics and traces become records in two
  channels of a hundred entries. The decoder of protobuf and the text of an attribute value
  are parameters, as is the type of floating-point numbers.
\<close>

subsection \<open>Requests\<close>

type_synonym 'v attributes = "(string \<times> 'v) list"

datatype span_kind = ServerKind | InternalKind | ClientKind | OtherKind

record 'v otlp_span_data =
  od_kind :: span_kind
  od_name :: string
  od_attributes :: "'v attributes"
  od_span_id :: string
  od_parent :: string

text \<open>The spans of a resource, by scope.\<close>

type_synonym 'v trace_request = "('v attributes \<times> 'v otlp_span_data list list) list"

record ('v, 'f) number_point =
  np_double :: 'f
  np_int :: "64 word"
  np_attributes :: "'v attributes"

record ('v, 'f) histogram_point =
  hp_sum :: "'f option"
  hp_count :: "64 word"
  hp_attributes :: "'v attributes"

datatype ('v, 'f) metric_points =
    SumPoints "('v, 'f) number_point list"
  | HistogramPoints "('v, 'f) histogram_point list"
  | GaugePoints "('v, 'f) number_point list"
  | OtherPoints

record ('v, 'f) otlp_metric =
  om_name :: string
  om_unit :: string
  om_points :: "('v, 'f) metric_points"

type_synonym ('v, 'f) metric_request = "('v attributes \<times> ('v, 'f) otlp_metric list list) list"

subsection \<open>Records\<close>

datatype metric_type = SumType | HistogramType | GaugeType

record 'f metric_record =
  mr_resource :: strmap
  mr_attributes :: strmap
  mr_name :: string
  mr_unit :: string
  mr_type :: metric_type
  mr_int :: int
  mr_float :: 'f
  mr_count :: int

record trace_record =
  tr_resource :: strmap
  tr_attributes :: strmap
  tr_name :: string
  tr_kind :: span_kind

definition attribute_map :: "('v \<Rightarrow> string) \<Rightarrow> 'v attributes \<Rightarrow> strmap" where
  "attribute_map as_string kvs = fold (\<lambda>(k, v) m. mput m k (as_string v)) kvs []"

text \<open>\<open>traceEvent\<close>: the records of one request, in the order in which they are sent.\<close>

definition span_records :: "('v \<Rightarrow> string) \<Rightarrow> 'v attributes \<Rightarrow> 'v otlp_span_data \<Rightarrow> trace_record list" where
  "span_records as_string resource s =
     (if od_kind s \<in> {ServerKind, InternalKind, ClientKind}
      then [\<lparr>tr_resource = mdel (attribute_map as_string resource) ''service.instance.id'',
             tr_attributes = mput (mput (attribute_map as_string (od_attributes s)) ''span_id'' (od_span_id s))
               ''parent_span_id'' (od_parent s),
             tr_name = od_name s, tr_kind = od_kind s\<rparr>]
      else [])"

definition trace_event :: "('v \<Rightarrow> string) \<Rightarrow> 'v trace_request \<Rightarrow> trace_record list" where
  "trace_event as_string req =
     concat (map (\<lambda>(resource, scopes). concat (map (\<lambda>spans. concat (map (span_records as_string resource) spans)) scopes)) req)"

text \<open>\<open>metricEvent\<close>; \<open>zero\<close> is the zero value of a float, the count is converted to a signed integer.\<close>

definition number_record ::
  "('v \<Rightarrow> string) \<Rightarrow> strmap \<Rightarrow> ('v, 'f) otlp_metric \<Rightarrow> metric_type \<Rightarrow> ('v, 'f) number_point \<Rightarrow> 'f metric_record" where
  "number_record as_string resource m t p =
     \<lparr>mr_resource = resource, mr_attributes = attribute_map as_string (np_attributes p), mr_name = om_name m,
      mr_unit = om_unit m, mr_type = t, mr_int = sint (np_int p), mr_float = np_double p, mr_count = 0\<rparr>"

definition histogram_record ::
  "('v \<Rightarrow> string) \<Rightarrow> strmap \<Rightarrow> ('v, 'f) otlp_metric \<Rightarrow> ('v, 'f) histogram_point \<Rightarrow> 'f metric_record list" where
  "histogram_record as_string resource m p =
     (case hp_sum p of
        None \<Rightarrow> []
      | Some x \<Rightarrow>
          [\<lparr>mr_resource = resource, mr_attributes = attribute_map as_string (hp_attributes p), mr_name = om_name m,
            mr_unit = om_unit m, mr_type = HistogramType, mr_int = 0, mr_float = x, mr_count = sint (hp_count p)\<rparr>])"

definition metric_records :: "('v \<Rightarrow> string) \<Rightarrow> strmap \<Rightarrow> ('v, 'f) otlp_metric \<Rightarrow> 'f metric_record list" where
  "metric_records as_string resource m =
     (case om_points m of
        SumPoints ps \<Rightarrow> map (number_record as_string resource m SumType) ps
      | HistogramPoints ps \<Rightarrow> concat (map (histogram_record as_string resource m) ps)
      | GaugePoints ps \<Rightarrow> map (number_record as_string resource m GaugeType) ps
      | OtherPoints \<Rightarrow> [])"

definition metric_event :: "('v \<Rightarrow> string) \<Rightarrow> ('v, 'f) metric_request \<Rightarrow> 'f metric_record list" where
  "metric_event as_string req =
     concat (map (\<lambda>(resource, scopes).
       concat (map (\<lambda>ms. concat (map (metric_records as_string (attribute_map as_string resource)) ms)) scopes)) req)"

subsection \<open>The server\<close>

text \<open>
  A channel holds a hundred records; a handler that has more to send waits with the rest until
  a test reads. \<open>Reset\<close> puts an empty channel in place.
\<close>

definition channel_capacity :: nat where
  "channel_capacity = 100"

definition send_all :: "'a list \<Rightarrow> 'a list \<Rightarrow> 'a list \<times> 'a list" where
  "send_all buffer xs =
     (let room = channel_capacity - length buffer in (buffer @ take room xs, drop room xs))"

record 'f test_collector =
  tc_records :: "'f metric_record list"
  tc_traces :: "trace_record list"

definition start_collector :: "'f test_collector" where
  "start_collector = \<lparr>tc_records = [], tc_traces = []\<rparr>"

definition reset_records :: "'f test_collector \<Rightarrow> 'f test_collector" where
  "reset_records c = c\<lparr>tc_records := []\<rparr>"

definition reset_trace_records :: "'f test_collector \<Rightarrow> 'f test_collector" where
  "reset_trace_records c = c\<lparr>tc_traces := []\<rparr>"

datatype http_status = StatusOk | StatusBadRequest | StatusNotFound | StatusInternalError

text \<open>
  One request: the status, the collector, and what the handler still waits to send. The body is
  an error of the transport or a text.
\<close>

definition serve_request ::
  "('v \<Rightarrow> string) \<Rightarrow> (string \<Rightarrow> ('v, 'f) metric_request option) \<Rightarrow> (string \<Rightarrow> 'v trace_request option) \<Rightarrow>
   string \<Rightarrow> string option \<Rightarrow> 'f test_collector \<Rightarrow> http_status \<times> 'f test_collector \<times> 'f metric_record list \<times> trace_record list" where
  "serve_request as_string metrics traces path body c =
     (case body of
        None \<Rightarrow> (StatusInternalError, c, [], [])
      | Some b \<Rightarrow>
          if path = ''/v1/metrics''
          then (case metrics b of
                  None \<Rightarrow> (StatusBadRequest, c, [], [])
                | Some req \<Rightarrow>
                    (let (buf, rest) = send_all (tc_records c) (metric_event as_string req)
                     in (StatusOk, c\<lparr>tc_records := buf\<rparr>, rest, [])))
          else if path = ''/v1/traces''
          then (case traces b of
                  None \<Rightarrow> (StatusBadRequest, c, [], [])
                | Some req \<Rightarrow>
                    (let (buf, rest) = send_all (tc_traces c) (trace_event as_string req)
                     in (StatusOk, c\<lparr>tc_traces := buf\<rparr>, [], rest)))
          else (StatusNotFound, c, [], []))"

text \<open>
  \<open>waitForServerAvailability\<close>: the tries with the time they end at, in nanoseconds from the
  start; \<open>None\<close> is the panic, and a list that is used up stands for more tries.
\<close>

fun wait_available :: "(http_status option \<times> int) list \<Rightarrow> bool option option" where
  "wait_available [] = None"
| "wait_available ((answer, t) # ts) =
     (if answer = Some StatusNotFound then Some (Some True)
      else if t > 5 * 10 ^ 9 then Some None else wait_available ts)"

subsection \<open>What the tests read\<close>

lemma mget_attribute_map:
  "mget (attribute_map f kvs) k = map_option f (map_of (rev kvs) k)"
proof -
  have "mget (fold (\<lambda>(k, v) m. mput m k (f v)) kvs m) k =
      (case map_of (rev kvs) k of Some v \<Rightarrow> Some (f v) | None \<Rightarrow> mget m k)" for m
    by (induction kvs arbitrary: m) (auto simp: map_add_def split: option.split)
  then show ?thesis by (simp add: attribute_map_def split: option.split)
qed

text \<open>The identities of a span win over attributes with their names; the instance is removed.\<close>

lemma span_record_attributes:
  assumes "r \<in> set (span_records f resource s)"
  shows "mget (tr_attributes r) ''span_id'' = Some (od_span_id s)"
    and "mget (tr_attributes r) ''parent_span_id'' = Some (od_parent s)"
    and "mget (tr_resource r) ''service.instance.id'' = None"
    and "k \<notin> {''span_id'', ''parent_span_id''} \<Longrightarrow> mget (tr_attributes r) k = map_option f (map_of (rev (od_attributes s)) k)"
  using assms by (auto simp: span_records_def mget_attribute_map split: if_splits)

text \<open>One record for each span of the three kinds, and for each point but a histogram without a sum.\<close>

lemma trace_event_length:
  "length (trace_event f req) =
     length (filter (\<lambda>s. od_kind s \<noteq> OtherKind) (concat (concat (map snd req))))"
proof -
  have one: "length (span_records f r s) = (if od_kind s \<noteq> OtherKind then 1 else 0)" for r s
    by (cases "od_kind s") (simp_all add: span_records_def)
  have spans: "length (concat (map (span_records f r) ss)) = length (filter (\<lambda>s. od_kind s \<noteq> OtherKind) ss)" for r ss
    by (induction ss) (simp_all add: one)
  have scopes: "length (concat (map (\<lambda>ss. concat (map (span_records f r) ss)) sss)) =
      length (filter (\<lambda>s. od_kind s \<noteq> OtherKind) (concat sss))" for r sss
    by (induction sss) (simp_all add: spans)
  show ?thesis
    by (induction req) (auto simp: trace_event_def scopes)
qed

lemma metric_records_length:
  "length (metric_records f r m) =
     (case om_points m of
        SumPoints ps \<Rightarrow> length ps
      | HistogramPoints ps \<Rightarrow> length (filter (\<lambda>p. hp_sum p \<noteq> None) ps)
      | GaugePoints ps \<Rightarrow> length ps
      | OtherPoints \<Rightarrow> 0)"
proof -
  have "length (concat (map (histogram_record f r m) ps)) = length (filter (\<lambda>p. hp_sum p \<noteq> None) ps)" for ps
    by (induction ps) (auto simp: histogram_record_def)
  then show ?thesis by (simp add: metric_records_def split: metric_points.split)
qed

text \<open>No channel holds more than it can, and nothing is lost or reordered.\<close>

lemma send_all_parts:
  "send_all buffer xs = (kept, rest) \<Longrightarrow> kept @ rest = buffer @ xs \<and>
     (length buffer \<le> channel_capacity \<longrightarrow> length kept \<le> channel_capacity) \<and>
     (rest \<noteq> [] \<longrightarrow> channel_capacity \<le> length kept)"
  by (auto simp: send_all_def Let_def min_def)

text \<open>A histogram count above the range of a signed integer is read as a negative number.\<close>

lemma histogram_count_wraps:
  "map mr_count (histogram_record f r m \<lparr>hp_sum = Some x, hp_count = 0xFFFFFFFFFFFFFFFF, hp_attributes = []\<rparr>) = [-1]"
  by (simp add: histogram_record_def)

end
