(* ===== verification/Replace_Function.thy ===== *)
theory Replace_Function
  imports Prelude
begin

text \<open>
  The script that puts a new body in place of a Go function in a source file
  (scripts/replace-function.go). Reading and writing the file are an argument and a result.
\<close>

subsection \<open>Finding the function\<close>

text \<open>
  The expression \<open>(?m)^func NAME\(\<close>: the first line that starts with this text. The flag says
  whether a line starts here.
\<close>

fun find_line :: "string \<Rightarrow> bool \<Rightarrow> string \<Rightarrow> nat option" where
  "find_line p bol [] = None"
| "find_line p bol (c # s) =
     (if bol \<and> has_prefix (c # s) p then Some 0 else map_option Suc (find_line p (c = CHR 0x0A) s))"

definition func_pattern :: "string \<Rightarrow> string" where
  "func_pattern name = ''func '' @ name @ ''(''"

fun index_byte :: "char \<Rightarrow> string \<Rightarrow> nat option" where
  "index_byte b [] = None"
| "index_byte b (c # s) = (if c = b then Some 0 else map_option Suc (index_byte b s))"

text \<open>The loop that counts braces: how many bytes it reads up to the brace that closes.\<close>

fun closing_brace :: "nat \<Rightarrow> string \<Rightarrow> nat option" where
  "closing_brace n [] = None"
| "closing_brace n (c # s) =
     (if c = CHR ''{'' then map_option Suc (closing_brace (n + 1) s)
      else if c = CHR ''}'' then (if n - 1 = 0 then Some 1 else map_option Suc (closing_brace (n - 1) s))
      else map_option Suc (closing_brace n s))"

datatype find_failure = FunctionNotFound string | NoOpeningBrace string | NoClosingBrace string

definition find_function :: "string \<Rightarrow> string \<Rightarrow> find_failure + (nat \<times> nat)" where
  "find_function content name =
     (case find_line (func_pattern name) True content of
        None \<Rightarrow> Inl (FunctionNotFound name)
      | Some start \<Rightarrow>
          (let after = start + length (func_pattern name)
           in case index_byte (CHR ''{'') (drop after content) of
                None \<Rightarrow> Inl (NoOpeningBrace name)
              | Some i \<Rightarrow>
                  (let open_brace = after + i
                   in case closing_brace 1 (drop (open_brace + 1) content) of
                        None \<Rightarrow> Inl (NoClosingBrace name)
                      | Some k \<Rightarrow>
                          (let e = open_brace + 1 + k
                           in Inr (start, if e < length content \<and> content ! e = CHR 0x0A then e + 1 else e)))))"

definition replace_function :: "string \<Rightarrow> string \<Rightarrow> string \<Rightarrow> find_failure + string" where
  "replace_function content name new =
     and_then (find_function content name) (\<lambda>(start, e).
       Inr (take start content @ new @ (if e < length content then drop e content else [])))"

text \<open>\<open>replaceFunction\<close>: \<open>read\<close> and \<open>write\<close> are the answers of the file system; the result of a run is what it writes.\<close>

datatype script_failure = ReadFailed string | FindFailed find_failure | WriteFailed string

definition replace_in_file ::
  "(string \<Rightarrow> string + string) \<Rightarrow> (string \<Rightarrow> string \<Rightarrow> string option) \<Rightarrow> string \<Rightarrow> string \<Rightarrow> string \<Rightarrow>
   script_failure + string" where
  "replace_in_file read write path name new =
     (case read path of
        Inl e \<Rightarrow> Inl (ReadFailed e)
      | Inr content \<Rightarrow>
          (case replace_function content name new of
             Inl e \<Rightarrow> Inl (FindFailed e)
           | Inr out \<Rightarrow> (case write path out of Some e \<Rightarrow> Inl (WriteFailed e) | None \<Rightarrow> Inr out)))"

text \<open>\<open>main\<close>: the flags are parsed; every failure ends the script with status 1.\<close>

datatype script_end = BadUsage | NoNewFunction string | ScriptFailed script_failure | Replaced string

definition replace_main ::
  "(string \<Rightarrow> string + string) \<Rightarrow> (string \<Rightarrow> string \<Rightarrow> string option) \<Rightarrow> string \<Rightarrow> string \<Rightarrow> string \<Rightarrow> script_end" where
  "replace_main read write path name new_file =
     (if path = [] \<or> name = [] \<or> new_file = [] then BadUsage
      else case read new_file of
             Inl e \<Rightarrow> NoNewFunction e
           | Inr new \<Rightarrow>
               (case replace_in_file read write path name new of
                  Inl e \<Rightarrow> ScriptFailed e
                | Inr out \<Rightarrow> Replaced out))"

subsection \<open>What it finds\<close>

text \<open>The depth of the braces behind a text, \<open>None\<close> if one closes that was not open.\<close>

fun brace_depth :: "nat \<Rightarrow> string \<Rightarrow> nat option" where
  "brace_depth n [] = Some n"
| "brace_depth n (c # s) =
     (if c = CHR ''{'' then brace_depth (n + 1) s
      else if c = CHR ''}'' then (if n = 0 then None else brace_depth (n - 1) s)
      else brace_depth n s)"

lemma closing_brace_balanced:
  "brace_depth n body = Some 0 \<Longrightarrow> closing_brace (Suc n) (body @ CHR ''}'' # rest) = Some (length body + 1)"
proof (induction n body rule: brace_depth.induct)
  case (2 n c s)
  then show ?case by (cases n) (auto split: if_splits)
qed simp

lemma index_byte_append: "b \<notin> set s \<Longrightarrow> index_byte b (s @ b # t) = Some (length s)"
  by (induction s) auto

text \<open>No line of a text, with what follows it, starts with a pattern.\<close>

fun no_line :: "string \<Rightarrow> bool \<Rightarrow> string \<Rightarrow> string \<Rightarrow> bool" where
  "no_line p bol [] rest = True"
| "no_line p bol (c # s) rest \<longleftrightarrow> \<not> (bol \<and> has_prefix (c # s @ rest) p) \<and> no_line p (c = CHR 0x0A) s rest"

definition line_start :: "string \<Rightarrow> bool" where
  "line_start pre \<longleftrightarrow> pre = [] \<or> List.last pre = CHR 0x0A"

lemma find_line_append:
  "no_line p bol pre rest \<Longrightarrow> has_prefix rest p \<Longrightarrow> rest \<noteq> [] \<Longrightarrow> (if pre = [] then bol else List.last pre = CHR 0x0A) \<Longrightarrow>
   find_line p bol (pre @ rest) = Some (length pre)"
proof (induction p bol pre rest rule: no_line.induct)
  case (1 p bol rest)
  then show ?case by (cases rest) auto
next
  case (2 p bol c s rest)
  then show ?case by (cases s) auto
qed

definition function_text :: "string \<Rightarrow> string \<Rightarrow> string \<Rightarrow> string" where
  "function_text name sig body = func_pattern name @ sig @ ''{'' @ body @ ''}''"

definition drop_newline :: "string \<Rightarrow> string" where
  "drop_newline s = (case s of [] \<Rightarrow> [] | c # t \<Rightarrow> if c = CHR 0x0A then t else s)"

lemma find_function_text:
  assumes "line_start pre" "no_line (func_pattern name) True pre (function_text name sig body @ rest)"
    and "CHR ''{'' \<notin> set sig" "brace_depth 0 body = Some 0"
  shows "find_function (pre @ function_text name sig body @ rest) name =
    Inr (length pre, length pre + length (function_text name sig body) +
      (if rest \<noteq> [] \<and> hd rest = CHR 0x0A then 1 else 0))"
proof -
  let ?p = "func_pattern name" and ?c = "pre @ function_text name sig body @ rest"
  have start: "find_line ?p True ?c = Some (length pre)"
  proof (rule find_line_append [OF assms(2)])
    show "has_prefix (function_text name sig body @ rest) ?p"
      unfolding function_text_def append_assoc by (rule has_prefix_append)
  qed (use assms(1) in \<open>auto simp: line_start_def function_text_def func_pattern_def\<close>)
  have after: "drop (length pre + length ?p) ?c = sig @ CHR ''{'' # body @ CHR ''}'' # rest"
    by (simp add: function_text_def)
  have brace: "drop (length pre + length ?p + length sig + 1) ?c = body @ CHR ''}'' # rest"
    by (simp add: function_text_def)
  let ?e = "length pre + length (function_text name sig body)"
  have e: "length pre + length ?p + length sig + 1 + (length body + 1) = ?e"
    by (simp add: function_text_def)
  have newline: "?e < length ?c \<and> ?c ! ?e = CHR 0x0A \<longleftrightarrow> rest \<noteq> [] \<and> hd rest = CHR 0x0A"
    by (cases rest) (simp_all add: nth_append)
  show ?thesis
    unfolding find_function_def start option.case Let_def after index_byte_append [OF assms(3)] brace
      closing_brace_balanced [OF assms(4), unfolded One_nat_def [symmetric]] e newline by simp
qed

text \<open>
  The script replaces a function exactly, with the newline behind it, and keeps the text in
  front and behind, when the function starts a line that is the first to declare its name, its
  signature has no brace, and the braces of its body balance.
\<close>

lemma function_replaced:
  assumes "line_start pre" and "no_line (func_pattern name) True pre (function_text name sig body @ rest)"
    and "CHR ''{'' \<notin> set sig" and "brace_depth 0 body = Some 0"
  shows "replace_function (pre @ function_text name sig body @ rest) name new = Inr (pre @ new @ drop_newline rest)"
  using find_function_text [OF assms]
  by (cases rest) (auto simp: replace_function_def drop_newline_def)

lemma function_replaced_example:
  "replace_function (''a'' @ [CHR 0x0A] @ ''func f() { if b {} }'' @ [CHR 0x0A] @ ''var c'') ''f'' ''NEW '' =
     Inr (''a'' @ [CHR 0x0A] @ ''NEW var c'')"
proof -
  have "line_start (''a'' @ [CHR 0x0A])"
    "no_line (func_pattern ''f'') True (''a'' @ [CHR 0x0A]) (function_text ''f'' '') '' '' if b {} '' @ [CHR 0x0A] @ ''var c'')"
    "CHR ''{'' \<notin> set '') ''" "brace_depth 0 '' if b {} '' = Some 0"
    by code_simp+
  from function_replaced [OF this, of "''NEW ''"] show ?thesis
    by (simp add: function_text_def func_pattern_def drop_newline_def)
qed

text \<open>A brace in the signature ends the function too early.\<close>

lemma brace_in_signature:
  "replace_function ''func f(x interface{}) { g() }'' ''f'' ''NEW'' = Inr ''NEW) { g() }''"
  by code_simp

text \<open>A run writes a file only when it has found the function, and then only that file.\<close>

lemma script_replaces_function:
  assumes "line_start pre" and "no_line (func_pattern name) True pre (function_text name sig body @ rest)"
    and "CHR ''{'' \<notin> set sig" and "brace_depth 0 body = Some 0"
    and "name \<noteq> []" and "path \<noteq> []" and "new_file \<noteq> []"
    and "read path = Inr (pre @ function_text name sig body @ rest)" and "read new_file = Inr new"
  shows "replace_main read write path name new_file =
    (case write path (pre @ new @ drop_newline rest) of
       Some e \<Rightarrow> ScriptFailed (WriteFailed e)
     | None \<Rightarrow> Replaced (pre @ new @ drop_newline rest))"
  using assms(5-) function_replaced [OF assms(1-4)]
  by (simp add: replace_main_def replace_in_file_def split: option.split)

end
