(* ===== verification/Kafka_Copy.thy ===== *)
theory Kafka_Copy
  imports Prelude
begin

text \<open>
  The program that copies Kafka records in transactions (configs/offsets/sarama/inspect.go; the
  copy in configs/offsets/shopify differs in the imported path and in the order of group
  strategies only). It is compiled for the offsets of the library's structs; here its own logic is
  modelled: the pool of producers, one transaction for a record, and what happens on errors.

  The library is a parameter: the answers of its calls, which may change a state of its own.
  The calls that matter to a transaction are recorded in the order in which they are made, with
  the question whether they succeeded.
\<close>

subsection \<open>Start\<close>

datatype copy_usage = NoBrokers | NoTopics | NoDestination | NoGroup

definition copy_flags :: "string \<Rightarrow> string \<Rightarrow> string \<Rightarrow> string \<Rightarrow> copy_usage option" where
  "copy_flags brokers topics destination group_id =
     (if length brokers = 0 then Some NoBrokers
      else if length topics = 0 then Some NoTopics
      else if length destination = 0 then Some NoDestination
      else if length group_id = 0 then Some NoGroup
      else None)"

subsection \<open>The library and the state\<close>

datatype topic_partition = TopicPartition string int

record kafka_message =
  km_topic :: string
  km_partition :: int
  km_offset :: int
  km_key :: string
  km_value :: string

text \<open>The flags of \<open>TxnStatus\<close> that the program tests.\<close>

record txn_flags =
  tf_in_error :: bool
  tf_fatal :: bool
  tf_abortable :: bool

datatype call_kind = Begin | Produce string string string | AddMessage kafka_message | Commit | Abort | Close

datatype kafka_call = ProducerCall nat call_kind bool | ResetOffset kafka_message

record 'w kafka =
  k_new_producer :: "topic_partition \<Rightarrow> 'w \<Rightarrow> nat option \<times> 'w"
  k_txn_status :: "nat \<Rightarrow> 'w \<Rightarrow> txn_flags \<times> 'w"
  k_call :: "nat \<Rightarrow> call_kind \<Rightarrow> 'w \<Rightarrow> bool \<times> 'w"
  k_reset :: "kafka_message \<Rightarrow> 'w \<Rightarrow> 'w"

record 'w copier =
  cp_pool :: "(topic_partition, nat list) gomap"
  cp_world :: 'w
  cp_calls :: "kafka_call list"

definition txn_status :: "'w kafka \<Rightarrow> nat \<Rightarrow> 'w copier \<Rightarrow> txn_flags \<times> 'w copier" where
  "txn_status k p s = (let (f, w) = k_txn_status k p (cp_world s) in (f, s\<lparr>cp_world := w\<rparr>))"

definition producer_call :: "'w kafka \<Rightarrow> nat \<Rightarrow> call_kind \<Rightarrow> 'w copier \<Rightarrow> bool \<times> 'w copier" where
  "producer_call k p c s =
     (let (ok, w) = k_call k p c (cp_world s)
      in (ok, s\<lparr>cp_world := w, cp_calls := cp_calls s @ [ProducerCall p c ok]\<rparr>))"

definition reset_offset :: "'w kafka \<Rightarrow> kafka_message \<Rightarrow> 'w copier \<Rightarrow> 'w copier" where
  "reset_offset k m s = s\<lparr>cp_world := k_reset k m (cp_world s), cp_calls := cp_calls s @ [ResetOffset m]\<rparr>"

definition pooled :: "'w copier \<Rightarrow> topic_partition \<Rightarrow> nat list" where
  "pooled s tp = (case mget (cp_pool s) tp of None \<Rightarrow> [] | Some ps \<Rightarrow> ps)"

subsection \<open>The pool\<close>

text \<open>The loop that makes a producer: it goes on until the library has made one.\<close>

partial_function (option) make_producer :: "'w kafka \<Rightarrow> topic_partition \<Rightarrow> 'w copier \<Rightarrow> (nat \<times> 'w copier) option" where
  "make_producer k tp s =
     (let (made, w) = k_new_producer k tp (cp_world s)
      in case made of
           Some p \<Rightarrow> Some (p, s\<lparr>cp_world := w\<rparr>)
         | None \<Rightarrow> make_producer k tp (s\<lparr>cp_world := w\<rparr>))"

definition borrow :: "'w kafka \<Rightarrow> topic_partition \<Rightarrow> 'w copier \<Rightarrow> (nat \<times> 'w copier) option" where
  "borrow k tp s =
     (if pooled s tp = [] then make_producer k tp s
      else Some (List.last (pooled s tp), s\<lparr>cp_pool := mput (cp_pool s) tp (butlast (pooled s tp))\<rparr>))"

definition release_producer :: "'w kafka \<Rightarrow> topic_partition \<Rightarrow> nat \<Rightarrow> 'w copier \<Rightarrow> 'w copier" where
  "release_producer k tp p s =
     (let (f, s) = txn_status k p s
      in if tf_in_error f then snd (producer_call k p Close s)
         else s\<lparr>cp_pool := mput (cp_pool s) tp (pooled s tp @ [p])\<rparr>)"

text \<open>
  \<open>clear\<close>: the second loop assigns to its own variable only, so the pool stays as it is.
\<close>

definition clear_pool :: "'w kafka \<Rightarrow> 'w copier \<Rightarrow> 'w copier" where
  "clear_pool k s = fold (\<lambda>p s. snd (producer_call k p Close s)) (concat (map snd (cp_pool s))) s"

subsection \<open>One record\<close>

datatype txn_end = OffsetReset | RetrySucceeded

text \<open>\<open>handleTxnError\<close>; the loop may go on for ever, which is the result \<open>None\<close>.\<close>

partial_function (option) handle_txn_error ::
  "'w kafka \<Rightarrow> nat \<Rightarrow> kafka_message \<Rightarrow> call_kind \<Rightarrow> 'w copier \<Rightarrow> (txn_end \<times> 'w copier) option" where
  "handle_txn_error k p m retry s =
     (let (f, s) = txn_status k p s
      in if tf_fatal f then Some (OffsetReset, reset_offset k m s)
         else (let (f, s) = txn_status k p s
               in if tf_abortable f
                  then (let (ok, s) = producer_call k p Abort s
                        in if ok then Some (OffsetReset, reset_offset k m s) else handle_txn_error k p m retry s)
                  else (let (ok, s) = producer_call k p retry s
                        in if ok then Some (RetrySucceeded, s) else handle_txn_error k p m retry s)))"

datatype copy_end = NotBegun | AddFailed txn_end | CommitFailed txn_end | Copied

text \<open>The body of the loop of \<open>ConsumeClaim\<close> between borrowing and releasing a producer.\<close>

definition copy_in_txn :: "'w kafka \<Rightarrow> string \<Rightarrow> kafka_message \<Rightarrow> nat \<Rightarrow> 'w copier \<Rightarrow> (copy_end \<times> 'w copier) option" where
  "copy_in_txn k destination m p s =
     (let (begun, s) = producer_call k p Begin s
      in if \<not> begun then Some (NotBegun, s)
         else (let (_, s) = producer_call k p (Produce destination (km_key m) (km_value m)) s;
                   (added, s) = producer_call k p (AddMessage m) s
               in if \<not> added then map_option (map_prod AddFailed id) (handle_txn_error k p m (AddMessage m) s)
                  else (let (committed, s) = producer_call k p Commit s
                        in if \<not> committed then map_option (map_prod CommitFailed id) (handle_txn_error k p m Commit s)
                           else Some (Copied, s))))"

definition copy_message :: "'w kafka \<Rightarrow> string \<Rightarrow> kafka_message \<Rightarrow> 'w copier \<Rightarrow> (copy_end \<times> 'w copier) option" where
  "copy_message k destination m s =
     (let tp = TopicPartition (km_topic m) (km_partition m)
      in Option.bind (borrow k tp s) (\<lambda>(p, s).
         map_option (map_prod id (release_producer k tp p)) (copy_in_txn k destination m p s)))"

text \<open>\<open>ConsumeClaim\<close>: the records of a claim, until its channel is closed or the session ends.\<close>

primrec consume_claim :: "'w kafka \<Rightarrow> string \<Rightarrow> kafka_message list \<Rightarrow> 'w copier \<Rightarrow> (copy_end list \<times> 'w copier) option" where
  "consume_claim k destination [] s = Some ([], s)"
| "consume_claim k destination (m # ms) s =
     Option.bind (copy_message k destination m s) (\<lambda>(e, s).
     map_option (map_prod (Cons e) id) (consume_claim k destination ms s))"

subsection \<open>Pausing\<close>

datatype flow_call = ResumeAll | PauseAll

definition toggle_consumption :: "bool \<Rightarrow> flow_call \<times> bool" where
  "toggle_consumption paused = (if paused then ResumeAll else PauseAll, \<not> paused)"

text \<open>The loop of \<open>main\<close>, over the signals that arrive.\<close>

datatype main_signal = ContextDone | TermSignal | ToggleSignal

primrec main_loop :: "main_signal list \<Rightarrow> bool \<Rightarrow> flow_call list \<times> bool" where
  "main_loop [] paused = ([], paused)"
| "main_loop (g # gs) paused =
     (case g of
        ToggleSignal \<Rightarrow>
          (let (c, paused) = toggle_consumption paused; (cs, paused) = main_loop gs paused in (c # cs, paused))
      | _ \<Rightarrow> ([], paused))"

subsection \<open>What one transaction calls\<close>

lemma txn_status_fields:
  "txn_status k p s = (f, t) \<Longrightarrow> cp_pool t = cp_pool s \<and> cp_calls t = cp_calls s"
  by (auto simp: txn_status_def split: prod.splits)

lemma producer_call_fields:
  "producer_call k p c s = (ok, t) \<Longrightarrow> cp_pool t = cp_pool s \<and> cp_calls t = cp_calls s @ [ProducerCall p c ok]"
  by (auto simp: producer_call_def split: prod.splits)

lemma reset_offset_fields [simp]:
  "cp_pool (reset_offset k m s) = cp_pool s" "cp_calls (reset_offset k m s) = cp_calls s @ [ResetOffset m]"
  by (simp_all add: reset_offset_def)

text \<open>The calls of the error handler: failures, at most a successful abort, and the one that ends it.\<close>

definition handler_calls :: "nat \<Rightarrow> kafka_message \<Rightarrow> call_kind \<Rightarrow> txn_end \<Rightarrow> kafka_call list \<Rightarrow> bool" where
  "handler_calls p m retry e xs \<longleftrightarrow>
     (\<exists>ys. xs = ys @ [case e of OffsetReset \<Rightarrow> ResetOffset m | RetrySucceeded \<Rightarrow> ProducerCall p retry True] \<and>
       set ys \<subseteq> {ProducerCall p Abort False, ProducerCall p retry False, ProducerCall p Abort True})"

lemma handler_calls_single [simp]:
  "handler_calls p m retry OffsetReset [ResetOffset m]"
  "handler_calls p m retry OffsetReset [ProducerCall p Abort True, ResetOffset m]"
  "handler_calls p m retry RetrySucceeded [ProducerCall p retry True]"
  by (auto simp: handler_calls_def)

lemma handler_calls_Cons:
  "handler_calls p m retry e xs \<Longrightarrow> c \<in> {ProducerCall p Abort False, ProducerCall p retry False} \<Longrightarrow>
   handler_calls p m retry e (c # xs)"
  unfolding handler_calls_def by (elim exE conjE) (rule_tac x = "c # ys" in exI, auto)

lemma handle_txn_error_calls:
  assumes "handle_txn_error k p m retry s = Some r"
  shows "cp_pool (snd r) = cp_pool s \<and> (\<exists>xs. cp_calls (snd r) = cp_calls s @ xs \<and> handler_calls p m retry (fst r) xs)"
proof (rule handle_txn_error.raw_induct [where P = "\<lambda>k p m retry s r. cp_pool (snd r) = cp_pool s \<and>
    (\<exists>xs. cp_calls (snd r) = cp_calls s @ xs \<and> handler_calls p m retry (fst r) xs)", OF _ assms])
  fix h :: "'a kafka \<Rightarrow> nat \<Rightarrow> kafka_message \<Rightarrow> call_kind \<Rightarrow> 'a copier \<Rightarrow> (txn_end \<times> 'a copier) option"
    and k p m retry s r
  assume IH: "\<And>k p m retry s r. h k p m retry s = Some r \<Longrightarrow> cp_pool (snd r) = cp_pool s \<and>
      (\<exists>xs. cp_calls (snd r) = cp_calls s @ xs \<and> handler_calls p m retry (fst r) xs)"
    and eq: "(let (f, s) = txn_status k p s
      in if tf_fatal f then Some (OffsetReset, reset_offset k m s)
         else (let (f, s) = txn_status k p s
               in if tf_abortable f
                  then (let (ok, s) = producer_call k p Abort s
                        in if ok then Some (OffsetReset, reset_offset k m s) else h k p m retry s)
                  else (let (ok, s) = producer_call k p retry s
                        in if ok then Some (RetrySucceeded, s) else h k p m retry s))) = Some r"
  obtain f1 s1 where s1: "txn_status k p s = (f1, s1)" by fastforce
  obtain f2 s2 where s2: "txn_status k p s1 = (f2, s2)" by fastforce
  obtain ok3 s3 where s3: "producer_call k p Abort s2 = (ok3, s3)" by fastforce
  obtain ok4 s4 where s4: "producer_call k p retry s2 = (ok4, s4)" by fastforce
  note fields = txn_status_fields [OF s1] txn_status_fields [OF s2] producer_call_fields [OF s3] producer_call_fields [OF s4]
  consider (fatal) "r = (OffsetReset, reset_offset k m s1)" | (aborted) "ok3" "r = (OffsetReset, reset_offset k m s3)"
    | (abort_again) "\<not> ok3" "h k p m retry s3 = Some r" | (retried) "ok4" "r = (RetrySucceeded, s4)"
    | (retry_again) "\<not> ok4" "h k p m retry s4 = Some r"
    using eq by (auto simp: s1 s2 s3 s4 split: if_splits)
  then show "cp_pool (snd r) = cp_pool s \<and>
      (\<exists>xs. cp_calls (snd r) = cp_calls s @ xs \<and> handler_calls p m retry (fst r) xs)"
  proof cases
    case abort_again
    with IH [OF abort_again(2)] fields show ?thesis by (auto intro: handler_calls_Cons)
  next
    case retry_again
    with IH [OF retry_again(2)] fields show ?thesis by (auto intro: handler_calls_Cons)
  qed (use fields in auto)
qed

text \<open>
  Which calls a record leads to, for each of its ends. A record is settled when its transaction
  is committed or its offset is reset, so that it is read again.
\<close>

definition settled :: "nat \<Rightarrow> kafka_message \<Rightarrow> kafka_call list \<Rightarrow> bool" where
  "settled p m xs \<longleftrightarrow> ProducerCall p Commit True \<in> set xs \<or> ResetOffset m \<in> set xs"

fun settles :: "copy_end \<Rightarrow> bool" where
  "settles NotBegun = False"
| "settles (AddFailed RetrySucceeded) = False"
| "settles _ = True"

lemma handler_calls_settled:
  "handler_calls p m retry e xs \<Longrightarrow>
   (ResetOffset m \<in> set xs \<longleftrightarrow> e = OffsetReset) \<and>
   (ProducerCall p Commit True \<in> set xs \<longleftrightarrow> e = RetrySucceeded \<and> retry = Commit)"
  by (cases e) (auto simp: handler_calls_def)

lemma copy_in_txn_calls:
  assumes "copy_in_txn k destination m p s = Some (e, t)"
  shows "cp_pool t = cp_pool s \<and>
    (\<exists>xs. cp_calls t = cp_calls s @ xs \<and> (settled p m xs \<longleftrightarrow> settles e) \<and>
      \<not> (ProducerCall p Commit True \<in> set xs \<and> ResetOffset m \<in> set xs))"
proof -
  let ?produce = "Produce destination (km_key m) (km_value m)"
  obtain begun s1 where s1: "producer_call k p Begin s = (begun, s1)" by fastforce
  obtain ok s2 where s2: "producer_call k p ?produce s1 = (ok, s2)" by fastforce
  obtain added s3 where s3: "producer_call k p (AddMessage m) s2 = (added, s3)" by fastforce
  obtain committed s4 where s4: "producer_call k p Commit s3 = (committed, s4)" by fastforce
  note fields = producer_call_fields [OF s1] producer_call_fields [OF s2] producer_call_fields [OF s3]
    producer_call_fields [OF s4]
  consider (not_begun) "\<not> begun" "e = NotBegun" "t = s1"
    | (add_failed) e' where "\<not> added" "e = AddFailed e'" "handle_txn_error k p m (AddMessage m) s3 = Some (e', t)"
    | (commit_failed) e' where "\<not> committed" "e = CommitFailed e'" "handle_txn_error k p m Commit s4 = Some (e', t)"
    | (copied) "committed" "e = Copied" "t = s4" "added"
    using assms by (auto simp: copy_in_txn_def s1 s2 s3 s4 split: if_splits)
  then show ?thesis
  proof cases
    case add_failed
    from handle_txn_error_calls [OF add_failed(3)] obtain xs where
      xs: "cp_calls t = cp_calls s3 @ xs" "handler_calls p m (AddMessage m) e' xs" "cp_pool t = cp_pool s3" by auto
    from handler_calls_settled [OF xs(2)] xs(1,3) fields add_failed(1,2) show ?thesis
      by (cases e') (auto simp: settled_def)
  next
    case commit_failed
    from handle_txn_error_calls [OF commit_failed(3)] obtain xs where
      xs: "cp_calls t = cp_calls s4 @ xs" "handler_calls p m Commit e' xs" "cp_pool t = cp_pool s4" by auto
    from handler_calls_settled [OF xs(2)] xs(1,3) fields commit_failed(1,2) show ?thesis
      by (cases e') (auto simp: settled_def)
  qed (use fields in \<open>auto simp: settled_def\<close>)
qed

subsection \<open>The pool under concurrent claims\<close>

text \<open>
  The claims run at the same time; the pool is locked for each borrow and release. A run keeps
  the producers that are lent, with the topic and partition, and for each producer the topic
  and partition whose transactional identity it was made with. A new producer is an object of
  its own.
\<close>

record 'w pool_run =
  pr_copier :: "'w copier"
  pr_lent :: "(topic_partition \<times> nat) list"
  pr_owner :: "nat \<Rightarrow> topic_partition"

inductive pool_step :: "'w kafka \<Rightarrow> 'w pool_run \<Rightarrow> 'w pool_run \<Rightarrow> bool" for k where
  borrow_pooled: "pooled (pr_copier r) tp \<noteq> [] \<Longrightarrow> borrow k tp (pr_copier r) = Some (p, s) \<Longrightarrow>
    pool_step k r (r\<lparr>pr_copier := s, pr_lent := (tp, p) # pr_lent r\<rparr>)"
| borrow_made: "pooled (pr_copier r) tp = [] \<Longrightarrow> borrow k tp (pr_copier r) = Some (p, s) \<Longrightarrow>
    p \<notin> snd ` set (pr_lent r) \<Longrightarrow> (\<And>t. p \<notin> set (pooled (pr_copier r) t)) \<Longrightarrow>
    pool_step k r (r\<lparr>pr_copier := s, pr_lent := (tp, p) # pr_lent r, pr_owner := (pr_owner r)(p := tp)\<rparr>)"
| use_producer: "(tp, p) \<in> set (pr_lent r) \<Longrightarrow> copy_in_txn k destination m p (pr_copier r) = Some (e, s) \<Longrightarrow>
    pool_step k r (r\<lparr>pr_copier := s\<rparr>)"
| give_back: "(tp, p) \<in> set (pr_lent r) \<Longrightarrow>
    pool_step k r (r\<lparr>pr_copier := release_producer k tp p (pr_copier r), pr_lent := remove1 (tp, p) (pr_lent r)\<rparr>)"

definition pool_inv :: "'w pool_run \<Rightarrow> bool" where
  "pool_inv r \<longleftrightarrow>
     distinct (map snd (pr_lent r)) \<and>
     (\<forall>tp p. (tp, p) \<in> set (pr_lent r) \<longrightarrow> pr_owner r p = tp) \<and>
     (\<forall>tp. distinct (pooled (pr_copier r) tp)) \<and>
     (\<forall>tp p. p \<in> set (pooled (pr_copier r) tp) \<longrightarrow> pr_owner r p = tp \<and> p \<notin> snd ` set (pr_lent r))"

lemma make_producer_pool:
  assumes "make_producer k tp s = Some r"
  shows "cp_pool (snd r) = cp_pool s"
proof (rule make_producer.raw_induct [where P = "\<lambda>k tp s r. cp_pool (snd r) = cp_pool s", OF _ assms])
  fix h :: "'a kafka \<Rightarrow> topic_partition \<Rightarrow> 'a copier \<Rightarrow> (nat \<times> 'a copier) option" and k tp s r
  assume IH: "\<And>k tp s r. h k tp s = Some r \<Longrightarrow> cp_pool (snd r) = cp_pool s"
    and eq: "(let (made, w) = k_new_producer k tp (cp_world s)
      in case made of Some p \<Rightarrow> Some (p, s\<lparr>cp_world := w\<rparr>) | None \<Rightarrow> h k tp (s\<lparr>cp_world := w\<rparr>)) = Some r"
  obtain made w where made: "k_new_producer k tp (cp_world s) = (made, w)" by fastforce
  show "cp_pool (snd r) = cp_pool s"
  proof (cases made)
    case None
    with eq IH [of k tp "s\<lparr>cp_world := w\<rparr>" r] made show ?thesis by simp
  qed (use eq made in auto)
qed

lemma pooled_pool: "cp_pool t = cp_pool s \<Longrightarrow> pooled t tp = pooled s tp"
  by (simp add: pooled_def)

lemma pooled_mput [simp]: "pooled (s\<lparr>cp_pool := mput (cp_pool s) tp ps\<rparr>) t = (if t = tp then ps else pooled s t)"
  by (simp add: pooled_def)

lemma borrow_pooled_eq:
  "borrow k tp s = Some (p, t) \<Longrightarrow> pooled s tp \<noteq> [] \<Longrightarrow>
   pooled s tp = pooled t tp @ [p] \<and> (\<forall>u. u \<noteq> tp \<longrightarrow> pooled t u = pooled s u)"
  by (auto simp: borrow_def)

lemma borrow_made_eq: "borrow k tp s = Some (p, t) \<Longrightarrow> pooled s tp = [] \<Longrightarrow> pooled t u = pooled s u"
  using make_producer_pool [of k tp s "(p, t)"] by (intro pooled_pool) (simp add: borrow_def)

lemma release_producer_pooled:
  "pooled (release_producer k tp p s) u = pooled s u \<or>
   u = tp \<and> pooled (release_producer k tp p s) u = pooled s u @ [p]"
proof -
  obtain f t where t: "txn_status k p s = (f, t)" by fastforce
  obtain ok v where v: "producer_call k p Close t = (ok, v)" by fastforce
  show ?thesis
    using txn_status_fields [OF t] producer_call_fields [OF v]
    by (auto simp: release_producer_def t v pooled_def)
qed

lemma pool_inv_step: "pool_step k r q \<Longrightarrow> pool_inv r \<Longrightarrow> pool_inv q"
proof (induction rule: pool_step.induct)
  case (borrow_pooled r tp p s)
  let ?c = "pr_copier r"
  note eq = borrow_pooled_eq [OF borrow_pooled(2,1)]
  have inv: "\<And>u. distinct (pooled ?c u)" "\<And>u q. q \<in> set (pooled ?c u) \<Longrightarrow> pr_owner r q = u \<and> q \<notin> snd ` set (pr_lent r)"
    using borrow_pooled(3) by (simp_all add: pool_inv_def)
  have p: "p \<in> set (pooled ?c tp)" using eq by simp
  have sub: "set (pooled s u) \<subseteq> set (pooled ?c u) - {p}" for u
  proof (cases "u = tp")
    case True
    then show ?thesis using inv(1) [of tp] eq by auto
  next
    case False
    then show ?thesis using eq inv(2) [OF p] inv(2) [of p u] by auto
  qed
  have distinct: "distinct (pooled s u)" for u
    using inv(1) [of u] inv(1) [of tp] eq by (cases "u = tp") auto
  have "pr_owner r q = u \<and> q \<notin> insert p (snd ` set (pr_lent r))" if "q \<in> set (pooled s u)" for u q
    using that sub [of u] inv(2) [of q u] by auto
  with distinct show ?case
    using borrow_pooled(3) inv(2) [OF p] by (simp add: pool_inv_def)
next
  case (borrow_made r tp p s)
  have lent: "pr_owner r q = u \<and> q \<noteq> p" if "(u, q) \<in> set (pr_lent r)" for u q
    using that borrow_made(3,5) by (force simp: pool_inv_def)
  have pool: "pr_owner r q = u \<and> q \<noteq> p \<and> q \<notin> snd ` set (pr_lent r)" if "q \<in> set (pooled (pr_copier r) u)" for u q
    using that borrow_made(4,5) by (auto simp: pool_inv_def)
  show ?case
    using borrow_made(3,5) lent pool borrow_made_eq [OF borrow_made(2,1)] by (simp add: pool_inv_def)
next
  case (use_producer tp p r destination m e s)
  have "pooled s u = pooled (pr_copier r) u" for u
    using copy_in_txn_calls [OF use_producer(2)] by (intro pooled_pool) blast
  with use_producer(3) show ?case by (simp add: pool_inv_def)
next
  case (give_back tp p r)
  let ?c = "pr_copier r" and ?l = "remove1 (tp, p) (pr_lent r)" and ?t = "release_producer k tp p (pr_copier r)"
  have distinct: "distinct (map snd (pr_lent r))" using give_back(2) by (simp add: pool_inv_def)
  have set_l: "set ?l = set (pr_lent r) - {(tp, p)}"
    using distinct by (simp add: distinct_map)
  have lent: "distinct (map snd ?l)"
    using distinct by (auto simp: distinct_map set_l intro: inj_on_subset)
  have p: "p \<notin> snd ` set ?l"
    using distinct give_back(1) by (force simp: distinct_map inj_on_def set_l)
  have owner: "pr_owner r p = tp" using give_back by (simp add: pool_inv_def)
  have fresh: "p \<notin> set (pooled ?c u)" for u
    using give_back by (force simp: pool_inv_def)
  have ok: "distinct (pooled ?t u) \<and> (\<forall>q\<in>set (pooled ?t u). pr_owner r q = u \<and> q \<notin> snd ` set ?l)" for u
  proof -
    have "distinct (pooled ?c u) \<and> (\<forall>q\<in>set (pooled ?c u). pr_owner r q = u \<and> q \<notin> snd ` set ?l)"
      using give_back(2) by (force simp: pool_inv_def set_l)
    then show ?thesis
      using release_producer_pooled [of k tp p ?c u] owner fresh [of u] p by (elim disjE conjE) simp_all
  qed
  show ?case
    using give_back(2) lent ok by (simp add: pool_inv_def set_l)
qed

definition start_pool :: "'w \<Rightarrow> 'w pool_run" where
  "start_pool w = \<lparr>pr_copier = \<lparr>cp_pool = [], cp_world = w, cp_calls = []\<rparr>, pr_lent = [], pr_owner = (\<lambda>p. TopicPartition [] 0)\<rparr>"

lemma pool_inv_run: "(pool_step k)\<^sup>*\<^sup>* r q \<Longrightarrow> pool_inv r \<Longrightarrow> pool_inv q"
  by (induction rule: rtranclp_induct) (auto intro: pool_inv_step)

text \<open>
  In every interleaving of the claims a producer serves at most one of them at a time, waits in
  at most one place of the pool, and is only used for the topic and partition of its identity.
\<close>

lemma producers_not_shared:
  assumes "(pool_step k)\<^sup>*\<^sup>* (start_pool w) r"
  shows "distinct (map snd (pr_lent r))" and "(tp, p) \<in> set (pr_lent r) \<Longrightarrow> pr_owner r p = tp"
    and "distinct (pooled (pr_copier r) tp)"
    and "p \<in> set (pooled (pr_copier r) tp) \<Longrightarrow> pr_owner r p = tp \<and> p \<notin> snd ` set (pr_lent r)"
proof -
  have "pool_inv (start_pool w)" by (simp add: pool_inv_def start_pool_def pooled_def)
  then have "pool_inv r" using assms by (rule pool_inv_run [rotated])
  then show "distinct (map snd (pr_lent r))" "(tp, p) \<in> set (pr_lent r) \<Longrightarrow> pr_owner r p = tp"
    "distinct (pooled (pr_copier r) tp)"
    "p \<in> set (pooled (pr_copier r) tp) \<Longrightarrow> pr_owner r p = tp \<and> p \<notin> snd ` set (pr_lent r)"
    by (simp_all add: pool_inv_def)
qed

subsection \<open>When a record is handled\<close>

text \<open>
  The error handler returns when the library makes progress with every failed attempt, and the
  record is then settled, with two exceptions: a transaction that did not begin, and a record
  that was added on a later attempt, after which the code returns without a commit.
\<close>

lemma handle_txn_error_returns:
  assumes "\<And>w f1 w1 f2 w2 ok w3. k_txn_status k p w = (f1, w1) \<Longrightarrow> \<not> tf_fatal f1 \<Longrightarrow> k_txn_status k p w1 = (f2, w2) \<Longrightarrow>
      k_call k p (if tf_abortable f2 then Abort else retry) w2 = (ok, w3) \<Longrightarrow> \<not> ok \<Longrightarrow> \<mu> w3 < (\<mu> w :: nat)"
  shows "\<exists>r. handle_txn_error k p m retry s = Some r"
proof (induction "\<mu> (cp_world s)" arbitrary: s rule: less_induct)
  case less
  obtain f1 w1 where w1: "k_txn_status k p (cp_world s) = (f1, w1)" by fastforce
  obtain f2 w2 where w2: "k_txn_status k p w1 = (f2, w2)" by fastforce
  obtain ok w3 where w3: "k_call k p (if tf_abortable f2 then Abort else retry) w2 = (ok, w3)" by fastforce
  show ?case
  proof (cases "tf_fatal f1 \<or> ok")
    case True
    then show ?thesis
      using w1 w2 w3 by (subst handle_txn_error.simps) (auto simp: txn_status_def producer_call_def)
  next
    case False
    with assms w1 w2 w3 have less: "\<mu> w3 < \<mu> (cp_world s)" by blast
    let ?c = "if tf_abortable f2 then Abort else retry"
    obtain r where "handle_txn_error k p m retry
        (s\<lparr>cp_world := w3, cp_calls := cp_calls s @ [ProducerCall p ?c False]\<rparr>) = Some r"
      using less.hyps [of "s\<lparr>cp_world := w3, cp_calls := cp_calls s @ [ProducerCall p ?c False]\<rparr>"] less by auto
    then show ?thesis
      using w1 w2 w3 False
      by (subst handle_txn_error.simps) (auto simp: txn_status_def producer_call_def split: if_splits)
  qed
qed

text \<open>
  An example of the second exception: the first attempt to add the offset of a record fails and
  the second one succeeds. The transaction stays open, the producer goes back to the pool, and
  for the next record of the partition it cannot begin: that record is neither copied nor read
  again.
\<close>

record sample_txn =
  st_open :: bool
  st_failures :: nat

definition sample_kafka :: "sample_txn kafka" where
  "sample_kafka =
     \<lparr>k_new_producer = (\<lambda>tp w. (Some 1, w)),
      k_txn_status = (\<lambda>p w. (\<lparr>tf_in_error = False, tf_fatal = False, tf_abortable = False\<rparr>, w)),
      k_call = (\<lambda>p c w.
        case c of
          Begin \<Rightarrow> (\<not> st_open w, w\<lparr>st_open := True\<rparr>)
        | AddMessage m \<Rightarrow> (st_failures w = 0, w\<lparr>st_failures := st_failures w - 1\<rparr>)
        | Commit \<Rightarrow> (True, w\<lparr>st_open := False\<rparr>)
        | _ \<Rightarrow> (True, w)),
      k_reset = (\<lambda>m w. w)\<rparr>"

definition sample_record :: "int \<Rightarrow> kafka_message" where
  "sample_record n = \<lparr>km_topic = ''in'', km_partition = 0, km_offset = n, km_key = ''k'', km_value = ''v''\<rparr>"

lemma sample_kafka_simps [simp]:
  "make_producer sample_kafka tp s = Some (1, s)"
  "txn_status sample_kafka p s = (\<lparr>tf_in_error = False, tf_fatal = False, tf_abortable = False\<rparr>, s)"
  "producer_call sample_kafka p Begin s =
     (\<not> st_open (cp_world s), s\<lparr>cp_world := (cp_world s)\<lparr>st_open := True\<rparr>,
        cp_calls := cp_calls s @ [ProducerCall p Begin (\<not> st_open (cp_world s))]\<rparr>)"
  "producer_call sample_kafka p (Produce d x y) s =
     (True, s\<lparr>cp_calls := cp_calls s @ [ProducerCall p (Produce d x y) True]\<rparr>)"
  "producer_call sample_kafka p (AddMessage m) s =
     (st_failures (cp_world s) = 0, s\<lparr>cp_world := (cp_world s)\<lparr>st_failures := st_failures (cp_world s) - 1\<rparr>,
        cp_calls := cp_calls s @ [ProducerCall p (AddMessage m) (st_failures (cp_world s) = 0)]\<rparr>)"
  by (simp_all add: make_producer.simps sample_kafka_def txn_status_def producer_call_def)

lemma sample_retry:
  "handle_txn_error sample_kafka p m (AddMessage m) s =
     (let (ok, s) = producer_call sample_kafka p (AddMessage m) s
      in if ok then Some (RetrySucceeded, s) else handle_txn_error sample_kafka p m (AddMessage m) s)"
  by (subst handle_txn_error.simps) simp

lemma record_lost:
  "map_option (\<lambda>(es, s). (es, filter (\<lambda>c. c = ProducerCall 1 Commit True \<or> c = ResetOffset (sample_record 1)
       \<or> c = ResetOffset (sample_record 2)) (cp_calls s)))
     (consume_claim sample_kafka ''out'' [sample_record 1, sample_record 2]
        \<lparr>cp_pool = [], cp_world = \<lparr>st_open = False, st_failures = 1\<rparr>, cp_calls = []\<rparr>) =
   Some ([AddFailed RetrySucceeded, NotBegun], [])"
  by (simp add: copy_message_def borrow_def pooled_def copy_in_txn_def release_producer_def
      sample_record_def sample_retry)

text \<open>Closing the pool leaves the closed producers in it.\<close>

lemma cleared_pool_kept: "cp_pool (clear_pool k s) = cp_pool s"
proof -
  have "cp_pool (snd (producer_call k p c t)) = cp_pool t" for p c t
    by (metis prod.collapse producer_call_fields)
  then have "cp_pool (fold (\<lambda>p s. snd (producer_call k p Close s)) ps s) = cp_pool s" for ps
    by (induction ps arbitrary: s) simp_all
  then show ?thesis by (simp add: clear_pool_def)
qed

text \<open>The program pauses and resumes in turn, until it is told to stop.\<close>

lemma main_loop_alternates:
  "main_loop (replicate n ToggleSignal @ TermSignal # gs) False =
     (map (\<lambda>i. if even i then PauseAll else ResumeAll) [0..<n], odd n)"
proof -
  have "main_loop (replicate n ToggleSignal @ TermSignal # gs) paused =
      (map (\<lambda>i. if even i = paused then ResumeAll else PauseAll) [0..<n], odd n \<noteq> paused)" for paused
    by (induction n arbitrary: paused)
       (auto simp: toggle_consumption_def map_upt_Suc Let_def simp del: upt_Suc)
  then show ?thesis by auto
qed

end
