(* ===== verification/Spec2Isabelle.thy ===== *)
theory Spec2Isabelle
  imports Webhook_Server Schema_Main K8s_Cache Main_Program Survey_Events Pipelines Test_Collector Replace_Function Kafka_Copy
begin

text \<open>
  Beyla observes the processes of a host from outside, with eBPF, and exports metrics and
  traces of them. The eBPF part and most of the span pipeline are the vendored library OBI
  (\<open>vendor/go.opentelemetry.io/obi\<close>); the code of this repository adds the parts below, which
  this library models. All paths are below \<open>src/\<close>.

  \<^bold>\<open>The parts and how they interact.\<close>

  \<^item> The injector is a Kubernetes admission webhook (pkg/webhook) that adds an OTEL SDK to pods.
    At its start the server scans the processes of the host, removes old SDK versions, checks
    the version of Kubernetes, and then answers admission requests and reacts to events of the
    pod informer by restarting deployments whose pods should be, or should no longer be,
    instrumented. Scanner, bouncer, matcher and mutator are its components.
  \<^item> Process metrics (pkg/internal/infraolly/process): spans announce PIDs, a collector
    harvests them from /proc in turns, with an LRU cache of snapshots for deltas, and sends a
    status for each to the exporters (pkg/export/otel/metrics_proc.go, pkg/export/prom).
  \<^item> The survey: discovered processes become events, and two reporters show one series for
    each live service (pkg/export/otel/metrics_survey.go, pkg/export/prom/prom_survey.go).
  \<^item> Connection spans: spans that leave the cluster are selected and sent by an OTLP exporter
    and a receiver inside of Alloy.
  \<^item> The instrumenter (pkg/internal/appolly) starts a tracer for each process found and stops
    gracefully; its queues connect the finder, the annotation of process events, and the
    pipelines of spans, survey and process metrics.
  \<^item> The configuration decides which of them run. It is read from YAML and variables, validated
    and normalised, and converted into that of the vendored library by reflection.
  \<^item> Beside the main program: the cache of Kubernetes metadata (cmd/k8s-cache), the generator of
    the JSON schema of the configuration (cmd/beyla-schema), a script that replaces functions,
    programs that are compiled for struct offsets, and the collector of the tests.

  \<^bold>\<open>Theories, in the order of import.\<close>

  \<^item> \<open>Prelude\<close>: the Go language and its standard library as the code uses them (byte strings,
    strconv, maps as association lists, errors as sums), and the collections \<open>go_string\<close>,
    \<open>go_map\<close>, \<open>go_error\<close> of facts on them.
  \<^item> \<open>Semver\<close> (vendor/golang.org/x/mod/semver): parsing and comparison; the order is that of a
    key, so it is total and transitive. \<open>Sha224\<close>: the digest in version labels.
  \<^item> \<open>Inject_Config\<close> (pkg/beyla/config.go, pkg/services): the injector section. \<open>Pod_Model\<close>: pods,
    containers and environment variables. \<open>Pod_Matcher\<close> (pkg/webhook/matcher.go).
    \<open>Pod_Env\<close> (pkg/webhook/env_vars.go): every variable and resource attribute that is
    injected, and their precedence. \<open>Pod_Mutator\<close> (pkg/webhook/mutator.go): which pods change
    and how, idempotence, what the order of Go maps can change (only the places of the
    variables that come from export headers), admission responses.
  \<^item> \<open>Container_Info\<close> (container.go): cgroup lines by backtracking regular expressions.
    \<open>Process_Scanner\<close> (scanner.go), \<open>Bouncer\<close> (bouncer.go), \<open>Webhook_Server\<close> (server.go): grouping
    by container, the oldest version in use as a lower bound, one patch for a deployment over
    every sequence of events and exactly the wanted patches for one event, no restart of what
    the webhook has instrumented, the version of Kubernetes that image volumes need, and what
    the clean-up may remove.
  \<^item> \<open>Lru_Cache\<close> (vendor/github.com/hashicorp/golang-lru), \<open>Proc_Snapshot\<close> (snapshot.go),
    \<open>Proc_Harvest\<close> (harvest.go, collect.go, status.go) and \<open>Proc_Accounting\<close>: the parsers of
    /proc, a collection as a refinement of the harvest of each process from its own cache
    entry, the invariant of the collector over all runs, sums of deltas, and what goes wrong when a
    command has a closing parenthesis or a PID is used again.
  \<^item> \<open>Pid_Tracker\<close> (vendored pid_tracker.go) and \<open>Survey_Metrics\<close>: a locale for the tracker and
    one for a reporter, with the two reporters as its interpretations; both refine a map of
    live services, as long as no attribute overrides those of the UID (the vendored builder of
    the attributes, otelcfg/common.go, is written out) and no PID moves to a live service; what
    happens otherwise is shown too. \<open>Survey_Events\<close> (survey_informer.go, alloy/traces.go): the events with the
    metadata of executable and pod, and the receiver of traces.
  \<^item> \<open>Proc_Metrics\<close>: the selection of attributes, the points that both exporters write, and
    their agreement.
  \<^item> \<open>Connect_Spans\<close>, \<open>Otlp_Exporter\<close> and \<open>Beyla_Config\<close>: connection spans and their sinks; the
    endpoint, headers, queue and protocol of the exporter with the Grafana Cloud section;
    validation, normalization and the parts that start.
  \<^item> \<open>Config_Env\<close> (pkg/config/env_replacer.go, config_obi.go, LoadConfig): references to
    variables in the YAML text are expanded once, BEYLA variables get their second names.
    \<open>Config_Convert\<close> (pkg/helpers/config/convert.go): the conversion between configurations
    over trees of types and values: for which values it panics, and a decision, from the types
    and hints alone, whether there are any.
  \<^item> \<open>Instrumenter\<close> (appolly.go): event loop, tracers and stop as interleaved steps.
    \<open>Pipelines\<close> (finder.go, appolly.go, pipe): the nodes of the application and
    their queues, with those of the vendored finder: no cycle, one sender for each queue but
    that of incoming spans, which has two, and which queues have no sender or no reader.
    \<open>Main_Program\<close>
    (cmd/beyla/main.go, pkg/components): start and end of the program. \<open>K8s_Cache\<close>
    (cmd/k8s-cache): its configuration, converted without loss.
  \<^item> \<open>Schema_Store\<close>, \<open>Schema_Passes\<close>, \<open>Schema_Scan\<close>, \<open>Inline_Types\<close> and \<open>Schema_Main\<close>
    (cmd/beyla-schema/main.go): a store of schemas that may share nodes, the walk over it with
    a locale for its visitors, the passes on inline fields and variables, the scan of the
    syntax trees, the search for inline types in the graph of types, and the whole program.
  \<^item> \<open>Replace_Function\<close> (scripts/replace-function.go), \<open>Kafka_Copy\<close>
    (configs/offsets/sarama/inspect.go) and \<open>Test_Collector\<close> (pkg/test/collector).

  \<^bold>\<open>How the code is modelled.\<close> A struct is a record, an enumeration a datatype, a handler a
  function from the state and the input to the new state and the answer, and an early return
  with an error a branch of a sum or option. Words are 64-bit (features, block signals,
  counters of bytes) or 128-bit (trace identities); Go's signed integers are \<^typ>\<open>int\<close> with
  \<open>wrap64\<close> where the code subtracts or adds them. A loop over a slice is structural recursion; the
  loops that need a measure (parsers of /proc, command lines, cgroup expressions) have a
  termination proof. The walks over schemas and types recurse on pointers and have fuel:
  \<open>visit\<close> and \<open>process_env_vars\<close> need one more than the rank of their root, \<open>walk_fields\<close> the number
  of structs; both are proved to be enough. The retries of \<open>Kafka_Copy\<close> may go on for ever and are
  partial functions. The loops that wait for channels are runs:
  inductive relations or folds over the events that arrive.

  \<^bold>\<open>Parameters.\<close> What is outside of the repository, or an effect, is an argument: the answers
  of the operating system and of the Kubernetes API, decoders and encoders, floating-point
  operations (a record of the machine), image references, globs (as predicates), URL parsing,
  random identities and clocks. A theorem holds for all of them unless it names what it needs.

  \<^bold>\<open>Not modelled.\<close> YAML and environment decoding, HTTP and TLS serving, the construction of
  providers and exporters of the OTEL and Prometheus libraries, log messages, the eBPF
  programs, the reflector of the schema and what the nodes of the vendored pipelines do, which
  are calls of libraries; floating-point and interface types in the conversion of configurations;
  the remaining programs under configs/offsets, the examples and the helpers of the integration
  tests, which are straight-line calls of libraries.
\<close>

end
